(* ===== verification/Prelude.thy ===== *)
theory Prelude
  imports Main "HOL-Library.Word"
begin

unbundle bit_operations_syntax

text \<open>
  Shared vocabulary of the development: the machine types the Rust code uses, byte strings and
  their big-endian reading, and the generic lemmas on lists and words that the components share.
  A Rust \<open>str\<close> is the list of its UTF-8 bytes, which is also its representation in memory, so
  that byte offsets, lengths and comparisons are those of the code.
\<close>

section \<open>Types\<close>

type_synonym byte = "8 word"
type_synonym u16 = "16 word"
type_synonym u32 = "32 word"
type_synonym u64 = "64 word"
type_synonym u128 = "128 word"
type_synonym str = "byte list"

text \<open>A string literal of the source (all of them are ASCII) as bytes.\<close>

definition ascii :: "string \<Rightarrow> str" where
  "ascii s = map of_char s"

lemma ascii_simps [simp]:
  "ascii [] = []"
  "ascii (c # cs) = of_char c # ascii cs"
  by (simp_all add: ascii_def)

lemma ascii_append [simp]: "ascii (s @ t) = ascii s @ ascii t"
  by (simp add: ascii_def)

lemma length_ascii [simp]: "length (ascii s) = length s"
  by (simp add: ascii_def)

section \<open>Collections of facts\<close>

named_theorems emits_intros \<open>syntax-directed rules for the event predicate of handlers\<close>
named_theorems parse_simps \<open>equations that evaluate parsers on concrete input\<close>

section \<open>Lists and options\<close>

lemma replicate_numeral_eq [parse_simps]:
  "replicate (numeral k) x = x # replicate (pred_numeral k) x"
  by (simp add: numeral_eq_Suc)

text \<open>\<open>slice.first()\<close> with the rest, as the cursor style of the code uses it.\<close>

definition uncons :: "'a list \<Rightarrow> ('a \<times> 'a list) option" where
  "uncons xs = (case xs of [] \<Rightarrow> None | x # r \<Rightarrow> Some (x, r))"

lemma uncons_simps [simp]:
  "uncons [] = None"
  "uncons (x # xs) = Some (x, xs)"
  by (simp_all add: uncons_def)

text \<open>\<open>slice.get(a..b)\<close>: \<open>None\<close> when the range does not lie in the slice.\<close>

definition get_range :: "nat \<Rightarrow> nat \<Rightarrow> 'a list \<Rightarrow> 'a list option" where
  "get_range a b xs = (if a \<le> b \<and> b \<le> length xs then Some (take (b - a) (drop a xs)) else None)"

text \<open>\<open>slice.get(a..)\<close>.\<close>

definition get_from :: "nat \<Rightarrow> 'a list \<Rightarrow> 'a list option" where
  "get_from a xs = (if a \<le> length xs then Some (drop a xs) else None)"

text \<open>\<open>s.strip_prefix(p)\<close> on slices.\<close>

fun strip_prefix :: "'a list \<Rightarrow> 'a list \<Rightarrow> 'a list option" where
  "strip_prefix [] s = Some s"
| "strip_prefix (p # ps) [] = None"
| "strip_prefix (p # ps) (c # s) = (if p = c then strip_prefix ps s else None)"

definition starts_with :: "'a list \<Rightarrow> 'a list \<Rightarrow> bool" where
  "starts_with p s = (strip_prefix p s \<noteq> None)"

definition strip_suffix :: "'a list \<Rightarrow> 'a list \<Rightarrow> 'a list option" where
  "strip_suffix p s = map_option rev (strip_prefix (rev p) (rev s))"

definition ends_with :: "'a list \<Rightarrow> 'a list \<Rightarrow> bool" where
  "ends_with p s = (strip_suffix p s \<noteq> None)"

lemma strip_prefix_Some_iff: "strip_prefix p s = Some r \<longleftrightarrow> s = p @ r"
  by (induction p s rule: strip_prefix.induct) auto

lemma strip_prefix_append [simp]: "strip_prefix p (p @ r) = Some r"
  by (simp add: strip_prefix_Some_iff)

lemma strip_suffix_Some_iff: "strip_suffix p s = Some r \<longleftrightarrow> s = r @ p"
proof
  assume "strip_suffix p s = Some r"
  then obtain q where "strip_prefix (rev p) (rev s) = Some q" and r: "r = rev q"
    by (auto simp: strip_suffix_def)
  then have "rev s = rev p @ q" by (simp add: strip_prefix_Some_iff)
  then have "rev (rev s) = rev (rev p @ q)" by simp
  then show "s = r @ p" by (simp add: r)
qed (simp add: strip_suffix_def)

lemma starts_with_iff: "starts_with p s \<longleftrightarrow> (\<exists>r. s = p @ r)"
  by (auto simp: starts_with_def strip_prefix_Some_iff)

lemma option_triple_cases [case_names None Some]:
  "(x = None \<Longrightarrow> P) \<Longrightarrow> (\<And>a b c. x = Some (a, b, c) \<Longrightarrow> P) \<Longrightarrow> P"
  by (cases x) auto

text \<open>\<open>iter().position(p)\<close>.\<close>

fun position :: "('a \<Rightarrow> bool) \<Rightarrow> 'a list \<Rightarrow> nat option" where
  "position p [] = None"
| "position p (x # xs) = (if p x then Some 0 else map_option Suc (position p xs))"

lemma position_None_iff: "position p xs = None \<longleftrightarrow> (\<forall>x\<in>set xs. \<not> p x)"
  by (induction xs) auto

lemma position_SomeD:
  "position p xs = Some i \<Longrightarrow> i < length xs \<and> p (xs ! i) \<and> (\<forall>j<i. \<not> p (xs ! j))"
proof (induction xs arbitrary: i)
  case (Cons x xs)
  show ?case
  proof (cases "p x")
    case False
    with Cons.prems obtain k where k: "position p xs = Some k" "i = Suc k" by auto
    from Cons.IH [OF k(1)] show ?thesis
      using False k(2) by (auto simp: less_Suc_eq_0_disj)
  qed (use Cons.prems in auto)
qed simp

lemma position_append:
  "(\<forall>x\<in>set xs. \<not> p x) \<Longrightarrow> position p (xs @ ys) = map_option ((+) (length xs)) (position p ys)"
proof (induction xs)
  case Nil
  have "(+) (0::nat) = id" by auto
  then show ?case by (simp only: list.size append_Nil option.map_id0) simp
next
  case (Cons x xs)
  have "(\<lambda>i. Suc (length xs + i)) = (+) (Suc (length xs))" by auto
  with Cons show ?case by (simp add: option.map_comp comp_def)
qed

text \<open>\<open>s.split_once(c)\<close> and \<open>s.rsplit_once(c)\<close> for a one-byte pattern.\<close>

definition split_once :: "'a \<Rightarrow> 'a list \<Rightarrow> ('a list \<times> 'a list) option" where
  "split_once c s = map_option (\<lambda>i. (take i s, drop (Suc i) s)) (position ((=) c) s)"

definition rsplit_once :: "'a \<Rightarrow> 'a list \<Rightarrow> ('a list \<times> 'a list) option" where
  "rsplit_once c s =
     map_option (\<lambda>i. (take (length s - Suc i) s, drop (length s - i) s)) (position ((=) c) (rev s))"

lemma split_once_eq:
  "c \<notin> set a \<Longrightarrow> split_once c (a @ c # b) = Some (a, b)"
  by (subst split_once_def, subst position_append) auto

lemma rsplit_once_eq:
  "c \<notin> set b \<Longrightarrow> rsplit_once c (a @ c # b) = Some (a, b)"
  by (subst rsplit_once_def, simp, subst position_append) auto

lemma rsplit_once_SomeD:
  assumes "rsplit_once c s = Some (a, b)"
  shows "s = a @ c # b \<and> c \<notin> set b"
proof -
  from assms obtain i where i: "position ((=) c) (rev s) = Some i"
    and a: "a = take (length s - Suc i) s" and b: "b = drop (length s - i) s"
    by (auto simp: rsplit_once_def)
  from position_SomeD [OF i] have len: "i < length s" and at: "rev s ! i = c"
    and before: "\<And>j. j < i \<Longrightarrow> c \<noteq> rev s ! j" by auto
  have "s = take (length s - Suc i) s @ s ! (length s - Suc i) # drop (Suc (length s - Suc i)) s"
    using len by (intro id_take_nth_drop) simp
  then have "s = a @ c # b" using len at by (simp add: a b rev_nth Suc_diff_Suc)
  moreover have "c \<notin> set b"
  proof
    assume "c \<in> set b"
    then obtain k where k: "k < length b" "b ! k = c" by (auto simp: in_set_conv_nth)
    then have "k < i" using len by (simp add: b)
    moreover have "rev s ! (i - Suc k) = b ! k" using len \<open>k < i\<close> by (simp add: b rev_nth)
    ultimately show False using before [of "i - Suc k"] k(2) by auto
  qed
  ultimately show ?thesis by blast
qed

lemma split_once_SomeD:
  assumes "split_once c s = Some (a, b)"
  shows "s = a @ c # b \<and> c \<notin> set a"
proof -
  from assms obtain i where i: "position ((=) c) s = Some i"
    and a: "a = take i s" and b: "b = drop (Suc i) s"
    by (auto simp: split_once_def)
  from position_SomeD [OF i] have len: "i < length s" and at: "s ! i = c"
    and before: "\<And>j. j < i \<Longrightarrow> c \<noteq> s ! j" by auto
  have "s = a @ c # b" using id_take_nth_drop [OF len] at by (simp add: a b)
  moreover have "c \<notin> set a"
    using before len by (auto simp: a in_set_conv_nth)
  ultimately show ?thesis by blast
qed

section \<open>Words read as naturals\<close>

lemma unat_byte_less: "unat (b :: byte) < 256"
  using unsigned_less [of b, where ?'a = nat] by simp

lemma unat_u16_less: "unat (b :: u16) < 65536"
  using unsigned_less [of b, where ?'a = nat] by simp

lemma unat_u32_less: "unat (b :: u32) < 4294967296"
  using unsigned_less [of b, where ?'a = nat] by simp

section \<open>Big-endian bytes\<close>

text \<open>
  The \<open>n\<close> low-order bytes of a word, most significant first: \<open>to_be_bytes\<close>, \<open>octets\<close> and
  \<open>put_u8\<close>/\<open>put_u16\<close>/\<open>put_u32\<close>/\<open>put_u64\<close> of the code; and the word a byte list denotes:
  \<open>from_be_bytes\<close> and the \<open>From<[u8; n]>\<close> conversions.
\<close>

definition be_bytes :: "nat \<Rightarrow> 'a::len word \<Rightarrow> byte list" where
  "be_bytes n w = map (\<lambda>i. ucast (drop_bit (8 * i) w)) (rev [0..<n])"

definition be_val :: "byte list \<Rightarrow> 'a::len word" where
  "be_val bs = foldl (\<lambda>v b. push_bit 8 v OR ucast b) 0 bs"

lemma be_bytes_0 [simp]: "be_bytes 0 w = []"
  by (simp add: be_bytes_def)

lemma be_bytes_Suc: "be_bytes (Suc n) w = ucast (drop_bit (8 * n) w) # be_bytes n w"
  by (simp add: be_bytes_def)

lemma length_be_bytes [simp]: "length (be_bytes n w) = n"
  by (simp add: be_bytes_def)

lemma foldl_be_bytes:
  "foldl (\<lambda>v b. push_bit 8 v OR ucast b) v0 (be_bytes n (w :: 'a::len word))
     = push_bit (8 * n) v0 OR take_bit (8 * n) w"
proof (induction n arbitrary: v0)
  case (Suc n)
  show ?case
    unfolding be_bytes_Suc foldl_Cons Suc.IH
    by (rule bit_word_eqI) (auto simp: bit_simps algebra_simps)
qed simp

lemma be_val_be_bytes: "be_val (be_bytes n w) = take_bit (8 * n) w"
  by (simp add: be_val_def foldl_be_bytes)

lemma be_val_be_bytes_full:
  "LENGTH('a) \<le> 8 * n \<Longrightarrow> be_val (be_bytes n w) = (w :: 'a::len word)"
  by (simp add: be_val_be_bytes take_bit_word_eq_self)

lemma be_bytes_ucast:
  "8 * n \<le> LENGTH('b) \<Longrightarrow> be_bytes n (ucast (w :: 'a::len word) :: 'b::len word) = be_bytes n w"
proof (induction n)
  case (Suc n)
  have "(ucast (drop_bit (8 * n) (ucast w :: 'b word)) :: byte) = ucast (drop_bit (8 * n) w)"
    by (rule bit_word_eqI) (use Suc.prems in \<open>auto simp: bit_simps\<close>)
  with Suc show ?case by (simp add: be_bytes_Suc)
qed simp

lemma foldl_be_val:
  "foldl (\<lambda>v b. push_bit 8 v OR ucast b) v0 bs
     = push_bit (8 * length bs) v0 OR (be_val bs :: 'a::len word)"
proof (induction bs arbitrary: v0 rule: list.induct)
  case (Cons b bs)
  have "be_val (b # bs) = push_bit (8 * length bs) (ucast b :: 'a word) OR be_val bs"
    by (simp add: be_val_def [of "b # bs"] Cons)
  with Cons [of "push_bit 8 v0 OR ucast b"] show ?case
    by (simp add: push_bit_or or.assoc algebra_simps)
qed (simp add: be_val_def)

lemma be_val_Cons:
  "be_val (b # bs) = (push_bit (8 * length bs) (ucast b) OR be_val bs :: 'a::len word)"
  by (subst be_val_def, subst foldl_Cons, subst foldl_be_val) simp

lemma be_val_snoc: "be_val (bs @ [b]) = (push_bit 8 (be_val bs) OR ucast b :: 'a::len word)"
  by (simp add: be_val_def)

lemma bit_be_val_less: "bit (be_val bs :: 'a::len word) i \<Longrightarrow> i < 8 * length bs"
proof (induction bs arbitrary: i rule: rev_induct)
  case (snoc b bs)
  then have "8 \<le> i \<and> bit (be_val bs :: 'a word) (i - 8) \<or> bit b i"
    by (auto simp: be_val_snoc bit_simps)
  then show ?case
  proof
    assume "8 \<le> i \<and> bit (be_val bs :: 'a word) (i - 8)"
    with snoc.IH [of "i - 8"] show ?thesis by auto
  next
    assume "bit b i"
    then have "i < 8" by (auto dest: bit_imp_le_length)
    then show ?thesis by simp
  qed
qed (simp add: be_val_def)

lemma be_bytes_or_high: "be_bytes n (push_bit (8 * n) v OR w) = be_bytes n (w :: 'a::len word)"
proof -
  have "(ucast (drop_bit (8 * i) (push_bit (8 * n) v OR w)) :: byte) = ucast (drop_bit (8 * i) w)"
    if "i < n" for i
    by (rule bit_word_eqI) (use that in \<open>auto simp: bit_simps\<close>)
  then show ?thesis by (simp add: be_bytes_def)
qed

lemma ucast_drop_bit_Cons:
  assumes "8 * n + 8 \<le> LENGTH('a)" and "\<And>i. bit v i \<Longrightarrow> i < 8 * n"
  shows "ucast (drop_bit (8 * n) (push_bit (8 * n) (ucast b) OR v :: 'a::len word)) = (b :: byte)"
proof (rule bit_word_eqI)
  fix i assume "i < LENGTH(8)"
  then have i: "i < 8" by simp
  have "\<not> bit v (8 * n + i)" using assms(2) [of "8 * n + i"] by auto
  with i assms(1) show
    "bit (ucast (drop_bit (8 * n) (push_bit (8 * n) (ucast b) OR v)) :: byte) i = bit b i"
    by (simp add: bit_simps)
qed

lemma be_bytes_be_val:
  "length bs = n \<Longrightarrow> 8 * n \<le> LENGTH('a) \<Longrightarrow> be_bytes n (be_val bs :: 'a::len word) = bs"
proof (induction bs arbitrary: n rule: list.induct)
  case (Cons b bs)
  then obtain m where n: "n = Suc m" and m: "length bs = m" by auto
  have eq: "be_val (b # bs) = push_bit (8 * m) (ucast b :: 'a word) OR be_val bs"
    by (simp only: be_val_Cons m)
  have "ucast (drop_bit (8 * m) (push_bit (8 * m) (ucast b :: 'a word) OR be_val bs)) = b"
    using Cons.prems n m by (intro ucast_drop_bit_Cons) (auto dest: bit_be_val_less)
  moreover have "be_bytes m (be_val bs :: 'a word) = bs"
    using Cons m n by simp
  ultimately show ?case
    unfolding n eq be_bytes_Suc be_bytes_or_high by (simp only:)
qed simp

section \<open>Interface: a payload that is a sequence of self-delimiting items\<close>

text \<open>
  What a decoder loop over a payload relies on: the item decoder inverts the item encoder on the
  valid items whatever follows, shrinks the buffer and returns valid items only; the loop collects
  items until the buffer is empty and fails as soon as an item does. The payload encoder appends
  the encodings of the items.
\<close>

locale item_sequence =
  fixes enc_all :: "'a list \<Rightarrow> byte list"
    and dec_item :: "byte list \<Rightarrow> ('a \<times> byte list) option"
    and dec_loop :: "'a list \<Rightarrow> byte list \<Rightarrow> 'a list option"
    and ok :: "'a \<Rightarrow> bool"
  assumes enc_Nil: "enc_all [] = []"
    and enc_Cons_nonempty: "enc_all (x # xs) \<noteq> []"
    and dec_enc: "ok x \<Longrightarrow> dec_item (enc_all (x # xs)) = Some (x, enc_all xs)"
    and dec_ok: "dec_item b = Some (x, r) \<Longrightarrow> ok x"
    and dec_shorter: "dec_item b = Some (x, r) \<Longrightarrow> length r < length b"
    and loop_eq: "dec_loop acc b =
      (if b = [] then Some acc
       else (case dec_item b of None \<Rightarrow> None | Some (x, r) \<Rightarrow> dec_loop (acc @ [x]) r))"
begin

lemma loop_Nil: "dec_loop acc [] = Some acc"
  by (subst loop_eq) simp

lemma loop_encode: "list_all ok xs \<Longrightarrow> dec_loop acc (enc_all xs) = Some (acc @ xs)"
proof (induction xs arbitrary: acc)
  case Nil
  show ?case by (simp add: enc_Nil loop_Nil)
next
  case (Cons x xs)
  then show ?case by (subst loop_eq) (simp add: enc_Cons_nonempty dec_enc)
qed

lemma loop_ok:
  "dec_loop acc b = Some xs \<Longrightarrow> list_all ok acc \<Longrightarrow> list_all ok xs"
proof (induction b arbitrary: acc rule: length_induct)
  case (1 b)
  show ?case
  proof (cases "b = [] \<or> dec_item b = None")
    case True
    with 1(2,3) show ?thesis using loop_eq [of acc b] by (auto split: if_splits)
  next
    case False
    then obtain x r where x: "b \<noteq> []" "dec_item b = Some (x, r)" by auto
    with 1(2) have "dec_loop (acc @ [x]) r = Some xs" using loop_eq [of acc b] by simp
    with 1(1,3) dec_shorter [OF x(2)] dec_ok [OF x(2)] show ?thesis by simp
  qed
qed

lemma decode_encode_iff: "(dec_loop [] (enc_all xs) = Some xs) = list_all ok xs"
  using loop_encode [of xs "[]"] loop_ok [of "[]" "enc_all xs" xs] by auto

lemma decode_encode_decode:
  "dec_loop [] b = Some xs \<Longrightarrow> list_all ok xs \<and> dec_loop [] (enc_all xs) = Some xs"
  using loop_ok [of "[]" b xs] by (simp add: decode_encode_iff)

end

section \<open>Computations that list their events\<close>

text \<open>
  For code whose effects only have to be listed in order: the events so far, and the error that ended
  the computation or its value. \<open>after\<close> is the \<open>?\<close> operator followed by the rest of the function.
\<close>

type_synonym ('e, 'a) writer = "'e list \<times> (string + 'a)"

definition return :: "'a \<Rightarrow> ('e, 'a) writer" where
  "return x = ([], Inr x)"

definition fail :: "string \<Rightarrow> ('e, 'a) writer" where
  "fail e = ([], Inl e)"

definition tell :: "'e list \<Rightarrow> ('e, unit) writer" where
  "tell es = (es, Inr ())"

definition after :: "('e, 'a) writer \<Rightarrow> ('a \<Rightarrow> ('e, 'b) writer) \<Rightarrow> ('e, 'b) writer" where
  "after m f = (case snd m of Inl e \<Rightarrow> (fst m, Inl e) | Inr x \<Rightarrow> (fst m @ fst (f x), snd (f x)))"

lemma after_simps [simp]:
  "after (return x) f = f x" "after (fail e) f = fail e"
  by (simp_all add: after_def return_def fail_def)

section \<open>Computations that change a state\<close>

text \<open>
  Code with effects as explicit state passing: a computation returns \<open>Inl\<close> of an error or \<open>Inr\<close> of a
  value together with the state it leaves behind, on every way out. \<open>andthen\<close> is the \<open>?\<close> operator
  followed by the rest of the function.
\<close>

type_synonym ('s, 'a) effect = "'s \<Rightarrow> (string + 'a) \<times> 's"

definition ret :: "'a \<Rightarrow> ('s, 'a) effect" where
  "ret x = (\<lambda>s. (Inr x, s))"

definition bail :: "string \<Rightarrow> ('s, 'a) effect" where
  "bail e = (\<lambda>s. (Inl e, s))"

definition andthen :: "('s, 'a) effect \<Rightarrow> ('a \<Rightarrow> ('s, 'b) effect) \<Rightarrow> ('s, 'b) effect" where
  "andthen m f = (\<lambda>s. case m s of (Inl e, s') \<Rightarrow> (Inl e, s') | (Inr x, s') \<Rightarrow> f x s')"

text \<open>\<open>match result { Ok(x) => .., Err(e) => .. }\<close> on a computation.\<close>

definition try_else :: "('s, 'a) effect \<Rightarrow> ('a \<Rightarrow> ('s, 'b) effect) \<Rightarrow> (string \<Rightarrow> ('s, 'b) effect) \<Rightarrow> ('s, 'b) effect" where
  "try_else m f g = (\<lambda>s. case m s of (Inl e, s') \<Rightarrow> g e s' | (Inr x, s') \<Rightarrow> f x s')"

definition with_context :: "string \<Rightarrow> ('s, 'a) effect \<Rightarrow> ('s, 'a) effect" where
  "with_context msg m = (\<lambda>s. case m s of (Inl e, s') \<Rightarrow> (Inl msg, s') | r \<Rightarrow> r)"

definition lift_result :: "string + 'a \<Rightarrow> ('s, 'a) effect" where
  "lift_result r = (\<lambda>s. (r, s))"

end
