(* ===== verification/NetAddr.thy ===== *)
theory NetAddr
  imports Prelude
begin

text \<open>
  Addresses: \<open>IpAddr\<close>, \<open>SocketAddr\<close> and the proxy's \<open>Host\<close>, the address predicates of the
  standard library that \<open>src/server.rs\<close> calls, and its address filter \<open>is_rfc6890_special\<close>.
  The filter is first written as a list of CIDR blocks (\<open>special_blocks_v4\<close>, \<open>special_blocks_v6\<close>), then
  measured against its specification, the tables of RFC 6890 (\<open>rfc6890_v4\<close>, \<open>rfc6890_v6\<close>).
\<close>

section \<open>Addresses\<close>

datatype ipaddr = V4 u32 | V6 u128

datatype sockaddr = SocketAddr (sa_ip: ipaddr) (sa_port: u16)

datatype host = Ip ipaddr | Name str

text \<open>The derived order of \<open>IpAddr\<close>: every IPv4 address before every IPv6 address.\<close>

instantiation ipaddr :: linorder
begin

fun less_eq_ipaddr :: "ipaddr \<Rightarrow> ipaddr \<Rightarrow> bool" where
  "less_eq_ipaddr (V4 a) (V4 b) = (a \<le> b)"
| "less_eq_ipaddr (V4 a) (V6 b) = True"
| "less_eq_ipaddr (V6 a) (V4 b) = False"
| "less_eq_ipaddr (V6 a) (V6 b) = (a \<le> b)"

definition less_ipaddr :: "ipaddr \<Rightarrow> ipaddr \<Rightarrow> bool" where
  "less_ipaddr a b = (a \<le> b \<and> \<not> b \<le> a)"

instance
proof
  fix x y z :: ipaddr
  show "(x < y) = (x \<le> y \<and> \<not> y \<le> x)" by (rule less_ipaddr_def)
  show "x \<le> x" by (cases x) auto
  show "x \<le> y \<Longrightarrow> y \<le> z \<Longrightarrow> x \<le> z" by (cases x; cases y; cases z) auto
  show "x \<le> y \<Longrightarrow> y \<le> x \<Longrightarrow> x = y" by (cases x; cases y) auto
  show "x \<le> y \<or> y \<le> x" by (cases x; cases y) auto
qed

end

lemma less_ipaddr_simps [simp]:
  "(V4 a < V4 b) = (a < b)"
  "V4 a < V6 c"
  "\<not> V6 c < V4 a"
  "(V6 c < V6 d) = (c < d)"
  by (auto simp: less_ipaddr_def)

definition octets4 :: "u32 \<Rightarrow> byte list" where
  "octets4 a = be_bytes 4 a"

definition octets6 :: "u128 \<Rightarrow> byte list" where
  "octets6 a = be_bytes 16 a"

definition segment6 :: "nat \<Rightarrow> u128 \<Rightarrow> u16" where
  "segment6 i a = ucast (drop_bit (112 - 16 * i) a)"

fun octets :: "ipaddr \<Rightarrow> byte list" where
  "octets (V4 a) = octets4 a"
| "octets (V6 a) = octets6 a"

fun is_ipv4 :: "ipaddr \<Rightarrow> bool" where
  "is_ipv4 (V4 a) = True"
| "is_ipv4 (V6 a) = False"

abbreviation unspecified_v4 :: sockaddr where
  "unspecified_v4 \<equiv> SocketAddr (V4 0) 0"

abbreviation unspecified_v6 :: sockaddr where
  "unspecified_v6 \<equiv> SocketAddr (V6 0) 0"

section \<open>Predicates of the standard library\<close>

definition is_loopback_v4 :: "u32 \<Rightarrow> bool" where
  "is_loopback_v4 a = (octets4 a ! 0 = 127)"

definition is_private_v4 :: "u32 \<Rightarrow> bool" where
  "is_private_v4 a =
     (let x = octets4 a ! 0; y = octets4 a ! 1 in
      x = 10 \<or> (x = 172 \<and> 16 \<le> y \<and> y \<le> 31) \<or> (x = 192 \<and> y = 168))"

definition is_link_local_v4 :: "u32 \<Rightarrow> bool" where
  "is_link_local_v4 a = (octets4 a ! 0 = 169 \<and> octets4 a ! 1 = 254)"

definition is_multicast_v4 :: "u32 \<Rightarrow> bool" where
  "is_multicast_v4 a = (224 \<le> octets4 a ! 0 \<and> octets4 a ! 0 \<le> 239)"

definition is_documentation_v4 :: "u32 \<Rightarrow> bool" where
  "is_documentation_v4 a =
     (let x = octets4 a ! 0; y = octets4 a ! 1; z = octets4 a ! 2 in
      (x = 192 \<and> y = 0 \<and> z = 2) \<or> (x = 198 \<and> y = 51 \<and> z = 100) \<or> (x = 203 \<and> y = 0 \<and> z = 113))"

definition is_unique_local_v6 :: "u128 \<Rightarrow> bool" where
  "is_unique_local_v6 a = (segment6 0 a AND 0xfe00 = 0xfc00)"

definition is_unicast_link_local_v6 :: "u128 \<Rightarrow> bool" where
  "is_unicast_link_local_v6 a = (segment6 0 a AND 0xffc0 = 0xfe80)"

definition is_multicast_v6 :: "u128 \<Rightarrow> bool" where
  "is_multicast_v6 a = (octets6 a ! 0 = 0xff)"

section \<open>The address filter of \<open>src/server.rs\<close>\<close>

definition is_rfc6890_special_v4 :: "u32 \<Rightarrow> bool" where
  "is_rfc6890_special_v4 ip =
     (let o4 = octets4 ip in
      if o4 ! 0 = 0 then True
      else if o4 ! 0 = 192 \<and> o4 ! 1 = 0 \<and> o4 ! 2 = 0 then True
      else if o4 ! 0 = 100 \<and> 64 \<le> o4 ! 1 \<and> o4 ! 1 \<le> 127 then True
      else ip = 0
         \<or> is_loopback_v4 ip
         \<or> is_private_v4 ip
         \<or> is_link_local_v4 ip
         \<or> is_multicast_v4 ip
         \<or> is_documentation_v4 ip
         \<or> (o4 ! 0 = 198 \<and> 18 \<le> o4 ! 1 \<and> o4 ! 1 \<le> 19)
         \<or> 240 \<le> o4 ! 0)"

definition is_rfc6890_special_v6 :: "u128 \<Rightarrow> bool" where
  "is_rfc6890_special_v6 ip =
     (ip = 0
      \<or> ip = 1
      \<or> is_unique_local_v6 ip
      \<or> is_unicast_link_local_v6 ip
      \<or> is_multicast_v6 ip
      \<or> (segment6 0 ip = 0x2001 \<and> segment6 1 ip = 0x0db8))"

fun is_rfc6890_special :: "ipaddr \<Rightarrow> bool" where
  "is_rfc6890_special (V4 ipv4) = is_rfc6890_special_v4 ipv4"
| "is_rfc6890_special (V6 ipv6) = is_rfc6890_special_v6 ipv6"

section \<open>The filter as CIDR blocks\<close>

definition in_cidr :: "'a::len word \<Rightarrow> 'a word \<times> nat \<Rightarrow> bool" where
  "in_cidr a c = (case c of (net, len) \<Rightarrow>
     drop_bit (LENGTH('a) - len) a = drop_bit (LENGTH('a) - len) net)"

definition v4 :: "byte \<Rightarrow> byte \<Rightarrow> byte \<Rightarrow> byte \<Rightarrow> u32" where
  "v4 a b c d = be_val [a, b, c, d]"

text \<open>The blocks that the code tests for, one per disjunct of its conditions.\<close>

definition special_blocks_v4 :: "(u32 \<times> nat) list" where
  "special_blocks_v4 =
    [(v4 0 0 0 0, 8), (v4 10 0 0 0, 8), (v4 100 64 0 0, 10), (v4 127 0 0 0, 8),
     (v4 169 254 0 0, 16), (v4 172 16 0 0, 12), (v4 192 0 0 0, 24), (v4 192 0 2 0, 24),
     (v4 192 168 0 0, 16), (v4 198 18 0 0, 15), (v4 198 51 100 0, 24), (v4 203 0 113 0, 24),
     (v4 224 0 0 0, 4), (v4 240 0 0 0, 4)]"

definition special_blocks_v6 :: "(u128 \<times> nat) list" where
  "special_blocks_v6 =
    [(0, 128), (1, 128), (push_bit 112 0xfc00, 7), (push_bit 112 0xfe80, 10),
     (push_bit 112 0xff00, 8), (push_bit 96 0x20010db8, 32)]"

definition v4_mapped :: "u32 \<Rightarrow> u128" where
  "v4_mapped a = push_bit 32 (mask 16) OR ucast a"

section \<open>The filter agrees with its specification\<close>

lemma unat_drop_bit: "unat (drop_bit n (w :: 'a::len word)) = unat w div 2 ^ n"
  by (simp only: unat_drop_bit_eq drop_bit_eq_div [of n "unat w"])

lemma drop_bit_eq_iff_div:
  "(drop_bit n (w :: 'a::len word) = v) = (unat w div 2 ^ n = unat v)"
  by (metis unat_drop_bit word_unat_eq_iff)

lemma unat_octet:
  "unat (ucast (drop_bit n (w :: 'a::len word)) :: byte) = unat w div 2 ^ n mod 256"
  by (simp add: unat_drop_bit unsigned_ucast_eq take_bit_eq_mod)

lemma octets4_nth:
  "octets4 a ! 0 = ucast (drop_bit 24 a)"
  "octets4 a ! Suc 0 = ucast (drop_bit 16 a)"
  "octets4 a ! 2 = ucast (drop_bit 8 a)"
  "octets4 a ! 3 = ucast a"
  by (simp_all add: octets4_def be_bytes_def upt_rec numeral_2_eq_2 numeral_3_eq_3)

lemma octet_eq_iff:
  "((ucast (drop_bit n (w :: 'a::len word)) :: byte) = v) = (unat w div 2 ^ n mod 256 = unat v)"
  by (metis unat_octet word_unat_eq_iff)

lemma octet_le_iff:
  "((ucast (drop_bit n (w :: 'a::len word)) :: byte) \<le> v) = (unat w div 2 ^ n mod 256 \<le> unat v)"
  "(v \<le> (ucast (drop_bit n (w :: 'a::len word)) :: byte)) = (unat v \<le> unat w div 2 ^ n mod 256)"
  by (simp_all add: unat_octet word_le_nat_alt)

lemma base256:
  fixes x :: nat
  assumes "x = 256 * a + s" "a = 256 * b + r" "b = 256 * c + q"
  shows "x = 16777216 * c + 65536 * q + 256 * r + s"
  using assms by simp

lemma dotted_quad:
  obtains p q r s :: nat where "unat (a :: u32) = 16777216 * p + 65536 * q + 256 * r + s"
    and "p < 256" and "q < 256" and "r < 256" and "s < 256"
    and "unat a div 16777216 mod 256 = p" and "unat a div 65536 mod 256 = q"
    and "unat a div 256 mod 256 = r"
proof
  have a: "unat a < 4294967296" using unsigned_less [of a, where ?'a = nat] by simp
  show "unat a = 16777216 * (unat a div 16777216) + 65536 * (unat a div 65536 mod 256)
          + 256 * (unat a div 256 mod 256) + unat a mod 256" (is "?x = _")
  proof (rule base256)
    show "?x = 256 * (?x div 256) + ?x mod 256" by simp
    show "?x div 256 = 256 * (?x div 65536) + ?x div 256 mod 256"
      using div_mult_mod_eq [of "?x div 256" 256] by (simp flip: div_mult2_eq)
    show "?x div 65536 = 256 * (?x div 16777216) + ?x div 65536 mod 256"
      using div_mult_mod_eq [of "?x div 65536" 256] by (simp flip: div_mult2_eq)
  qed
  show "unat a div 16777216 < 256" using a by simp
  then show "unat a div 16777216 mod 256 = unat a div 16777216" by simp
qed simp_all

lemma block_div:
  fixes x p q r s :: nat
  assumes "x = 16777216 * p + 65536 * q + 256 * r + s" "p < 256" "q < 256" "r < 256" "s < 256"
  shows "x div 16777216 = p" "x div 65536 = 256 * p + q" "x div 256 = 65536 * p + 256 * q + r"
    "x div 4194304 = 4 * p + q div 64" "x div 1048576 = 16 * p + q div 16" "x div 131072 = 128 * p + q div 2"
    "x div 268435456 = p div 16"
  using assms by simp_all

lemma radix_eq:
  fixes p q n P Q :: nat
  assumes "q < n" "Q < n"
  shows "(n * p + q = n * P + Q) = (p = P \<and> q = Q)"
proof
  assume eq: "n * p + q = n * P + Q"
  then have "(n * p + q) div n = (n * P + Q) div n" "(n * p + q) mod n = (n * P + Q) mod n"
    by simp_all
  with assms show "p = P \<and> q = Q" by simp
qed simp

lemma special_shape:
  "(Z \<Longrightarrow> A1) \<Longrightarrow> (A1 \<or> A2 \<or> A3 \<or> A4 \<or> A5 \<or> A6 \<or> A7 \<or> A8 \<or> A9 \<or> B1 \<or> B2 \<or> B3 \<or> B4 \<or> B5) =
     (if A1 then True else if A7 then True else if A3 then True else Z \<or> A4 \<or> (A2 \<or> A6 \<or> A9) \<or> A5
       \<or> B4 \<or> (A8 \<or> B2 \<or> B3) \<or> B1 \<or> B5)"
  by auto

lemma in_special_blocks_v4: "(\<exists>c\<in>set special_blocks_v4. in_cidr a c) = is_rfc6890_special_v4 a"
proof -
  obtain p q r s where x: "unat a = 16777216 * p + 65536 * q + 256 * r + s"
    and b: "p < 256" "q < 256" "r < 256" "s < 256"
    and m: "unat a div 16777216 mod 256 = p" "unat a div 65536 mod 256 = q" "unat a div 256 mod 256 = r"
    by (rule dotted_quad)
  note d = block_div [OF x b]
  have e: "(4 * p + q div 64 = 401) = (p = 100 \<and> q div 64 = 1)"
    "(256 * p + q = 43518) = (p = 169 \<and> q = 254)"
    "(16 * p + q div 16 = 2753) = (p = 172 \<and> q div 16 = 1)"
    "(65536 * p + 256 * q + r = 12582912) = (p = 192 \<and> q = 0 \<and> r = 0)"
    "(65536 * p + 256 * q + r = 12582914) = (p = 192 \<and> q = 0 \<and> r = 2)"
    "(256 * p + q = 49320) = (p = 192 \<and> q = 168)"
    "(128 * p + q div 2 = 25353) = (p = 198 \<and> q div 2 = 9)"
    "(65536 * p + 256 * q + r = 12989284) = (p = 198 \<and> q = 51 \<and> r = 100)"
    "(65536 * p + 256 * q + r = 13303921) = (p = 203 \<and> q = 0 \<and> r = 113)"
    using b radix_eq [of "q div 64" 4 1 p 100] radix_eq [of q 256 254 p 169]
      radix_eq [of "q div 16" 16 1 p 172] radix_eq [of r 256 0 "256 * p + q" 49152]
      radix_eq [of r 256 2 "256 * p + q" 49152] radix_eq [of q 256 0 p 192]
      radix_eq [of q 256 168 p 192] radix_eq [of "q div 2" 128 9 p 198]
      radix_eq [of r 256 100 "256 * p + q" 50739] radix_eq [of q 256 51 p 198]
      radix_eq [of r 256 113 "256 * p + q" 51968] radix_eq [of q 256 0 p 203]
    by (simp_all add: algebra_simps)
  have l: "(\<exists>c\<in>set special_blocks_v4. in_cidr a c) = (p = 0 \<or> p = 10 \<or> (p = 100 \<and> q div 64 = 1) \<or> p = 127
     \<or> (p = 169 \<and> q = 254) \<or> (p = 172 \<and> q div 16 = 1) \<or> (p = 192 \<and> q = 0 \<and> r = 0) \<or> (p = 192 \<and> q = 0 \<and> r = 2)
     \<or> (p = 192 \<and> q = 168) \<or> (p = 198 \<and> q div 2 = 9) \<or> (p = 198 \<and> q = 51 \<and> r = 100) \<or> (p = 203 \<and> q = 0 \<and> r = 113)
     \<or> p div 16 = 14 \<or> p div 16 = 15)"
    by (simp add: special_blocks_v4_def in_cidr_def v4_def be_val_def drop_bit_eq_iff_div d e)
  have z: "a = 0 \<Longrightarrow> p = 0" using m by auto
  have r: "is_rfc6890_special_v4 a = (if p = 0 then True else if p = 192 \<and> q = 0 \<and> r = 0 then True
     else if p = 100 \<and> 64 \<le> q \<and> q \<le> 127 then True else a = 0 \<or> p = 127
     \<or> (p = 10 \<or> p = 172 \<and> 16 \<le> q \<and> q \<le> 31 \<or> p = 192 \<and> q = 168) \<or> p = 169 \<and> q = 254
     \<or> (224 \<le> p \<and> p \<le> 239) \<or> (p = 192 \<and> q = 0 \<and> r = 2 \<or> p = 198 \<and> q = 51 \<and> r = 100
       \<or> p = 203 \<and> q = 0 \<and> r = 113) \<or> (p = 198 \<and> 18 \<le> q \<and> q \<le> 19) \<or> 240 \<le> p)"
    by (simp add: is_rfc6890_special_v4_def octets4_nth octet_eq_iff octet_le_iff is_loopback_v4_def
        is_private_v4_def is_link_local_v4_def is_multicast_v4_def is_documentation_v4_def m)
  have "(q div 64 = 1) = (64 \<le> q \<and> q \<le> 127)" "(q div 16 = 1) = (16 \<le> q \<and> q \<le> 31)"
    "(q div 2 = 9) = (18 \<le> q \<and> q \<le> 19)" "(p div 16 = 14) = (224 \<le> p \<and> p \<le> 239)"
    "(p div 16 = 15) = (240 \<le> p)" using b by arith+
  then show ?thesis unfolding l r by (simp only:) (rule special_shape [OF z])
qed

lemma push_bit_drop_bit: "push_bit k (drop_bit k s) = s AND NOT (mask k :: 'a::len word)"
  by (rule bit_word_eqI) (auto simp: bit_simps)

lemma drop_bit_and_not_mask: "drop_bit k (s AND NOT (mask k)) = drop_bit k (s :: 'a::len word)"
  by (rule bit_word_eqI) (auto simp: bit_simps dest: bit_imp_le_length)

lemma drop_bit_eq_iff_and:
  "(drop_bit k s = drop_bit k t) = (s AND NOT (mask k) = t AND NOT (mask k :: 'a::len word))"
  by (metis push_bit_drop_bit drop_bit_and_not_mask)

lemma div_mod_eq_iff: "(n = k) = (n div m = k div m \<and> n mod m = k mod m)" for n m k :: nat
  by (metis div_mult_mod_eq)

lemma unat_segment6:
  "unat (segment6 0 a) = unat a div 2 ^ 112"
  "unat (segment6 1 a) = unat a div 2 ^ 96 mod 65536"
proof -
  have "unat a < 2 ^ 128" using unsigned_less [of a, where ?'a = nat] by simp
  then have "unat a div 2 ^ 112 < 65536" by simp
  then show "unat (segment6 0 a) = unat a div 2 ^ 112"
    by (simp add: segment6_def unsigned_ucast_eq take_bit_eq_mod unat_drop_bit)
  show "unat (segment6 1 a) = unat a div 2 ^ 96 mod 65536"
    by (simp add: segment6_def unsigned_ucast_eq take_bit_eq_mod unat_drop_bit)
qed

lemma in_special_blocks_v6: "(\<exists>c\<in>set special_blocks_v6. in_cidr a c) = is_rfc6890_special_v6 a"
proof -
  have a: "unat a < 2 ^ 128" using unsigned_less [of a, where ?'a = nat] by simp
  have m: "0xfe00 = NOT (mask 9 :: u16)" "0xffc0 = NOT (mask 6 :: u16)" by (simp_all add: mask_eq_exp_minus_1)
  have d: "unat a div 2 ^ (112 + k) = unat a div 2 ^ 112 div 2 ^ k" for k
    by (simp add: power_add div_mult2_eq)
  have ul: "(drop_bit 121 a = 126) = is_unique_local_v6 a"
    using drop_bit_eq_iff_and [of 9 "segment6 0 a" "0xfc00"] d [of 9]
    by (simp add: is_unique_local_v6_def drop_bit_eq_iff_div unat_segment6 flip: m)
  have ll: "(drop_bit 118 a = 1018) = is_unicast_link_local_v6 a"
    using drop_bit_eq_iff_and [of 6 "segment6 0 a" "0xfe80"] d [of 6]
    by (simp add: is_unicast_link_local_v6_def drop_bit_eq_iff_div unat_segment6 flip: m)
  have mc: "(drop_bit 120 a = 255) = is_multicast_v6 a"
    using a by (simp add: is_multicast_v6_def octets6_def be_bytes_def upt_rec octet_eq_iff drop_bit_eq_iff_div)
  have "unat a div 2 ^ 112 = unat a div 2 ^ 96 div 65536" by (simp flip: div_mult2_eq)
  then have doc: "(drop_bit 96 a = 0x20010db8) = (segment6 0 a = 0x2001 \<and> segment6 1 a = 0x0db8)"
    using div_mod_eq_iff [of "unat a div 2 ^ 96" "0x20010db8" 65536] unat_segment6(2) [of a]
    by (simp add: word_unat_eq_iff unat_segment6(1) unat_drop_bit)
  show ?thesis
    by (simp add: special_blocks_v6_def in_cidr_def is_rfc6890_special_v6_def ul ll mc doc)
qed

subsection \<open>The registry of RFC 6890\<close>

text \<open>The tables of the RFC (section 2.2), in their order. Some blocks lie inside others.\<close>

definition rfc6890_v4 :: "(u32 \<times> nat) list" where
  "rfc6890_v4 =
    [(v4 0 0 0 0, 8), (v4 10 0 0 0, 8), (v4 100 64 0 0, 10), (v4 127 0 0 0, 8), (v4 169 254 0 0, 16),
     (v4 172 16 0 0, 12), (v4 192 0 0 0, 24), (v4 192 0 0 0, 29), (v4 192 0 2 0, 24), (v4 192 88 99 0, 24),
     (v4 192 168 0 0, 16), (v4 198 18 0 0, 15), (v4 198 51 100 0, 24), (v4 203 0 113 0, 24),
     (v4 240 0 0 0, 4), (v4 255 255 255 255, 32)]"

definition rfc6890_v6 :: "(u128 \<times> nat) list" where
  "rfc6890_v6 =
    [(1, 128), (0, 128), (push_bit 96 0x0064ff9b, 96), (push_bit 32 0xffff, 96), (push_bit 112 0x0100, 64),
     (push_bit 112 0x2001, 23), (push_bit 112 0x2001, 32), (push_bit 96 0x20010002, 48),
     (push_bit 96 0x20010db8, 32), (push_bit 96 0x20010010, 28), (push_bit 112 0x2002, 16),
     (push_bit 112 0xfc00, 7), (push_bit 112 0xfe80, 10)]"

text \<open>What the code leaves out of them: 6to4 relay anycast, and for IPv6 the address families that embed
  IPv4 addresses (\<open>64:ff9b::/96\<close>, \<open>::ffff:0:0/96\<close>, \<open>2002::/16\<close>), the discard block \<open>100::/64\<close>, and the
  IETF protocol assignments \<open>2001::/23\<close>.\<close>

definition not_covered_v4 :: "(u32 \<times> nat) list" where
  "not_covered_v4 = [(v4 192 88 99 0, 24)]"

definition not_covered_v6 :: "(u128 \<times> nat) list" where
  "not_covered_v6 =
    [(push_bit 96 0x0064ff9b, 96), (push_bit 32 0xffff, 96), (push_bit 112 0x0100, 64), (push_bit 112 0x2001, 23),
     (push_bit 112 0x2002, 16)]"

text \<open>What it adds: multicast.\<close>

definition multicast_v4 :: "u32 \<times> nat" where
  "multicast_v4 = (v4 224 0 0 0, 4)"

definition multicast_v6 :: "u128 \<times> nat" where
  "multicast_v6 = (push_bit 112 0xff00, 8)"

definition in_some :: "'a::len word \<Rightarrow> ('a word \<times> nat) list \<Rightarrow> bool" where
  "in_some a cs = list_ex (in_cidr a) cs"

text \<open>An address in two blocks: the shorter prefix decides.\<close>

lemma in_cidr_both:
  assumes "in_cidr a (n, l)" and "m \<le> l" and "l \<le> LENGTH('a)"
  shows "in_cidr (a :: 'a::len word) (n', m) = (drop_bit (LENGTH('a) - m) n = drop_bit (LENGTH('a) - m) n')"
proof -
  have "LENGTH('a) - m = (l - m) + (LENGTH('a) - l)" using assms(2,3) by simp
  then have "drop_bit (LENGTH('a) - m) a = drop_bit (LENGTH('a) - m) n"
    using assms(1) by (simp add: in_cidr_def flip: drop_bit_drop_bit)
  then show ?thesis by (simp add: in_cidr_def)
qed

lemma rfc6890_v4_covered:
  "is_rfc6890_special_v4 a = (in_cidr a multicast_v4 \<or> in_some a rfc6890_v4 \<and> \<not> in_some a not_covered_v4)"
proof (cases "in_cidr a (v4 192 88 99 0, 24)")
  case True
  note d = in_cidr_both [OF True]
  show ?thesis unfolding in_special_blocks_v4 [symmetric]
    by (simp add: special_blocks_v4_def multicast_v4_def in_some_def not_covered_v4_def True d v4_def be_val_def)
next
  case False
  have "in_cidr a (v4 192 0 0 0, 29) \<Longrightarrow> in_cidr a (v4 192 0 0 0, 24)"
    "in_cidr a (v4 255 255 255 255, 32) \<Longrightarrow> in_cidr a (v4 240 0 0 0, 4)"
    by (simp_all add: in_cidr_both v4_def be_val_def)
  with False show ?thesis unfolding in_special_blocks_v4 [symmetric]
    by (auto simp: special_blocks_v4_def multicast_v4_def in_some_def rfc6890_v4_def not_covered_v4_def)
qed

definition apart :: "'a::len word \<times> nat \<Rightarrow> 'a word \<times> nat \<Rightarrow> bool" where
  "apart c d \<longleftrightarrow> snd c \<le> LENGTH('a) \<and> snd d \<le> LENGTH('a)
     \<and> drop_bit (LENGTH('a) - min (snd c) (snd d)) (fst c) \<noteq> drop_bit (LENGTH('a) - min (snd c) (snd d)) (fst d)"

lemma apart_disjoint: "apart c d \<Longrightarrow> in_cidr a c \<Longrightarrow> \<not> in_cidr (a :: 'a::len word) d"
  using in_cidr_both [of a "fst c" "snd c" "snd d" "fst d"] in_cidr_both [of a "fst d" "snd d" "snd c" "fst c"]
  by (auto simp: apart_def min_def split: if_splits)

lemma not_covered_v6_disjoint:
  assumes "in_some a not_covered_v6"
  shows "\<not> (\<exists>d\<in>set special_blocks_v6. in_cidr a d)"
proof -
  have "list_all (\<lambda>c. list_all (apart c) special_blocks_v6) not_covered_v6" by code_simp
  with assms show ?thesis by (fastforce simp: in_some_def list_ex_iff list_all_iff dest: apart_disjoint)
qed

lemma rfc6890_v6_covered:
  "is_rfc6890_special_v6 a = (in_cidr a multicast_v6 \<or> in_some a rfc6890_v6 \<and> \<not> in_some a not_covered_v6)"
proof (cases "in_some a not_covered_v6")
  case True
  then show ?thesis using not_covered_v6_disjoint [OF True] unfolding in_special_blocks_v6 [symmetric]
    by (simp add: special_blocks_v6_def multicast_v6_def)
next
  case False
  have "in_cidr a (push_bit 112 0x2001, 32) \<Longrightarrow> in_cidr a (push_bit 112 0x2001, 23)"
    "in_cidr a (push_bit 96 0x20010002, 48) \<Longrightarrow> in_cidr a (push_bit 112 0x2001, 23)"
    "in_cidr a (push_bit 96 0x20010010, 28) \<Longrightarrow> in_cidr a (push_bit 112 0x2001, 23)"
    by (simp_all add: in_cidr_both)
  with False show ?thesis unfolding in_special_blocks_v6 [symmetric]
    by (auto simp: special_blocks_v6_def multicast_v6_def in_some_def rfc6890_v6_def not_covered_v6_def)
qed

text \<open>(C35) The address filter measured against the registry that its comment names: it blocks exactly the
  addresses of the tables of RFC 6890 except those of 192.88.99.0/24, 64:ff9b::/96, ::ffff:0:0/96,
  100::/64, 2001::/23 (the Teredo, benchmarking and ORCHID blocks inside it included) and 2002::/16,
  and besides all multicast addresses.\<close>

theorem special_filter_rfc6890:
  "is_rfc6890_special ip =
     (case ip of
        V4 a \<Rightarrow> in_cidr a multicast_v4 \<or> in_some a rfc6890_v4 \<and> \<not> in_some a not_covered_v4
      | V6 a \<Rightarrow> in_cidr a multicast_v6 \<or> in_some a rfc6890_v6 \<and> \<not> in_some a not_covered_v6)"
  by (cases ip) (simp_all add: rfc6890_v4_covered rfc6890_v6_covered)

section \<open>A family the filter does not cover\<close>

lemma v4_mapped_bit: "bit (v4_mapped a) i = ((32 \<le> i \<and> i < 48) \<or> bit a i)"
  by (auto simp: v4_mapped_def bit_simps dest: bit_imp_le_length)

text \<open>No IPv4-mapped IPv6 address is special-purpose for the filter, whatever IPv4 address it
  embeds, although the embedded address may be.\<close>

theorem v4_mapped_not_special: "\<not> is_rfc6890_special (V6 (v4_mapped a))"
proof -
  have "bit (v4_mapped a) 32" by (simp add: v4_mapped_bit)
  then have "v4_mapped a \<noteq> 0" "v4_mapped a \<noteq> 1" by (auto simp: bit_simps)
  moreover have s0: "segment6 0 (v4_mapped a) = 0" "segment6 (Suc 0) (v4_mapped a) = 0"
    by (rule bit_word_eqI; auto simp: segment6_def bit_simps v4_mapped_bit dest: bit_imp_le_length)+
  moreover have "octets6 (v4_mapped a) ! 0 = 0"
    by (simp add: octets6_def be_bytes_def upt_rec, rule bit_word_eqI)
       (auto simp: bit_simps v4_mapped_bit dest: bit_imp_le_length)
  ultimately show ?thesis
    by (simp add: is_rfc6890_special_v6_def is_unique_local_v6_def is_unicast_link_local_v6_def
        is_multicast_v6_def)
qed

section \<open>Conversions between addresses and octets\<close>

lemma length_octets4 [simp]: "length (octets4 a) = 4"
  by (simp add: octets4_def)

lemma length_octets6 [simp]: "length (octets6 a) = 16"
  by (simp add: octets6_def)

lemma be_val_octets4 [simp]: "be_val (octets4 a) = a"
  by (simp add: octets4_def be_val_be_bytes_full)

lemma be_val_octets6 [simp]: "be_val (octets6 a) = a"
  by (simp add: octets6_def be_val_be_bytes_full)

end
