(* ===== verification/Capsule.thy ===== *)
theory Capsule
  imports NetAddr
begin

text \<open>
  \<open>src/capsule.rs\<close>: QUIC variable-length integers (RFC 9000), the RFC 9297 capsule framing of the
  request stream, the Context ID of HTTP datagrams, and the fixed-layout payloads of
  ADDRESS_ASSIGN / ADDRESS_REQUEST and ROUTE_ADVERTISEMENT (RFC 9484). Every decoder works on a
  cursor: it returns the decoded value and the bytes that are left. \<open>usize\<close> is 64 bits wide, so the
  cast of a decoded length to \<open>usize\<close> keeps its value.
\<close>

section \<open>Constants and structures\<close>

definition CAPSULE_ADDRESS_ASSIGN :: u64 where "CAPSULE_ADDRESS_ASSIGN = 0x01"
definition CAPSULE_ADDRESS_REQUEST :: u64 where "CAPSULE_ADDRESS_REQUEST = 0x02"
definition CAPSULE_ROUTE_ADVERTISEMENT :: u64 where "CAPSULE_ROUTE_ADVERTISEMENT = 0x03"

lemmas capsule_type_defs =
  CAPSULE_ADDRESS_ASSIGN_def CAPSULE_ADDRESS_REQUEST_def CAPSULE_ROUTE_ADVERTISEMENT_def

record assigned_address =
  request_id :: u64
  address :: ipaddr
  prefix_len :: byte

record ip_range =
  range_start :: ipaddr
  range_end :: ipaddr
  ip_protocol :: byte

section \<open>Variable-length integers\<close>

definition put_varint :: "byte list \<Rightarrow> u64 \<Rightarrow> byte list" where
  "put_varint buf value =
     (if value \<le> 0x3f then buf @ [ucast value]
      else if value \<le> 0x3fff then buf @ be_bytes 2 (ucast (value OR 0x4000) :: u16)
      else if value \<le> 0x3fffffff then buf @ be_bytes 4 (ucast (value OR 0x80000000) :: u32)
      else buf @ be_bytes 8 (value OR 0xc000000000000000))"

fun varint_acc :: "nat \<Rightarrow> byte list \<Rightarrow> u64 \<Rightarrow> u64 option" where
  "varint_acc 0 bs value = Some value"
| "varint_acc (Suc n) [] value = None"
| "varint_acc (Suc n) (b # bs) value = varint_acc n bs (push_bit 8 value OR ucast b)"

definition get_varint :: "byte list \<Rightarrow> (u64 \<times> byte list) option" where
  "get_varint buf = (case uncons buf of
     None \<Rightarrow> None
   | Some (first, rest) \<Rightarrow>
       let len = push_bit (unat (drop_bit 6 first)) 1 in
       if length buf < len then None
       else (case varint_acc (len - 1) rest (ucast (first AND 0x3f)) of
               None \<Rightarrow> None
             | Some value \<Rightarrow> Some (value, drop len buf)))"

section \<open>Capsule framing and the Context ID\<close>

definition encode_capsule :: "u64 \<Rightarrow> byte list \<Rightarrow> byte list" where
  "encode_capsule typ value =
     (let buf = put_varint [] typ;
          buf = put_varint buf (of_nat (length value))
      in buf @ value)"

definition split_capsule :: "byte list \<Rightarrow> (u64 \<times> byte list \<times> nat) option" where
  "split_capsule bytes =
     (case get_varint bytes of
        None \<Rightarrow> None
      | Some (typ, buf) \<Rightarrow>
          (case get_varint buf of
             None \<Rightarrow> None
           | Some (l, buf) \<Rightarrow>
               let len = unat l in
               if length buf < len then None
               else Some (typ, take len buf, length bytes - length buf + len)))"

definition decode_capsule :: "byte list \<Rightarrow> (u64 \<times> byte list) option" where
  "decode_capsule bytes =
     (case split_capsule bytes of None \<Rightarrow> None | Some (typ, value, _) \<Rightarrow> Some (typ, value))"

definition strip_context_id :: "byte list \<Rightarrow> byte list option" where
  "strip_context_id dgram =
     (case get_varint dgram of
        None \<Rightarrow> None
      | Some (cid, buf) \<Rightarrow> if cid = 0 then Some buf else None)"

section \<open>Address payloads\<close>

fun encode_address_value :: "assigned_address list \<Rightarrow> byte list" where
  "encode_address_value [] = []"
| "encode_address_value (e # entries) =
     put_varint [] (request_id e)
     @ (case address e of V4 a \<Rightarrow> 4 # octets4 a | V6 a \<Rightarrow> 6 # octets6 a)
     @ [prefix_len e]
     @ encode_address_value entries"

definition decode_address_entry :: "byte list \<Rightarrow> (assigned_address \<times> byte list) option" where
  "decode_address_entry buf =
     (case get_varint buf of None \<Rightarrow> None | Some (rid, buf) \<Rightarrow>
     (case uncons buf of None \<Rightarrow> None | Some (version, buf) \<Rightarrow>
     (case (if version = 4 then
              (if length buf < 4 then None
               else Some (V4 (be_val (take 4 buf)), drop 4 buf, 32))
            else if version = 6 then
              (if length buf < 16 then None
               else Some (V6 (be_val (take 16 buf)), drop 16 buf, 128))
            else None)
      of None \<Rightarrow> None | Some (addr, buf, max_prefix) \<Rightarrow>
     (case uncons buf of None \<Rightarrow> None | Some (plen, buf) \<Rightarrow>
        if plen > max_prefix then None
        else Some (\<lparr>request_id = rid, address = addr, prefix_len = plen\<rparr>, buf)))))"

lemma get_varint_shorter: "get_varint buf = Some (v, r) \<Longrightarrow> length r < length buf"
  by (cases buf) (auto simp: get_varint_def Let_def push_bit_eq_mult split: if_splits option.splits)

lemma drop_eq_Cons_shorter: "drop n xs = y # ys \<Longrightarrow> length ys < length xs"
  using length_drop [of n xs] by simp

lemma decode_address_entry_shorter:
  "decode_address_entry buf = Some (e, r) \<Longrightarrow> length r < length buf"
  by (auto simp: decode_address_entry_def uncons_def dest!: get_varint_shorter drop_eq_Cons_shorter
      split: option.splits if_splits list.splits)

function decode_address_loop ::
    "assigned_address list \<Rightarrow> byte list \<Rightarrow> assigned_address list option" where
  "decode_address_loop entries buf =
     (if buf = [] then Some entries
      else (case decode_address_entry buf of
              None \<Rightarrow> None
            | Some (e, buf') \<Rightarrow> decode_address_loop (entries @ [e]) buf'))"
  by pat_completeness auto
termination
  by (relation "measure (\<lambda>(_, buf). length buf)") (auto dest: decode_address_entry_shorter)

declare decode_address_loop.simps [simp del]

definition decode_address_value :: "byte list \<Rightarrow> assigned_address list option" where
  "decode_address_value value = decode_address_loop [] value"

definition encode_address_assign :: "assigned_address list \<Rightarrow> byte list" where
  "encode_address_assign entries =
     encode_capsule CAPSULE_ADDRESS_ASSIGN (encode_address_value entries)"

definition encode_address_request :: "assigned_address list \<Rightarrow> byte list" where
  "encode_address_request entries =
     encode_capsule CAPSULE_ADDRESS_REQUEST (encode_address_value entries)"

definition decode_address_assign :: "byte list \<Rightarrow> assigned_address list option" where
  "decode_address_assign capsule =
     (case decode_capsule capsule of
        Some (t, v) \<Rightarrow> if t = CAPSULE_ADDRESS_ASSIGN then decode_address_value v else None
      | None \<Rightarrow> None)"

section \<open>Route payloads\<close>

fun encode_route_value :: "ip_range list \<Rightarrow> byte list" where
  "encode_route_value [] = []"
| "encode_route_value (r # ranges) =
     (case range_start r of V4 a \<Rightarrow> 4 # octets4 a | V6 a \<Rightarrow> 6 # octets6 a)
     @ octets (range_end r)
     @ [ip_protocol r]
     @ encode_route_value ranges"

definition decode_route_entry :: "byte list \<Rightarrow> (ip_range \<times> byte list) option" where
  "decode_route_entry buf =
     (case uncons buf of None \<Rightarrow> None | Some (version, buf) \<Rightarrow>
     (case (if version = 4 then Some 4 else if version = 6 then Some 16 else None)
      of None \<Rightarrow> None | Some addr_len \<Rightarrow>
        if length buf < addr_len * 2 + 1 then None
        else
          let start_octets = take addr_len buf;
              end_octets = take addr_len (drop addr_len buf);
              buf = drop (addr_len * 2) buf;
              proto = hd buf;
              buf = tl buf;
              start = (if version = 4 then V4 (be_val start_octets) else V6 (be_val start_octets));
              end' = (if version = 4 then V4 (be_val end_octets) else V6 (be_val end_octets))
          in if start > end' then None
             else Some (\<lparr>range_start = start, range_end = end', ip_protocol = proto\<rparr>, buf)))"

lemma decode_route_entry_shorter:
  "decode_route_entry buf = Some (e, r) \<Longrightarrow> length r < length buf"
  by (cases buf) (auto simp: decode_route_entry_def Let_def split: option.splits if_splits)

function decode_route_loop :: "ip_range list \<Rightarrow> byte list \<Rightarrow> ip_range list option" where
  "decode_route_loop ranges buf =
     (if buf = [] then Some ranges
      else (case decode_route_entry buf of
              None \<Rightarrow> None
            | Some (r, buf') \<Rightarrow> decode_route_loop (ranges @ [r]) buf'))"
  by pat_completeness auto
termination
  by (relation "measure (\<lambda>(_, buf). length buf)") (auto dest: decode_route_entry_shorter)

declare decode_route_loop.simps [simp del]

definition decode_route_value :: "byte list \<Rightarrow> ip_range list option" where
  "decode_route_value value = decode_route_loop [] value"

definition encode_route_advertisement :: "ip_range list \<Rightarrow> byte list" where
  "encode_route_advertisement ranges =
     encode_capsule CAPSULE_ROUTE_ADVERTISEMENT (encode_route_value ranges)"

definition decode_route_advertisement :: "byte list \<Rightarrow> ip_range list option" where
  "decode_route_advertisement capsule =
     (case decode_capsule capsule of
        Some (t, v) \<Rightarrow> if t = CAPSULE_ROUTE_ADVERTISEMENT then decode_route_value v else None
      | None \<Rightarrow> None)"

section \<open>Round trip of variable-length integers\<close>

lemma varint_acc_append:
  "length bs = n \<Longrightarrow>
   varint_acc n (bs @ rest) v = Some (foldl (\<lambda>v b. push_bit 8 v OR ucast b) v bs)"
  by (induction n bs v rule: varint_acc.induct) auto

lemma varint_first_byte:
  assumes w: "\<And>i. bit w i \<Longrightarrow> i < 8 * m + 6" and m: "8 * m + 8 \<le> 64"
    and X: "X = (w OR push_bit (8 * m + 6) c :: u64)"
  shows "drop_bit 6 (ucast (drop_bit (8 * m) X) :: byte) = take_bit 2 (ucast c)"
    and "ucast ((ucast (drop_bit (8 * m) X) :: byte) AND 0x3f) = (take_bit 6 (drop_bit (8 * m) w) :: u64)"
proof -
  have mask: "(0x3f :: byte) = mask 6" by (simp add: mask_eq_exp_minus_1)
  have nb: "\<not> bit w (8 * m + i)" if "6 \<le> i" for i using w [of "8 * m + i"] that by auto
  show "drop_bit 6 (ucast (drop_bit (8 * m) X) :: byte) = take_bit 2 (ucast c)"
    by (rule bit_word_eqI) (use m nb in \<open>auto simp: X bit_simps dest: bit_imp_le_length\<close>)
  show "ucast ((ucast (drop_bit (8 * m) X) :: byte) AND 0x3f) = (take_bit 6 (drop_bit (8 * m) w) :: u64)"
    unfolding mask by (rule bit_word_eqI) (auto simp: X bit_simps)
qed

lemma varint_join:
  fixes w :: u64
  assumes w: "\<And>i. bit w i \<Longrightarrow> i < 8 * m + 6"
  shows "push_bit (8 * m) (take_bit 6 (drop_bit (8 * m) w))
     OR take_bit (8 * m) (w OR push_bit (8 * m + 6) c) = w"
proof (rule bit_word_eqI)
  fix i assume "i < LENGTH(64)"
  show "bit (push_bit (8 * m) (take_bit 6 (drop_bit (8 * m) w))
     OR take_bit (8 * m) (w OR push_bit (8 * m + 6) c)) i = bit w i"
    using w [of i] \<open>i < LENGTH(64)\<close> by (auto simp: bit_simps)
qed

lemma get_varint_tagged:
  assumes w: "\<And>i. bit w i \<Longrightarrow> i < 8 * m + 6" and m: "8 * m + 8 \<le> 64" 
    and c: "2 ^ unat (take_bit 2 (ucast c :: byte)) = Suc m"
  shows "get_varint (be_bytes (Suc m) (w OR push_bit (8 * m + 6) c) @ rest) = Some (w, rest)"
proof -
  define X where "X = (w OR push_bit (8 * m + 6) c)"
  note f = varint_first_byte [OF w m X_def]
  have "foldl (\<lambda>v b. push_bit 8 v OR ucast b) (take_bit 6 (drop_bit (8 * m) w)) (be_bytes m X) = w"
    unfolding foldl_be_bytes X_def by (rule varint_join [OF w])
  then have "varint_acc m (be_bytes m X @ rest) (take_bit 6 (drop_bit (8 * m) w)) = Some w"
    by (simp add: varint_acc_append)
  then show ?thesis unfolding X_def [symmetric]
    by (simp add: get_varint_def be_bytes_Suc f c push_bit_eq_mult)
qed

lemma word_less_bit: "unat (w :: u64) < 2 ^ n \<Longrightarrow> bit w i \<Longrightarrow> i < n"
  by (metis bit_take_bit_iff bit_unsigned_iff take_bit_nat_eq_self possible_bit_word bit_imp_le_length possible_bit_nat)

lemma put_varint_append: "put_varint buf v = buf @ put_varint [] v"
  by (simp add: put_varint_def)

lemma put_varint_forms:
  "unat v < 2 ^ 6 \<Longrightarrow> put_varint [] v = be_bytes 1 v"
  "2 ^ 6 \<le> unat v \<Longrightarrow> unat v < 2 ^ 14 \<Longrightarrow> put_varint [] v = be_bytes 2 (v OR 0x4000)"
  "2 ^ 14 \<le> unat v \<Longrightarrow> unat v < 2 ^ 30 \<Longrightarrow> put_varint [] v = be_bytes 4 (v OR 0x80000000)"
  "2 ^ 30 \<le> unat v \<Longrightarrow> put_varint [] v = be_bytes 8 (v OR 0xc000000000000000)"
  by (simp add: put_varint_def word_le_nat_alt be_bytes_def)
    (simp_all add: put_varint_def word_le_nat_alt be_bytes_ucast)

lemma get_put_varint:
  assumes "unat v < 2 ^ 62"
  shows "get_varint (put_varint [] v @ rest) = Some (v, rest)"
proof -
  consider "unat v < 2 ^ 6" | "2 ^ 6 \<le> unat v" "unat v < 2 ^ 14" | "2 ^ 14 \<le> unat v" "unat v < 2 ^ 30"
    | "2 ^ 30 \<le> unat v" by linarith
  then show ?thesis
  proof cases
    case 1
    show ?thesis
      using get_varint_tagged [of v 0 0 rest] word_less_bit [OF 1] by (simp add: put_varint_forms(1) [OF 1])
  next
    case 2
    show ?thesis
      using get_varint_tagged [of v 1 1 rest] word_less_bit [OF 2(2)]
      by (simp add: put_varint_forms(2) [OF 2] numeral_2_eq_2)
  next
    case 3
    show ?thesis
      using get_varint_tagged [of v 3 2 rest] word_less_bit [OF 3(2)]
      by (simp add: put_varint_forms(3) [OF 3])
  next
    case 4
    show ?thesis
      using get_varint_tagged [of v 7 3 rest] word_less_bit [OF assms]
      by (simp add: put_varint_forms(4) [OF 4])
  qed
qed



lemma or_high_bits: "v OR 0xc000000000000000 = (take_bit 62 v OR 0xc000000000000000 :: u64)"
proof (rule bit_word_eqI)
  fix i assume i: "i < LENGTH(64)"
  have "(0xc000000000000000 :: u64) = push_bit 62 (mask 2)" by (simp add: mask_eq_exp_minus_1)
  then have "bit (0xc000000000000000 :: u64) i = (62 \<le> i)"
    using i by (simp only: bit_simps) auto
  then show "bit (v OR 0xc000000000000000) i = bit (take_bit 62 v OR 0xc000000000000000) i"
    by (auto simp: bit_or_iff bit_take_bit_iff)
qed

lemma get_put_varint_take_bit: "get_varint (put_varint [] v @ rest) = Some (take_bit 62 v, rest)"
proof (cases "unat v < 2 ^ 62")
  case True
  then have "take_bit 62 v = v"
    by (metis unsigned_take_bit_eq take_bit_nat_eq_self word_unat_eq_iff)
  with True show ?thesis by (simp add: get_put_varint)
next
  case False
  have small: "unat (take_bit 62 v) < 2 ^ 62"
    by (metis unsigned_take_bit_eq take_bit_nat_less_exp)
  have "put_varint [] v = be_bytes 8 (take_bit 62 v OR 0xc000000000000000)"
    using False by (subst put_varint_forms(4)) (simp_all add: or_high_bits [symmetric])
  then show ?thesis
    using get_varint_tagged [of "take_bit 62 v" 7 3 rest] word_less_bit [OF small] by simp
qed

lemma length_put_varint:
  "length (put_varint [] v) =
     (if unat v < 2 ^ 6 then 1 else if unat v < 2 ^ 14 then 2 else if unat v < 2 ^ 30 then 4 else 8)"
  by (auto simp: put_varint_forms not_less)

lemma put_varint_0 [simp]: "put_varint [] 0 = [0]"
  by (simp add: put_varint_def)

lemma varint_acc_more: "varint_acc n bs v = Some r \<Longrightarrow> varint_acc n (bs @ c) v = Some r"
  by (induction n bs v rule: varint_acc.induct) auto

lemma get_varintE:
  assumes "get_varint b = Some (v, r)"
  obtains first rest n where "b = first # rest" and "n = 2 ^ unat (drop_bit 6 first)"
    and "n \<le> length b" and "varint_acc (n - 1) rest (ucast (first AND 0x3f)) = Some v" and "r = drop n b"
  using assms by (cases b) (auto simp: get_varint_def Let_def split: if_splits option.splits)

lemma get_varint_more:
  assumes "get_varint b = Some (v, r)"
  shows "get_varint (b @ c) = Some (v, r @ c)"
proof -
  from assms obtain first rest n where b: "b = first # rest"
    and n: "n = 2 ^ unat (drop_bit 6 first)" "n \<le> length b"
    and acc: "varint_acc (n - 1) rest (ucast (first AND 0x3f)) = Some v" and r: "r = drop n b"
    by (rule get_varintE)
  from n(2) r have "drop n (b @ c) = r @ c" by simp
  with n(2) varint_acc_more [OF acc, of c] show ?thesis
    by (simp add: get_varint_def b n(1) [symmetric] Let_def)
qed

lemma varint_acc_bits:
  "varint_acc n bs v = Some r \<Longrightarrow> (\<And>i. bit v i \<Longrightarrow> i < k) \<Longrightarrow> bit r i \<Longrightarrow> i < 8 * n + k"
proof (induction n bs v arbitrary: k rule: varint_acc.induct)
  case (3 n b bs v)
  have "j < 8 + k" if "bit (push_bit 8 v OR ucast b) j" for j
    using that 3(3) [of "j - 8"] by (auto simp: bit_simps dest: bit_imp_le_length)
  with 3(1) [of "8 + k"] 3(2,4) show ?case by simp
qed auto

lemma unat_less_exp: "(\<And>i. bit w i \<Longrightarrow> i < n) \<Longrightarrow> unat (w :: u64) < 2 ^ n"
proof -
  assume "\<And>i. bit w i \<Longrightarrow> i < n"
  then have "take_bit n w = w" by (intro bit_word_eqI) (auto simp: bit_take_bit_iff)
  then show ?thesis by (metis unsigned_take_bit_eq take_bit_nat_less_exp)
qed

lemma get_varint_range: "get_varint b = Some (v, r) \<Longrightarrow> unat v < 2 ^ 62"
proof (elim get_varintE)
  fix first :: byte and rest n
  assume n: "n = 2 ^ unat (drop_bit 6 first)"
    and acc: "varint_acc (n - 1) rest (ucast (first AND 0x3f)) = Some v"
  have m: "(0x3f :: byte) = mask 6" by (simp add: mask_eq_exp_minus_1)
  have "unat (drop_bit 6 first) < 2 ^ 2"
    using unat_byte_less [of first] unfolding unat_drop_bit by simp
  then have "unat (drop_bit 6 first) \<le> 3" by simp
  then have "(2::nat) ^ unat (drop_bit 6 first) \<le> 2 ^ 3" by (intro power_increasing) simp_all
  then have "n - 1 \<le> 7" by (simp add: n)
  moreover have "i < 8 * (n - 1) + 6" if "bit v i" for i
    using varint_acc_bits [OF acc _ that, of 6] by (auto simp: m bit_simps)
  ultimately have "i < 62" if "bit v i" for i using that by fastforce
  then show ?thesis by (rule unat_less_exp)
qed

section \<open>Capsule framing\<close>

text \<open>What both peers of the request stream rely on: a complete frame is recognised whatever follows
  it, and a longer input never changes what was recognised.\<close>

lemma split_capsule_more:
  "split_capsule b = Some (t, v, n) \<Longrightarrow> split_capsule (b @ c) = Some (t, v, n)"
proof -
  assume *: "split_capsule b = Some (t, v, n)"
  then obtain r l r' where 1: "get_varint b = Some (t, r)" and 2: "get_varint r = Some (l, r')"
    and le: "unat l \<le> length r'" and n: "n = length b - length r' + unat l" and v: "v = take (unat l) r'"
    by (auto simp: split_capsule_def Let_def split: option.splits if_splits)
  from get_varint_shorter [OF 1] get_varint_shorter [OF 2] le n v show ?thesis
    by (simp add: split_capsule_def get_varint_more [OF 1] get_varint_more [OF 2] Let_def)
qed

lemma split_capsule_consumed:
  assumes "split_capsule b = Some (t, v, n)"
  shows "0 < n \<and> n \<le> length b"
proof -
  from assms obtain r l r' where 1: "get_varint b = Some (t, r)" and 2: "get_varint r = Some (l, r')"
    and le: "unat l \<le> length r'" and n: "n = length b - length r' + unat l"
    by (auto simp: split_capsule_def Let_def split: option.splits if_splits)
  from get_varint_shorter [OF 1] get_varint_shorter [OF 2] le n show ?thesis by linarith
qed

lemma unat_of_nat_u64: "n < 2 ^ 62 \<Longrightarrow> unat (of_nat n :: u64) = n"
  by (simp add: unat_of_nat take_bit_eq_mod)

lemma encode_capsule_alt:
  "encode_capsule typ value = put_varint [] typ @ put_varint [] (of_nat (length value)) @ value"
  by (simp add: encode_capsule_def Let_def put_varint_append [of "put_varint [] typ"])

lemma split_encode_capsule:
  assumes "unat typ < 2 ^ 62" and "length value < 2 ^ 62"
  shows "split_capsule (encode_capsule typ value @ rest)
           = Some (typ, value, length (encode_capsule typ value))"
  using assms get_put_varint [of "typ"] get_put_varint [of "of_nat (length value)"]
  by (simp add: split_capsule_def encode_capsule_alt unat_of_nat_u64 Let_def)

lemma decode_encode_capsule:
  "unat typ < 2 ^ 62 \<Longrightarrow> length value < 2 ^ 62 \<Longrightarrow>
   decode_capsule (encode_capsule typ value) = Some (typ, value)"
  using split_encode_capsule [of "typ" "value" "[]"] by (simp add: decode_capsule_def)

lemma split_capsule_strict_prefix:
  assumes "unat typ < 2 ^ 62" and "length value < 2 ^ 62"
    and "encode_capsule typ value = b @ c" and "c \<noteq> []"
  shows "split_capsule b = None"
proof (cases "split_capsule b")
  case (Some r)
  obtain t v n where r: "r = (t, v, n)" by (cases r)
  from split_capsule_more [OF Some [unfolded r]] assms(3)
  have "split_capsule (encode_capsule typ value) = Some (t, v, n)" by simp
  with split_encode_capsule [OF assms(1,2), of "[]"] have "n = length (b @ c)"
    by (simp add: assms(3))
  moreover have "n \<le> length b" using split_capsule_consumed [OF Some [unfolded r]] by simp
  ultimately show ?thesis using assms(4) by simp
qed simp

section \<open>Address payloads\<close>

definition valid_assigned :: "assigned_address \<Rightarrow> bool" where
  "valid_assigned e \<longleftrightarrow> unat (request_id e) < 2 ^ 62 \<and>
     (case address e of V4 _ \<Rightarrow> prefix_len e \<le> 32 | V6 _ \<Rightarrow> prefix_len e \<le> 128)"

lemma decode_address_entry_encode:
  assumes "valid_assigned e"
  shows "decode_address_entry (encode_address_value [e] @ rest) = Some (e, rest)"
proof -
  from assms have "get_varint (put_varint [] (request_id e) @ r) = Some (request_id e, r)" for r
    by (simp add: valid_assigned_def get_put_varint)
  with assms show ?thesis
    by (cases "address e") (auto simp: decode_address_entry_def valid_assigned_def not_le)
qed

lemma decode_address_entry_valid:
  "decode_address_entry b = Some (e, r) \<Longrightarrow> valid_assigned e"
  using get_varint_range [of b]
  by (auto simp: decode_address_entry_def valid_assigned_def not_less split: option.splits if_splits)

interpretation addresses:
  item_sequence encode_address_value decode_address_entry decode_address_loop valid_assigned
proof unfold_locales
  show "valid_assigned x \<Longrightarrow>
      decode_address_entry (encode_address_value (x # xs)) = Some (x, encode_address_value xs)" for x xs
    using decode_address_entry_encode [of x "encode_address_value xs"] by simp
qed (auto intro: decode_address_entry_valid decode_address_entry_shorter
      simp: decode_address_loop.simps split: ipaddr.splits)

section \<open>Route payloads\<close>

fun same_family :: "ipaddr \<Rightarrow> ipaddr \<Rightarrow> bool" where
  "same_family (V4 _) (V4 _) = True"
| "same_family (V6 _) (V6 _) = True"
| "same_family _ _ = False"

definition valid_range :: "ip_range \<Rightarrow> bool" where
  "valid_range r \<longleftrightarrow> same_family (range_start r) (range_end r) \<and> range_start r \<le> range_end r"

lemma decode_route_entry_encode:
  assumes "valid_range r"
  shows "decode_route_entry (encode_route_value [r] @ rest) = Some (r, rest)"
  using assms
  by (cases r; cases "range_start r"; cases "range_end r")
     (auto simp: decode_route_entry_def valid_range_def Let_def not_less)

lemma decode_route_entry_valid: "decode_route_entry b = Some (e, r) \<Longrightarrow> valid_range e"
  by (auto simp: decode_route_entry_def valid_range_def not_less Let_def
      split: option.splits if_splits)

interpretation routes:
  item_sequence encode_route_value decode_route_entry decode_route_loop valid_range
proof unfold_locales
  show "valid_range x \<Longrightarrow>
      decode_route_entry (encode_route_value (x # xs)) = Some (x, encode_route_value xs)" for x xs
    using decode_route_entry_encode [of x "encode_route_value xs"] by simp
qed (auto intro: decode_route_entry_valid decode_route_entry_shorter
      simp: decode_route_loop.simps split: ipaddr.splits)

section \<open>Properties\<close>

text \<open>Decoding a variable-length integer returns the low 62 bits of the encoded value, and the
  bytes that follow it untouched: the round trip is exact below \<open>2^62\<close>, the limit of the format.\<close>

theorem varint_round_trip: "get_varint (put_varint [] v @ rest) = Some (take_bit 62 v, rest)"
  by (rule get_put_varint_take_bit)

text \<open>(C26) A capsule is recognised at the front of any stream that starts with its encoding: the
  splitter returns its type, its value and exactly the number of bytes it occupies.\<close>

theorem capsule_round_trip:
  assumes "unat typ < 2 ^ 62" and "length value < 2 ^ 62"
  shows "split_capsule (encode_capsule typ value @ rest)
           = Some (typ, value, length (encode_capsule typ value))"
  using assms by (rule split_encode_capsule)

theorem capsule_round_trip_witness:
  "split_capsule (encode_capsule 1 [0xAA, 0xBB] @ [7]) = Some (1, [0xAA, 0xBB], 4)"
proof -
  have "encode_capsule 1 [0xAA, 0xBB] = [1, 2, 0xAA, 0xBB]"
    by (simp add: encode_capsule_def put_varint_def)
  then show ?thesis using capsule_round_trip [of 1 "[0xAA, 0xBB]" "[7]"] by simp
qed

text \<open>(C30) A capsule of which some bytes are still missing is not recognised: on every strict prefix
  of an encoding the splitter answers that it needs more bytes.\<close>

theorem capsule_strict_prefix_waits:
  assumes "unat typ < 2 ^ 62" and "length value < 2 ^ 62"
    and "encode_capsule typ value = b @ c" and "c \<noteq> []"
  shows "split_capsule b = None"
  using assms by (rule split_capsule_strict_prefix)

theorem capsule_strict_prefix_waits_witness: "split_capsule [1, 2, 0xAA] = None"
  by (rule capsule_strict_prefix_waits [of 1 "[0xAA, 0xBB]" _ "[0xBB]"])
     (simp_all add: encode_capsule_def put_varint_def)

text \<open>(C27) An ADDRESS_ASSIGN or ADDRESS_REQUEST payload survives encoding and decoding exactly when
  every entry has a 62-bit request id and a prefix length that fits its address family.\<close>

theorem address_value_round_trip:
  "(decode_address_value (encode_address_value es) = Some es) = list_all valid_assigned es"
  unfolding decode_address_value_def by (rule addresses.decode_encode_iff)

text \<open>(C28) Whatever bytes a peer sends, the entries the address decoder accepts are valid ones, and
  re-encoding them gives a payload that decodes to the same entries.\<close>

theorem address_value_sound:
  assumes "decode_address_value b = Some es"
  shows "list_all valid_assigned es \<and> decode_address_value (encode_address_value es) = Some es"
  using assms unfolding decode_address_value_def by (rule addresses.decode_encode_decode)

theorem address_value_sound_witness:
  "list_all valid_assigned [\<lparr>request_id = 5, address = V4 0xC6120002, prefix_len = 32\<rparr>]"
proof -
  have "decode_address_value [0x40, 5, 4, 0xC6, 0x12, 0, 2, 32]
          = Some [\<lparr>request_id = 5, address = V4 0xC6120002, prefix_len = 32\<rparr>]"
    by (simp add: decode_address_value_def decode_address_loop.simps decode_address_entry_def
        get_varint_def be_val_def)
  from address_value_sound [OF this] show ?thesis by simp
qed

text \<open>A ROUTE_ADVERTISEMENT payload survives encoding and decoding exactly when every range has
  both ends in one address family and does not end before it starts.\<close>

theorem route_value_round_trip:
  "(decode_route_value (encode_route_value rs) = Some rs) = list_all valid_range rs"
  unfolding decode_route_value_def by (rule routes.decode_encode_iff)

text \<open>An HTTP datagram reaches the tunnel exactly when its Context ID is 0, and then its payload
  is what follows the Context ID, whatever its contents.\<close>

theorem context_id_zero_only:
  "strip_context_id (put_varint [] c @ payload) = (if take_bit 62 c = 0 then Some payload else None)"
  by (simp add: strip_context_id_def get_put_varint_take_bit)

end
