(* ===== verification/CapsuleTests.thy ===== *)
theory CapsuleTests
  imports Capsule
begin

text \<open>
  The unit tests of \<open>src/capsule.rs\<close>, read on the model: each test function is the conjunction of its
  assertions, and the lemma of its name shows that the model satisfies it. An \<open>unwrap\<close> or \<open>expect\<close> is
  part of the assertion that uses its result. The byte vectors are the ones of RFC 9297 and RFC 9484, so
  these lemmas tie the definitions of \<open>Capsule\<close> to the wire formats independently of their theorems.
\<close>

section \<open>Varints and framing\<close>

definition encoded_len :: "u64 \<Rightarrow> nat" where
  "encoded_len v = length (put_varint [] v)"

definition varint_round_trip_all_forms :: bool where
  "varint_round_trip_all_forms \<longleftrightarrow>
     list_all (\<lambda>v. get_varint (put_varint [] v) = Some (v, []))
       [0, 1, 63, 64, 16383, 16384, 16385, 0xffffffff, 0x100000000]"

definition varint_encoding_lengths :: bool where
  "varint_encoding_lengths \<longleftrightarrow>
     encoded_len 0 = 1 \<and> encoded_len 63 = 1 \<and> encoded_len 64 = 2 \<and> encoded_len 16383 = 2
     \<and> encoded_len 16384 = 4 \<and> encoded_len 0x3fffffff = 4 \<and> encoded_len 0x40000000 = 8
     \<and> encoded_len 0x100000000 = 8"

definition generic_capsule_round_trip_and_rejects :: bool where
  "generic_capsule_round_trip_and_rejects \<longleftrightarrow>
     list_all (\<lambda>(typ, payload). decode_capsule (encode_capsule typ payload) = Some (typ, payload))
       [(CAPSULE_ADDRESS_ASSIGN, replicate 1 0xAB), (CAPSULE_ROUTE_ADVERTISEMENT, replicate 40 0xCD)]
     \<and> (let big = replicate 20000 0x11;
            capsule = encode_capsule CAPSULE_ADDRESS_ASSIGN big in
        capsule ! 1 AND 0xC0 = 0x80
        \<and> (case decode_capsule capsule of
             Some (t, v) \<Rightarrow> t = CAPSULE_ADDRESS_ASSIGN \<and> length v = 20000 | None \<Rightarrow> False))
     \<and> decode_capsule [0x01, 0x0A, 0x01, 0x02, 0x03] = None
     \<and> decode_capsule [0x40] = None"

definition split_capsule_reports_consumed_bytes :: bool where
  "split_capsule_reports_consumed_bytes \<longleftrightarrow>
     (let c1 = encode_capsule CAPSULE_ADDRESS_ASSIGN [0xAA, 0xBB];
          c2 = encode_capsule CAPSULE_ADDRESS_REQUEST [0xCC];
          both = c1 @ c2 in
      case split_capsule both of
        None \<Rightarrow> False
      | Some (t1, v1, used1) \<Rightarrow>
          (t1, v1) = (CAPSULE_ADDRESS_ASSIGN, [0xAA, 0xBB])
          \<and> (case split_capsule (drop used1 both) of
               None \<Rightarrow> False
             | Some (t2, v2, used2) \<Rightarrow>
                 (t2, v2) = (CAPSULE_ADDRESS_REQUEST, [0xCC]) \<and> used1 + used2 = length both))"

definition context_id_zero_is_stripped_and_nonzero_dropped :: bool where
  "context_id_zero_is_stripped_and_nonzero_dropped \<longleftrightarrow>
     strip_context_id [0x00, 0x45, 0x00, 0x01] = Some [0x45, 0x00, 0x01]
     \<and> strip_context_id [0x00] = Some []
     \<and> strip_context_id [0x01, 0x45, 0x00] = None
     \<and> strip_context_id [0x40, 0x2A, 0xDE, 0xAD] = None
     \<and> strip_context_id [0x40] = None
     \<and> strip_context_id [] = None"

section \<open>Addresses and routes\<close>

definition address_assign_v4_exact_bytes :: bool where
  "address_assign_v4_exact_bytes \<longleftrightarrow>
     (let entry = \<lparr>request_id = 0, address = V4 (v4 198 18 0 2), prefix_len = 32\<rparr>;
          expected = [0x01, 0x07, 0x00, 0x04, 0xC6, 0x12, 0x00, 0x02, 0x20] in
      encode_address_assign [entry] = expected
      \<and> decode_address_value (drop 2 expected) = Some [entry])"

definition address_request_v6_exact_bytes :: bool where
  "address_request_v6_exact_bytes \<longleftrightarrow>
     (let entry = \<lparr>request_id = 5, address = V6 0x20010db8000000000000000000000001, prefix_len = 64\<rparr>;
          expected = [0x02, 0x13, 0x05, 0x06,
            0x20, 0x01, 0x0D, 0xB8, 0, 0, 0, 0, 0, 0, 0, 0, 0, 0, 0, 0x01, 0x40] in
      encode_address_request [entry] = expected
      \<and> decode_address_value (drop 2 expected) = Some [entry])"

definition route_advertisement_v4_default_route_exact_bytes :: bool where
  "route_advertisement_v4_default_route_exact_bytes \<longleftrightarrow>
     (let range = \<lparr>range_start = V4 (v4 0 0 0 0), range_end = V4 (v4 255 255 255 255),
                   ip_protocol = 0\<rparr>;
          expected = [0x03, 0x0A, 0x04, 0x00, 0x00, 0x00, 0x00, 0xFF, 0xFF, 0xFF, 0xFF, 0x00] in
      encode_route_advertisement [range] = expected
      \<and> decode_route_value (drop 2 expected) = Some [range])"

definition address_value_round_trip_multiple_entries :: bool where
  "address_value_round_trip_multiple_entries \<longleftrightarrow>
     (let entries =
        [\<lparr>request_id = 7, address = V4 (v4 198 18 0 6), prefix_len = 30\<rparr>,
         \<lparr>request_id = 0, address = V6 0x20010db8000000000000000000000002, prefix_len = 128\<rparr>] in
      case decode_capsule (encode_address_assign entries) of
        None \<Rightarrow> False
      | Some (t, v) \<Rightarrow> t = CAPSULE_ADDRESS_ASSIGN \<and> decode_address_value v = Some entries)"

definition address_value_rejects_malformed :: bool where
  "address_value_rejects_malformed \<longleftrightarrow>
     decode_address_value [0x00, 0x05, 1, 2, 3, 4, 24] = None
     \<and> decode_address_value [0x00, 0x04, 1, 2, 3, 32] = None
     \<and> decode_address_value ([0x00, 0x06] @ replicate 15 0 @ [128]) = None
     \<and> decode_address_value [0x00, 0x04, 1, 2, 3, 4] = None
     \<and> decode_address_value [0x00, 0x04, 1, 2, 3, 4, 33] = None
     \<and> decode_address_value ([0x00, 0x06] @ replicate 16 0 @ [129]) = None
     \<and> decode_address_value [] = Some []"

definition route_value_round_trip_v4_and_v6 :: bool where
  "route_value_round_trip_v4_and_v6 \<longleftrightarrow>
     (let ranges =
        [\<lparr>range_start = V4 (v4 10 0 0 0), range_end = V4 (v4 10 255 255 255), ip_protocol = 6\<rparr>,
         \<lparr>range_start = V6 0x20010db8000000000000000000000000,
          range_end = V6 0x20010db800000000ffffffffffffffff, ip_protocol = 0\<rparr>] in
      case decode_capsule (encode_route_advertisement ranges) of
        None \<Rightarrow> False
      | Some (t, v) \<Rightarrow> t = CAPSULE_ROUTE_ADVERTISEMENT \<and> decode_route_value v = Some ranges)"

definition route_value_rejects_malformed :: bool where
  "route_value_rejects_malformed \<longleftrightarrow>
     decode_route_value [0x05, 1, 2, 3, 4, 5, 6, 7, 8, 0] = None
     \<and> decode_route_value [0x04, 1, 2, 3, 4] = None
     \<and> decode_route_value [0x04, 10, 0, 0, 5, 10, 0, 0, 1, 0] = None
     \<and> decode_route_value [0x04, 1, 2, 3, 4, 5, 6, 7, 0] = None
     \<and> decode_route_value [] = Some []"

end
