(* ===== verification/RustStd.thy ===== *)
theory RustStd
  imports NetAddr
begin

text \<open>
  The parts of the Rust standard library that the modelled code calls on text: UTF-8 validation,
  unsigned integer parsing and printing, Unicode white space, lines, and \<open>IpAddr::from_str\<close>.
  Strings are UTF-8 byte lists, so a pattern that is an ASCII character is one byte.
\<close>

section \<open>UTF-8\<close>

definition cont :: "byte \<Rightarrow> bool" where
  "cont b = (0x80 \<le> b \<and> b \<le> 0xBF)"

definition between :: "byte \<Rightarrow> byte \<Rightarrow> byte \<Rightarrow> bool" where
  "between lo hi b = (lo \<le> b \<and> b \<le> hi)"

text \<open>The well-formed byte sequences of Unicode table 3-7, as \<open>core::str::from_utf8\<close> checks them.\<close>

fun utf8_valid :: "byte list \<Rightarrow> bool" where
  "utf8_valid [] = True"
| "utf8_valid (b # r) =
     (if b < 0x80 then utf8_valid r
      else if between 0xC2 0xDF b then
        (case r of c # r' \<Rightarrow> cont c \<and> utf8_valid r' | _ \<Rightarrow> False)
      else if between 0xE0 0xEF b then
        (case r of c # d # r' \<Rightarrow>
             (if b = 0xE0 then between 0xA0 0xBF c else if b = 0xED then between 0x80 0x9F c else cont c)
             \<and> cont d \<and> utf8_valid r'
         | _ \<Rightarrow> False)
      else if between 0xF0 0xF4 b then
        (case r of c # d # e # r' \<Rightarrow>
             (if b = 0xF0 then between 0x90 0xBF c else if b = 0xF4 then between 0x80 0x8F c else cont c)
             \<and> cont d \<and> cont e \<and> utf8_valid r'
         | _ \<Rightarrow> False)
      else False)"

definition from_utf8 :: "byte list \<Rightarrow> str option" where
  "from_utf8 raw = (if utf8_valid raw then Some raw else None)"

lemma utf8_valid_ascii: "\<forall>b\<in>set s. b < 0x80 \<Longrightarrow> utf8_valid s"
  by (induction s) auto

section \<open>Unsigned integers in text\<close>

definition is_digit :: "byte \<Rightarrow> bool" where
  "is_digit c = between 48 57 c"

text \<open>The digit loop of \<open>uN::from_str\<close>; \<open>bound\<close> is \<open>2 ^ N\<close> and every step is overflow checked.\<close>

fun parse_digits :: "nat \<Rightarrow> nat \<Rightarrow> byte list \<Rightarrow> nat option" where
  "parse_digits bound acc [] = Some acc"
| "parse_digits bound acc (c # cs) =
     (if is_digit c
      then (let v = acc * 10 + (unat c - 48) in
            if v < bound then parse_digits bound v cs else None)
      else None)"

text \<open>A leading plus sign is accepted when digits follow; an empty string is not a number.\<close>

definition parse_uint :: "nat \<Rightarrow> str \<Rightarrow> nat option" where
  "parse_uint bound s =
     (case s of
        [] \<Rightarrow> None
      | c # cs \<Rightarrow> if c = 43 \<and> cs \<noteq> [] then parse_digits bound 0 cs else parse_digits bound 0 s)"

definition parse_u16 :: "str \<Rightarrow> u16 option" where
  "parse_u16 s = map_option of_nat (parse_uint (2 ^ 16) s)"

text \<open>\<open>Display\<close> for unsigned integers.\<close>

fun dec :: "nat \<Rightarrow> str" where
  "dec n = (if n < 10 then [of_nat (48 + n)] else dec (n div 10) @ [of_nat (48 + n mod 10)])"

declare dec.simps [simp del]

lemma parse_digits_append:
  "parse_digits bound acc (a @ b) =
     (case parse_digits bound acc a of None \<Rightarrow> None | Some v \<Rightarrow> parse_digits bound v b)"
  by (induction bound acc a rule: parse_digits.induct) (auto simp: Let_def)

lemma unat_digit: "k < 10 \<Longrightarrow> unat (of_nat (48 + k) :: byte) = 48 + k"
  by (simp add: unat_of_nat take_bit_eq_mod del: of_nat_add)

lemma is_digit_of_nat: "k < 10 \<Longrightarrow> is_digit (of_nat (48 + k))"
  by (simp add: is_digit_def between_def word_le_nat_alt unat_digit del: of_nat_add)

lemma dec_nonempty [simp]: "dec n \<noteq> []"
  by (subst dec.simps) simp

lemma dec_digits: "c \<in> set (dec n) \<Longrightarrow> is_digit c"
proof (induction n rule: dec.induct)
  case (1 n)
  then show ?case
    by (subst (asm) dec.simps) (auto split: if_splits simp: is_digit_of_nat simp del: of_nat_add)
qed

lemma parse_digits_dec: "n < bound \<Longrightarrow> parse_digits bound 0 (dec n) = Some n"
proof (induction n rule: dec.induct)
  case (1 n)
  show ?case
  proof (cases "n < 10")
    case True
    with 1(2) show ?thesis
      by (subst dec.simps) (simp add: is_digit_of_nat unat_digit del: of_nat_add)
  next
    case False
    with 1 have "parse_digits bound 0 (dec (n div 10)) = Some (n div 10)" by simp
    with False 1(2) show ?thesis
      by (subst dec.simps)
         (simp add: parse_digits_append is_digit_of_nat unat_digit del: of_nat_add)
  qed
qed

lemma parse_uint_dec: "n < bound \<Longrightarrow> parse_uint bound (dec n) = Some n"
proof -
  assume n: "n < bound"
  obtain c cs where d: "dec n = c # cs" by (cases "dec n") auto
  then have "is_digit c" using dec_digits [of c n] by simp
  then have "c \<noteq> 43" by (auto simp: is_digit_def between_def)
  with parse_digits_dec [OF n] d show ?thesis by (simp add: parse_uint_def)
qed

lemma parse_u16_dec: "parse_u16 (dec (unat p)) = Some p"
  using parse_uint_dec [of "unat p" 65536] unat_u16_less [of p] by (simp add: parse_u16_def)

section \<open>White space and lines\<close>

text \<open>The length in bytes of the Unicode \<open>White_Space\<close> character at the front, 0 when there is none.\<close>

fun ws_len :: "str \<Rightarrow> nat" where
  "ws_len [] = 0"
| "ws_len (a # r) =
     (if between 9 13 a \<or> a = 32 then 1
      else if a = 0xC2 then (case r of b # _ \<Rightarrow> if b = 0x85 \<or> b = 0xA0 then 2 else 0 | [] \<Rightarrow> 0)
      else if a = 0xE1 then (case r of b # c # _ \<Rightarrow> if b = 0x9A \<and> c = 0x80 then 3 else 0 | _ \<Rightarrow> 0)
      else if a = 0xE2 then
        (case r of b # c # _ \<Rightarrow>
           if b = 0x80 \<and> (between 0x80 0x8A c \<or> c = 0xA8 \<or> c = 0xA9 \<or> c = 0xAF)
              \<or> b = 0x81 \<and> c = 0x9F then 3 else 0
         | _ \<Rightarrow> 0)
      else if a = 0xE3 then (case r of b # c # _ \<Rightarrow> if b = 0x80 \<and> c = 0x80 then 3 else 0 | _ \<Rightarrow> 0)
      else 0)"

function trim_start :: "str \<Rightarrow> str" where
  "trim_start s = (if ws_len s = 0 then s else trim_start (drop (ws_len s) s))"
  by pat_completeness auto
termination
proof (relation "measure length")
  fix s :: str
  assume "ws_len s \<noteq> 0"
  then have "s \<noteq> []" by auto
  with \<open>ws_len s \<noteq> 0\<close> show "(drop (ws_len s) s, s) \<in> measure length" by simp
qed simp

declare trim_start.simps [simp del]

text \<open>The white-space character that ends a string: one of the last one to three bytes.\<close>

definition ws_suffix_len :: "str \<Rightarrow> nat" where
  "ws_suffix_len s =
     (let n = length s in
      if 1 \<le> n \<and> ws_len (drop (n - 1) s) = 1 then 1
      else if 2 \<le> n \<and> ws_len (drop (n - 2) s) = 2 then 2
      else if 3 \<le> n \<and> ws_len (drop (n - 3) s) = 3 then 3
      else 0)"

function trim_end :: "str \<Rightarrow> str" where
  "trim_end s = (if ws_suffix_len s = 0 then s else trim_end (take (length s - ws_suffix_len s) s))"
  by pat_completeness auto
termination
  by (relation "measure length") (auto simp: ws_suffix_len_def Let_def split: if_splits)

declare trim_end.simps [simp del]

definition trim :: "str \<Rightarrow> str" where
  "trim s = trim_end (trim_start s)"

lemma ws_len_ascii: "c < 0x80 \<Longrightarrow> \<not> (between 9 13 c \<or> c = 32) \<Longrightarrow> ws_len (c # s) = 0"
  by (cases s) auto

lemma trim_ascii:
  assumes "\<forall>c\<in>set s. c < 0x80 \<and> \<not> (between 9 13 c \<or> c = 32)"
  shows "trim s = s"
proof -
  have z: "ws_len t = 0" if "set t \<subseteq> set s" for t
    using that assms by (cases t) (simp, metis list.set_intros(1) subsetD ws_len_ascii)
  have "ws_len (drop k s) = 0" for k by (rule z) (rule set_drop_subset)
  then have "ws_suffix_len s = 0" "ws_len s = 0" using z [of s] by (simp_all add: ws_suffix_len_def Let_def)
  then show ?thesis by (simp add: trim_def trim_start.simps trim_end.simps)
qed

lemma dec_no_space: "x \<in> set (dec n) \<Longrightarrow> x < 0x80 \<and> \<not> (between 9 13 x \<or> x = 32)"
proof -
  assume "x \<in> set (dec n)"
  then have "48 \<le> x" "x \<le> 57" using dec_digits [of x n] by (simp_all add: is_digit_def between_def)
  then show ?thesis by (auto simp: between_def word_le_nat_alt word_less_nat_alt)
qed

lemma trim_dec [simp]: "trim (dec n) = dec n"
  using dec_no_space by (intro trim_ascii) blast

text \<open>The longest prefix without a white-space character, and the rest.\<close>

fun span_word :: "str \<Rightarrow> str \<times> str" where
  "span_word [] = ([], [])"
| "span_word (c # s) =
     (if ws_len (c # s) \<noteq> 0 then ([], c # s) else (let (w, r) = span_word s in (c # w, r)))"

lemma span_word_append: "span_word s = (w, r) \<Longrightarrow> s = w @ r"
  by (induction s arbitrary: w r) (auto split: if_splits prod.splits simp del: ws_len.simps)

lemma length_trim_start: "length (trim_start s) \<le> length s"
proof (induction s rule: trim_start.induct)
  case (1 s)
  show ?case using 1 by (subst trim_start.simps) (auto intro: order_trans)
qed

lemma ws_len_trim_start: "ws_len (trim_start s) = 0"
proof (induction s rule: trim_start.induct)
  case (1 s)
  then show ?case by (subst trim_start.simps) simp
qed

text \<open>\<open>split_whitespace\<close>.\<close>

function split_whitespace :: "str \<Rightarrow> str list" where
  "split_whitespace s =
     (let t = trim_start s in
      if t = [] then [] else (let (w, r) = span_word t in w # split_whitespace r))"
  by pat_completeness auto
termination
proof (relation "measure length")
  fix s t :: str and x w r
  assume t: "t = trim_start s" "t \<noteq> []" and x: "x = span_word t" "(w, r) = x"
  have "w \<noteq> []"
  proof -
    obtain c u where c: "t = c # u" using t(2) by (cases t) auto
    then have "ws_len (c # u) = 0" using ws_len_trim_start [of s] t(1) by simp
    then show ?thesis using x unfolding c by (simp split: prod.splits del: ws_len.simps)
  qed
  moreover have "t = w @ r" using span_word_append x by metis
  ultimately have "length r < length t" by simp
  then show "(r, s) \<in> measure length" using length_trim_start [of s] t(1) by simp
qed simp

declare split_whitespace.simps [simp del]

text \<open>\<open>lines().next()\<close>: up to the first newline, without it and without one carriage return before it.\<close>

definition first_line :: "str \<Rightarrow> str option" where
  "first_line s =
     (if s = [] then None
      else (case position ((=) 10) s of
              None \<Rightarrow> Some s
            | Some i \<Rightarrow> (let l = take i s in
                if l \<noteq> [] \<and> last l = 13 then Some (butlast l) else Some l)))"

text \<open>\<open>lines()\<close>: the pieces between newlines, a final empty piece dropped, each without one carriage
  return at its end. \<open>split(c)\<close>: the pieces between occurrences of \<open>c\<close>, at least one.\<close>

fun split_char :: "byte \<Rightarrow> str \<Rightarrow> str list" where
  "split_char c [] = [[]]"
| "split_char c (x # s) =
     (if x = c then [] # split_char c s
      else (case split_char c s of [] \<Rightarrow> [[x]] | w # ws \<Rightarrow> (x # w) # ws))"

definition chomp :: "str \<Rightarrow> str" where
  "chomp l = (if l \<noteq> [] \<and> last l = 13 then butlast l else l)"

definition lines :: "str \<Rightarrow> str list" where
  "lines s =
     (let ps = split_char 10 s in
      map chomp (butlast ps) @ (if last ps = [] then [] else [last ps]))"

text \<open>\<open>contains\<close>.\<close>

fun contains :: "str \<Rightarrow> str \<Rightarrow> bool" where
  "contains needle [] = (needle = [])"
| "contains needle (x # s) = (starts_with needle (x # s) \<or> contains needle s)"

lemma split_char_nonempty [simp]: "split_char c s \<noteq> []"
  by (induction s) (auto split: list.split)

lemma split_char_join:
  "c \<notin> set a \<Longrightarrow> split_char c (a @ c # s) = a # split_char c s"
  by (induction a) auto

lemma split_char_single: "c \<notin> set a \<Longrightarrow> split_char c a = [a]"
  by (induction a) auto

lemma contains_iff: "contains needle s \<longleftrightarrow> (\<exists>a b. s = a @ needle @ b)"
proof (induction s)
  case step: (Cons x s)
  show ?case
  proof
    assume "contains needle (x # s)"
    then show "\<exists>a b. x # s = a @ needle @ b"
      using step by (auto simp: starts_with_iff) (metis append_Cons append_Nil)+
  next
    assume "\<exists>a b. x # s = a @ needle @ b"
    then obtain a b where ab: "x # s = a @ needle @ b" by blast
    show "contains needle (x # s)"
    proof (cases a)
      case Nil
      with ab have "starts_with needle (x # s)" by (auto simp: starts_with_iff)
      then show ?thesis by simp
    next
      case (Cons y a')
      with ab have "s = a' @ needle @ b" by simp
      with step have "contains needle s" by blast
      then show ?thesis by simp
    qed
  qed
qed auto

section \<open>\<open>IpAddr::from_str\<close>\<close>

text \<open>
  The recursive-descent parser of \<open>core::net::parser\<close>. A parser returns the value and the rest of
  the input; \<open>None\<close> leaves the caller's position unchanged (\<open>read_atomically\<close>).
\<close>

definition to_digit :: "nat \<Rightarrow> byte \<Rightarrow> nat option" where
  "to_digit radix c =
     (let d = (if between 48 57 c then unat c - 48
               else if between 97 122 c then unat c - 87
               else if between 65 90 c then unat c - 55
               else 255)
      in if d < radix then Some d else None)"

fun read_digits :: "nat \<Rightarrow> nat \<Rightarrow> nat \<Rightarrow> nat \<Rightarrow> str \<Rightarrow> (nat \<times> nat \<times> str) option" where
  "read_digits radix max_digits result count [] = Some (result, count, [])"
| "read_digits radix max_digits result count (c # s) =
     (case to_digit radix c of
        None \<Rightarrow> Some (result, count, c # s)
      | Some d \<Rightarrow>
          if Suc count > max_digits then None
          else read_digits radix max_digits (result * radix + d) (Suc count) s)"

definition read_number :: "nat \<Rightarrow> nat \<Rightarrow> bool \<Rightarrow> nat \<Rightarrow> str \<Rightarrow> (nat \<times> str) option" where
  "read_number radix max_digits allow_zero_prefix bound s =
     (case read_digits radix max_digits 0 0 s of
        None \<Rightarrow> None
      | Some (result, count, r) \<Rightarrow>
          if count = 0 then None
          else if \<not> allow_zero_prefix \<and> s \<noteq> [] \<and> hd s = 48 \<and> count > 1 then None
          else if result < bound then Some (result, r) else None)"

definition read_given_char :: "byte \<Rightarrow> str \<Rightarrow> str option" where
  "read_given_char c s = strip_prefix [c] s"

definition read_separator ::
    "byte \<Rightarrow> nat \<Rightarrow> (str \<Rightarrow> ('a \<times> str) option) \<Rightarrow> str \<Rightarrow> ('a \<times> str) option" where
  "read_separator sep index inner s =
     (if index > 0 then
        (case read_given_char sep s of None \<Rightarrow> None | Some r \<Rightarrow> inner r)
      else inner s)"

fun read_v4_groups :: "nat \<Rightarrow> nat \<Rightarrow> str \<Rightarrow> (byte list \<times> str) option" where
  "read_v4_groups 0 i s = Some ([], s)"
| "read_v4_groups (Suc k) i s =
     (case read_separator 46 i (read_number 10 3 False 256) s of
        None \<Rightarrow> None
      | Some (g, r) \<Rightarrow>
          (case read_v4_groups k (Suc i) r of
             None \<Rightarrow> None
           | Some (gs, r') \<Rightarrow> Some (of_nat g # gs, r')))"

definition read_ipv4_addr :: "str \<Rightarrow> (u32 \<times> str) option" where
  "read_ipv4_addr s = map_option (\<lambda>(gs, r). (be_val gs, r)) (read_v4_groups 4 0 s)"

text \<open>Up to \<open>limit\<close> groups; the flag tells that the last two came from an embedded IPv4 address.\<close>

fun read_v6_groups :: "nat \<Rightarrow> nat \<Rightarrow> str \<Rightarrow> u16 list \<times> bool \<times> str" where
  "read_v6_groups 0 i s = ([], False, s)"
| "read_v6_groups (Suc k) i s =
     (case (if k > 0 then read_separator 58 i read_ipv4_addr s else None) of
        Some (v4_addr, r) \<Rightarrow> ([ucast (drop_bit 16 v4_addr), ucast v4_addr], True, r)
      | None \<Rightarrow>
          (case read_separator 58 i (read_number 16 4 True 65536) s of
             None \<Rightarrow> ([], False, s)
           | Some (g, r) \<Rightarrow>
               (let (gs, v4_flag, r') = read_v6_groups k (Suc i) r in (of_nat g # gs, v4_flag, r'))))"

definition from_segments :: "u16 list \<Rightarrow> u128" where
  "from_segments segs = be_val (concat (map (be_bytes 2) segs))"

definition read_ipv6_addr :: "str \<Rightarrow> (u128 \<times> str) option" where
  "read_ipv6_addr s =
     (let (head, head_ipv4, r) = read_v6_groups 8 0 s in
      if length head = 8 then Some (from_segments head, r)
      else if head_ipv4 then None
      else
        (case strip_prefix [58, 58] r of
           None \<Rightarrow> None
         | Some r' \<Rightarrow>
             let limit = 8 - (length head + 1);
                 (tail, _, r'') = read_v6_groups limit 0 r'
             in Some (from_segments (head @ replicate (8 - length head - length tail) 0 @ tail), r'')))"

definition parse_ip :: "str \<Rightarrow> ipaddr option" where
  "parse_ip s =
     (case (case read_ipv4_addr s of
              Some (a, r) \<Rightarrow> Some (V4 a, r)
            | None \<Rightarrow> map_option (\<lambda>(a, r). (V6 a, r)) (read_ipv6_addr s))
      of Some (ip, []) \<Rightarrow> Some ip | _ \<Rightarrow> None)"

text \<open>Evaluation of the bounded loops on numerals.\<close>

lemma read_v4_groups_numeral [parse_simps]:
  "read_v4_groups (numeral k) i s =
     (case read_separator 46 i (read_number 10 3 False 256) s of
        None \<Rightarrow> None
      | Some (g, r) \<Rightarrow>
          (case read_v4_groups (pred_numeral k) (Suc i) r of
             None \<Rightarrow> None
           | Some (gs, r') \<Rightarrow> Some (of_nat g # gs, r')))"
  by (simp add: numeral_eq_Suc)

lemma read_v6_groups_numeral [parse_simps]:
  "read_v6_groups (numeral k) i s =
     (case (if pred_numeral k > 0 then read_separator 58 i read_ipv4_addr s else None) of
        Some (v4_addr, r) \<Rightarrow> ([ucast (drop_bit 16 v4_addr), ucast v4_addr], True, r)
      | None \<Rightarrow>
          (case read_separator 58 i (read_number 16 4 True 65536) s of
             None \<Rightarrow> ([], False, s)
           | Some (g, r) \<Rightarrow>
               (let (gs, v4_flag, r') = read_v6_groups (pred_numeral k) (Suc i) r
                in (of_nat g # gs, v4_flag, r'))))"
  by (simp add: numeral_eq_Suc)

lemmas ip_parser_defs =
  parse_ip_def read_ipv4_addr_def read_ipv6_addr_def read_separator_def read_given_char_def
  read_number_def to_digit_def between_def from_segments_def be_val_def be_bytes_def

section \<open>\<open>Display\<close> of addresses\<close>

fun hex :: "nat \<Rightarrow> str" where
  "hex n = (let d = (if n mod 16 < 10 then 48 + n mod 16 else 87 + n mod 16) in
     if n < 16 then [of_nat d] else hex (n div 16) @ [of_nat d])"

declare hex.simps [simp del]

definition display_ipv4 :: "u32 \<Rightarrow> str" where
  "display_ipv4 a =
     (let o4 = octets4 a in
      dec (unat (o4 ! 0)) @ ascii ''.'' @ dec (unat (o4 ! 1)) @ ascii ''.'' @
      dec (unat (o4 ! 2)) @ ascii ''.'' @ dec (unat (o4 ! 3)))"

text \<open>The first longest run of zero segments: its start and length.\<close>

fun zero_span :: "u16 list \<Rightarrow> nat \<Rightarrow> nat \<times> nat \<Rightarrow> nat \<times> nat \<Rightarrow> nat \<times> nat" where
  "zero_span [] i current longest = longest"
| "zero_span (s # ss) i (start, len) longest =
     (if s = 0 then
        let current = (if len = 0 then i else start, Suc len) in
        zero_span ss (Suc i) current (if Suc len > snd longest then current else longest)
      else zero_span ss (Suc i) (0, 0) longest)"

fun fmt_subslice :: "u16 list \<Rightarrow> str" where
  "fmt_subslice [] = []"
| "fmt_subslice [s] = hex (unat s)"
| "fmt_subslice (s # t # ss) = hex (unat s) @ ascii '':'' @ fmt_subslice (t # ss)"

definition display_ipv6 :: "u128 \<Rightarrow> str" where
  "display_ipv6 a =
     (let segments = map (\<lambda>i. segment6 i a) [0..<8] in
      if take 5 segments = [0, 0, 0, 0, 0] \<and> segments ! 5 = 0xffff
      then ascii ''::ffff:'' @ display_ipv4 (ucast a)
      else
        let (start, len) = zero_span segments 0 (0, 0) (0, 0) in
        if len > 1
        then fmt_subslice (take start segments) @ ascii ''::'' @ fmt_subslice (drop (start + len) segments)
        else fmt_subslice segments)"

definition display_ip :: "ipaddr \<Rightarrow> str" where
  "display_ip ip = (case ip of V4 a \<Rightarrow> display_ipv4 a | V6 a \<Rightarrow> display_ipv6 a)"

text \<open>\<open>String::from_utf8_lossy\<close>: the length of a valid character at the front, 0 if there is none; and
  how many bytes one replacement character stands for.\<close>

definition char_len :: "byte list \<Rightarrow> nat" where
  "char_len s =
     (if 1 \<le> length s \<and> utf8_valid (take 1 s) then 1
      else if 2 \<le> length s \<and> utf8_valid (take 2 s) then 2
      else if 3 \<le> length s \<and> utf8_valid (take 3 s) then 3
      else if 4 \<le> length s \<and> utf8_valid (take 4 s) then 4
      else 0)"

definition second_ok :: "byte \<Rightarrow> byte \<Rightarrow> bool" where
  "second_ok b c =
     (if b = 0xE0 then between 0xA0 0xBF c
      else if b = 0xED then between 0x80 0x9F c
      else if b = 0xF0 then between 0x90 0xBF c
      else if b = 0xF4 then between 0x80 0x8F c
      else cont c)"

definition bad_len :: "byte list \<Rightarrow> nat" where
  "bad_len s =
     (case s of
        b # c # d # _ \<Rightarrow>
          if between 0xF0 0xF4 b \<and> second_ok b c \<and> cont d then 3
          else if between 0xE0 0xF4 b \<and> second_ok b c then 2 else 1
      | [b, c] \<Rightarrow> if between 0xE0 0xF4 b \<and> second_ok b c then 2 else 1
      | _ \<Rightarrow> 1)"

function from_utf8_lossy :: "byte list \<Rightarrow> str" where
  "from_utf8_lossy s =
     (if s = [] then []
      else if char_len s \<noteq> 0 then take (char_len s) s @ from_utf8_lossy (drop (char_len s) s)
      else [0xEF, 0xBF, 0xBD] @ from_utf8_lossy (drop (bad_len s) s))"
  by pat_completeness auto
termination
proof (relation "measure length")
  fix s :: "byte list"
  assume "s \<noteq> []"
  moreover have "0 < bad_len s" by (simp add: bad_len_def split: list.split)
  ultimately show "(drop (bad_len s) s, s) \<in> measure length" by simp
qed simp_all

declare from_utf8_lossy.simps [simp del]

lemma from_utf8_lossy_ascii: "\<forall>b\<in>set s. b < 0x80 \<Longrightarrow> from_utf8_lossy s = s"
proof (induction s)
  case Nil
  show ?case by (simp add: from_utf8_lossy.simps)
next
  case (Cons b s)
  then have "char_len (b # s) = 1" by (simp add: char_len_def)
  with Cons show ?case by (subst from_utf8_lossy.simps) simp
qed

end
