(* ===== verification/SocksWire.thy ===== *)
theory SocksWire
  imports RustStd
begin

text \<open>
  The pure wire formats of \<open>src/server.rs\<close>: protocol detection on the first bytes, SOCKS4 and SOCKS5
  replies, the SOCKS5 UDP header in both directions, the CONNECT authority and the end of an HTTP
  head. A \<open>bail!\<close> or a failed \<open>context\<close> is \<open>Inl\<close> of its message without the formatted arguments.
\<close>

section \<open>Constants\<close>

type_synonym err = string

definition HTTP_HEADER_MAX_LEN :: nat where "HTTP_HEADER_MAX_LEN = 8192"
definition SOCKS4_FIELD_MAX_LEN :: nat where "SOCKS4_FIELD_MAX_LEN = 1024"
definition PROBE_LEN :: nat where "PROBE_LEN = 512"
definition UDP_PACKET_MAX_LEN :: nat where "UDP_PACKET_MAX_LEN = 65535"

section \<open>Protocol detection\<close>

datatype protocol = Socks4 | Socks5 | HttpConnect

definition detect_protocol :: "byte list \<Rightarrow> protocol option" where
  "detect_protocol data =
     (case data of
        [] \<Rightarrow> None
      | b # _ \<Rightarrow>
          if b = 0x04 then Some Socks4
          else if b = 0x05 then Some Socks5
          else if starts_with (ascii ''CONNECT '') data then Some HttpConnect
          else None)"

section \<open>Replies\<close>

definition socks5_reply :: "byte \<Rightarrow> sockaddr \<Rightarrow> byte list" where
  "socks5_reply rep bound =
     [0x05, rep, 0x00]
     @ (case sa_ip bound of V4 ip \<Rightarrow> 0x01 # octets4 ip | V6 ip \<Rightarrow> 0x04 # octets6 ip)
     @ be_bytes 2 (sa_port bound)"

definition socks4_reply :: "byte \<Rightarrow> byte list" where
  "socks4_reply status = [0x00, status, 0x00, 0x00, 0x00, 0x00, 0x00, 0x00]"

section \<open>The SOCKS5 UDP header\<close>

definition parse_socks5_host_from_bytes :: "byte \<Rightarrow> byte list \<Rightarrow> err + (host \<times> nat)" where
  "parse_socks5_host_from_bytes atyp data =
     (if atyp = 0x01 then
        (case get_range 0 4 data of
           None \<Rightarrow> Inl ''SOCKS5 IPv4 address is truncated''
         | Some raw \<Rightarrow> Inr (Ip (V4 (be_val [raw ! 0, raw ! 1, raw ! 2, raw ! 3])), 4))
      else if atyp = 0x04 then
        (case get_range 0 16 data of
           None \<Rightarrow> Inl ''SOCKS5 IPv6 address is truncated''
         | Some raw \<Rightarrow> Inr (Ip (V6 (be_val raw)), 16))
      else if atyp = 0x03 then
        (case uncons data of
           None \<Rightarrow> Inl ''SOCKS5 domain length is missing''
         | Some (l, _) \<Rightarrow>
             let domain_len = unat l in
             (case get_range 1 (1 + domain_len) data of
                None \<Rightarrow> Inl ''SOCKS5 domain bytes are truncated''
              | Some domain_raw \<Rightarrow>
                  (case from_utf8 domain_raw of
                     None \<Rightarrow> Inl ''invalid UTF-8 SOCKS5 domain''
                   | Some domain \<Rightarrow> Inr (Name domain, 1 + domain_len))))
      else Inl ''unsupported SOCKS5 UDP address type'')"

definition parse_socks5_udp_request :: "byte list \<Rightarrow> err + (host \<times> u16 \<times> byte list \<times> byte)" where
  "parse_socks5_udp_request packet =
     (if length packet < 4 then Inl ''SOCKS5 UDP packet too short''
      else if packet ! 0 \<noteq> 0 \<or> packet ! 1 \<noteq> 0 then Inl ''SOCKS5 UDP packet has invalid RSV''
      else
        let frag = packet ! 2 in
        (case parse_socks5_host_from_bytes (packet ! 3) (drop 4 packet) of
           Inl e \<Rightarrow> Inl e
         | Inr (host, addr_end) \<Rightarrow>
             (case get_range (addr_end + 4) (addr_end + 6) packet of
                None \<Rightarrow> Inl ''SOCKS5 UDP packet missing destination port''
              | Some port_slice \<Rightarrow>
                  let port = be_val [port_slice ! 0, port_slice ! 1] in
                  (case get_from (addr_end + 6) packet of
                     None \<Rightarrow> Inl ''SOCKS5 UDP packet missing payload''
                   | Some payload \<Rightarrow> Inr (host, port, payload, frag)))))"

definition build_socks5_udp_response :: "sockaddr \<Rightarrow> byte list \<Rightarrow> byte list" where
  "build_socks5_udp_response source payload =
     [0x00, 0x00, 0x00]
     @ (case sa_ip source of V4 ip \<Rightarrow> 0x01 # octets4 ip | V6 ip \<Rightarrow> 0x04 # octets6 ip)
     @ be_bytes 2 (sa_port source)
     @ payload"

section \<open>HTTP CONNECT\<close>

fun find_subsequence :: "byte list \<Rightarrow> byte list \<Rightarrow> nat option" where
  "find_subsequence data needle =
     (if length data < length needle then None
      else if take (length needle) data = needle then Some 0
      else (case data of [] \<Rightarrow> None | _ # r \<Rightarrow> map_option Suc (find_subsequence r needle)))"

declare find_subsequence.simps [simp del]

definition parse_authority :: "str \<Rightarrow> err + (host \<times> u16)" where
  "parse_authority authority =
     (if authority = [] then Inl ''empty CONNECT authority''
      else if starts_with (ascii ''['') authority then
        (case position ((=) 93) authority of
           None \<Rightarrow> Inl ''invalid bracketed IPv6 CONNECT authority''
         | Some host_end \<Rightarrow>
             let h = take (host_end - 1) (drop 1 authority) in
             (case get_from (host_end + 1) authority of
                None \<Rightarrow> Inl ''missing CONNECT authority suffix''
              | Some remainder \<Rightarrow>
                  (case strip_prefix (ascii '':'') remainder of
                     None \<Rightarrow> Inl ''missing port delimiter in CONNECT authority''
                   | Some port_part \<Rightarrow>
                       (case parse_ip h of
                          None \<Rightarrow> Inl ''invalid IPv6 in CONNECT authority''
                        | Some ip \<Rightarrow>
                            (case parse_u16 port_part of
                               None \<Rightarrow> Inl ''invalid CONNECT port''
                             | Some port \<Rightarrow> Inr (Ip ip, port))))))
      else
        (case rsplit_once 58 authority of
           None \<Rightarrow> Inl ''CONNECT authority must be host:port''
         | Some (host_part, port_part) \<Rightarrow>
             (case parse_u16 port_part of
                None \<Rightarrow> Inl ''invalid CONNECT port''
              | Some port \<Rightarrow>
                  (case parse_ip host_part of
                     Some ip \<Rightarrow> Inr (Ip ip, port)
                   | None \<Rightarrow> Inr (Name host_part, port)))))"

section \<open>Lemmas\<close>

lemma be_val_two: "[be_bytes 2 (p :: u16) ! 0, be_bytes 2 p ! Suc 0] = be_bytes 2 p"
  by (simp add: be_bytes_def upt_rec)

lemma nth4: "length r = 4 \<Longrightarrow> [r ! 0, r ! Suc 0, r ! 2, r ! 3] = r"
  by (cases r; simp; rename_tac a s; case_tac s; simp; rename_tac b t; case_tac t; simp;
      rename_tac c u; case_tac u; simp)

lemma parse_host_v4:
  "parse_socks5_host_from_bytes 1 (octets4 a @ r) = Inr (Ip (V4 a), 4)"
  using nth4 [of "octets4 a"]
  by (simp add: parse_socks5_host_from_bytes_def get_range_def)

lemma parse_host_v6:
  "parse_socks5_host_from_bytes 4 (octets6 a @ r) = Inr (Ip (V6 a), 16)"
  by (simp add: parse_socks5_host_from_bytes_def get_range_def)

lemma parse_build_udp:
  "parse_socks5_udp_request (build_socks5_udp_response src payload)
     = Inr (Ip (sa_ip src), sa_port src, payload, 0)"
  by (cases "sa_ip src")
     (simp_all add: parse_socks5_udp_request_def build_socks5_udp_response_def parse_host_v4
       parse_host_v6 get_range_def get_from_def be_val_two be_val_be_bytes_full)

lemma find_subsequence_SomeD:
  "find_subsequence data needle = Some i \<Longrightarrow>
   take (length needle) (drop i data) = needle \<and> i + length needle \<le> length data
   \<and> (\<forall>j<i. take (length needle) (drop j data) \<noteq> needle)"
proof (induction data needle arbitrary: i rule: find_subsequence.induct)
  case (1 data needle)
  show ?case
  proof (cases "length data < length needle \<or> take (length needle) data = needle \<or> data = []")
    case True
    with 1(2) show ?thesis by (subst (asm) find_subsequence.simps) (auto split: if_splits)
  next
    case False
    then obtain x r where d: "data = x # r" by (cases data) auto
    with False 1(2) obtain k where k: "find_subsequence r needle = Some k" "i = Suc k"
      by (subst (asm) find_subsequence.simps) auto
    have "take (length needle) (drop k r) = needle \<and> k + length needle \<le> length r
        \<and> (\<forall>j<k. take (length needle) (drop j r) \<noteq> needle)"
      using 1(1) [OF _ _ d k(1)] False by simp
    then show ?thesis using False d k(2) by (auto simp: less_Suc_eq_0_disj)
  qed
qed

lemma find_subsequence_NoneD:
  "find_subsequence data needle = None \<Longrightarrow> needle \<noteq> [] \<Longrightarrow>
   take (length needle) (drop j data) \<noteq> needle"
proof (induction data needle arbitrary: j rule: find_subsequence.induct)
  case (1 data needle)
  show ?case
  proof (cases "length data < length needle")
    case True
    then have "length (take (length needle) (drop j data)) < length needle" by simp
    then show ?thesis by auto
  next
    case False
    with 1(3) obtain x r where d: "data = x # r" by (cases data) auto
    from 1(2) False d have n: "take (length needle) data \<noteq> needle" "find_subsequence r needle = None"
      by (subst (asm) find_subsequence.simps; auto split: if_splits)+
    show ?thesis
    proof (cases j)
      case (Suc k)
      then show ?thesis using 1(1) [OF False n(1) d n(2) 1(3), of k] d by simp
    qed (use n in simp)
  qed
qed

lemma dec_no_colon: "(58 :: byte) \<notin> set (dec n)"
  using dec_digits by (fastforce simp: is_digit_def between_def)

lemma parse_authority_unbracketed:
  assumes "\<not> starts_with (ascii ''['') h"
  shows "parse_authority (h @ 58 # dec (unat p))
           = Inr (case parse_ip h of Some ip \<Rightarrow> Ip ip | None \<Rightarrow> Name h, p)"
proof -
  have "\<not> starts_with (ascii ''['') (h @ 58 # dec (unat p))"
    using assms by (cases h) (auto simp: starts_with_def)
  then show ?thesis
    by (simp add: parse_authority_def rsplit_once_eq dec_no_colon parse_u16_dec split: option.split)
qed

lemma parse_authority_bracketed:
  assumes "93 \<notin> set h" and "parse_ip h = Some ip"
  shows "parse_authority (91 # h @ 93 # 58 # dec (unat p)) = Inr (Ip ip, p)"
proof -
  have "position ((=) 93) (91 # h @ 93 # 58 # dec (unat p)) = Some (Suc (length h))"
    using position_append [of "91 # h" "(=) 93" "93 # 58 # dec (unat p)"] assms(1) by auto
  then show ?thesis
    by (simp add: parse_authority_def starts_with_def get_from_def assms(2) parse_u16_dec)
qed

lemma parse_authority_port:
  assumes "parse_authority s = Inr (h, p)"
  shows "\<exists>a d. s = a @ 58 # d \<and> parse_u16 d = Some p"
proof (cases "starts_with (ascii ''['') s")
  case True
  with assms obtain e r d where "get_from (e + 1) s = Some r" "strip_prefix [58] r = Some d"
    "parse_u16 d = Some p"
    by (auto simp: parse_authority_def Let_def split: if_splits option.splits)
  then have "s = take (e + 1) s @ 58 # d"
    by (metis append_Cons append_Nil append_take_drop_id get_from_def option.distinct(1)
        option.inject strip_prefix_Some_iff)
  with \<open>parse_u16 d = Some p\<close> show ?thesis by metis
next
  case False
  with assms obtain a d where "rsplit_once 58 s = Some (a, d)" "parse_u16 d = Some p"
    by (auto simp: parse_authority_def Let_def split: if_splits option.splits)
  with rsplit_once_SomeD [of 58 s a d] show ?thesis by auto
qed

end
