(* ===== verification/NetIO.thy ===== *)
theory NetIO
  imports SocksWire
begin

text \<open>
  Effects of one TCP session as explicit state passing. The session state holds the bytes the client
  has sent and the proxy has not read yet, the number of reads and writes made, and the trace of the
  externally visible events in the order in which they happened. Everything the operating system, the
  network and the DNS resolver decide is an argument, the environment: how much data each read
  returns, which writes fail, what a name resolves to, whether a connection attempt succeeds, fails
  or times out. The theorems quantify over it.

  A computation returns \<open>Inl\<close> of an error (the \<open>anyhow\<close> error that ends the session) or \<open>Inr\<close> of a
  value; \<open>andthen\<close> is the \<open>?\<close> operator followed by the rest of the function.
\<close>

section \<open>Events, environment, state\<close>

datatype event =
    ClientWrite "byte list"
  | Lookup str
  | LogRequest sockaddr host u16 string sockaddr string
  | TcpConnect sockaddr
  | TcpListen sockaddr
  | UpstreamWrite "byte list"
  | Tunnel "byte list"
  | UdpBind sockaddr
  | UdpToTarget sockaddr "byte list"
  | UdpToClient sockaddr "byte list"

text \<open>What the UDP relay of a SOCKS5 association waits for: its control connection (a read of some
  bytes, an end of file as 0, or an error) and its UDP socket (a datagram and its source, or an
  error).\<close>

datatype relay_event =
    ControlRead "nat option"
  | UdpRecv "(byte list \<times> sockaddr) option"

datatype 'a outcome = TimedOut | Failed | Done 'a

record env =
  e_peek :: "nat outcome"
  e_chunk :: "nat \<Rightarrow> nat"
  e_reset :: bool
  e_write_ok :: "nat \<Rightarrow> bool"
  e_lookup :: "str \<Rightarrow> ipaddr list option"
  e_connect :: "sockaddr \<Rightarrow> sockaddr option outcome"
  e_listen :: "sockaddr \<Rightarrow> sockaddr option option"
  e_accept :: "sockaddr outcome"
  e_upstream_write_ok :: bool
  e_tunnel_ok :: bool
  e_control_local :: "sockaddr option"
  e_udp_bind :: "sockaddr \<Rightarrow> sockaddr option option"
  e_relay :: "relay_event list"

record session =
  unread :: "byte list"
  reads :: nat
  writes :: nat
  trace :: "event list"

type_synonym 'a io = "(session, 'a) effect"

section \<open>Computations\<close>

definition emit :: "event \<Rightarrow> unit io" where
  "emit e = (\<lambda>s. (Inr (), s\<lparr>trace := trace s @ [e]\<rparr>))"

section \<open>Client stream\<close>

text \<open>\<open>read_exact\<close>: all \<open>n\<close> bytes, or an error when the stream ends first.\<close>

definition read_exact :: "nat \<Rightarrow> byte list io" where
  "read_exact n = (\<lambda>s.
     if length (unread s) < n then (Inl ''unexpected end of file'', s\<lparr>unread := []\<rparr>)
     else (Inr (take n (unread s)), s\<lparr>unread := drop n (unread s)\<rparr>))"

text \<open>
  \<open>read\<close> into a buffer of \<open>cap\<close> bytes: at least one byte while the client still sends, none at the
  end of the stream (or an error, when the connection was reset).
\<close>

definition read_some :: "env \<Rightarrow> nat \<Rightarrow> byte list io" where
  "read_some env cap = (\<lambda>s.
     let n = min cap (max 1 (e_chunk env (reads s))); s' = s\<lparr>reads := Suc (reads s)\<rparr> in
     if unread s = [] then (if e_reset env then Inl ''connection reset'' else Inr [], s')
     else (Inr (take n (unread s)), s'\<lparr>unread := drop n (unread s)\<rparr>))"

text \<open>\<open>peek\<close> does not consume.\<close>

definition peek_client :: "env \<Rightarrow> nat \<Rightarrow> byte list io" where
  "peek_client env cap = (\<lambda>s.
     case e_peek env of
       TimedOut \<Rightarrow> (Inl ''handshake probe timeout'', s)
     | Failed \<Rightarrow> (Inl ''handshake probe failed'', s)
     | Done n \<Rightarrow> (Inr (take (min cap (max 1 n)) (unread s)), s))"

definition write_all :: "env \<Rightarrow> byte list \<Rightarrow> unit io" where
  "write_all env bs = (\<lambda>s.
     let s' = s\<lparr>writes := Suc (writes s)\<rparr> in
     if e_write_ok env (writes s) then (Inr (), s'\<lparr>trace := trace s @ [ClientWrite bs]\<rparr>)
     else (Inl ''broken pipe'', s'))"

section \<open>Upstream side\<close>

text \<open>\<open>timeout(connect_timeout, TcpStream::connect(target))\<close>.\<close>

definition tcp_connect :: "env \<Rightarrow> sockaddr \<Rightarrow> sockaddr option outcome io" where
  "tcp_connect env target =
     andthen (emit (TcpConnect target)) (\<lambda>_. ret (e_connect env target))"

definition upstream_write_all :: "env \<Rightarrow> byte list \<Rightarrow> unit io" where
  "upstream_write_all env bs =
     (if e_upstream_write_ok env then emit (UpstreamWrite bs) else bail ''broken pipe'')"

text \<open>\<open>tunnel\<close>: from here the two sockets are copied into each other; the client bytes that were not
  read yet are the first to go upstream.\<close>

definition tunnel :: "env \<Rightarrow> unit io" where
  "tunnel env = (\<lambda>s.
     let s' = s\<lparr>unread := [], trace := trace s @ [Tunnel (unread s)]\<rparr> in
     if e_tunnel_ok env then (Inr (), s') else (Inl ''tunnel copy failed'', s'))"

section \<open>Name resolution\<close>

text \<open>
  \<open>Resolver::resolve_first\<close>: a literal address is taken as it is, any other name goes to the DNS
  library (the environment), whose first answer is used.
\<close>

definition resolve_first :: "env \<Rightarrow> str \<Rightarrow> u16 \<Rightarrow> sockaddr io" where
  "resolve_first env h port =
     (case parse_ip h of
        Some ip \<Rightarrow> ret (SocketAddr ip port)
      | None \<Rightarrow>
          andthen (emit (Lookup h)) (\<lambda>_.
          case e_lookup env h of
            None \<Rightarrow> bail ''dns lookup failed''
          | Some ips \<Rightarrow>
              (case ips of
                 [] \<Rightarrow> bail ''dns response was empty''
               | ip # _ \<Rightarrow> ret (SocketAddr ip port))))"

fun resolve :: "env \<Rightarrow> host \<Rightarrow> u16 \<Rightarrow> sockaddr io" where
  "resolve env (Ip ip) port = ret (SocketAddr ip port)"
| "resolve env (Name name) port = resolve_first env name port"

definition log_request :: "sockaddr \<Rightarrow> host \<Rightarrow> u16 \<Rightarrow> string \<Rightarrow> sockaddr \<Rightarrow> string \<Rightarrow> unit io" where
  "log_request source host port transport resolved proxy =
     emit (LogRequest source host port transport resolved proxy)"

section \<open>A predicate on the events of a computation\<close>

text \<open>
  \<open>emits P m\<close>: whatever state \<open>m\<close> starts in, it only appends to the trace, and every event it
  appends satisfies \<open>P\<close>. The rules below follow the syntax of the handlers, so a safety statement
  about a handler is proved by applying them.
\<close>

definition emits :: "(event \<Rightarrow> bool) \<Rightarrow> 'a io \<Rightarrow> bool" where
  "emits P m \<longleftrightarrow> (\<forall>s. \<exists>es. trace (snd (m s)) = trace s @ es \<and> list_all P es)"

lemma emitsI: "(\<And>s. \<exists>es. trace (snd (m s)) = trace s @ es \<and> list_all P es) \<Longrightarrow> emits P m"
  by (simp add: emits_def)

lemma emits_silent: "(\<And>s. trace (snd (m s)) = trace s) \<Longrightarrow> emits P m"
  by (rule emitsI) simp

lemma emits_bail [emits_intros]: "emits P (bail e)"
  by (rule emits_silent) (simp add: bail_def)

lemma emits_ret [emits_intros]: "emits P (ret x)"
  by (rule emits_silent) (simp add: ret_def)

lemma emits_lift_result [emits_intros]: "emits P (lift_result r)"
  by (rule emits_silent) (simp add: lift_result_def)

lemma emits_emit [emits_intros]: "P e \<Longrightarrow> emits P (emit e)"
  by (rule emitsI) (simp add: emit_def)

lemma emits_andthen [emits_intros]:
  assumes "emits P m" and "\<And>x. emits P (f x)"
  shows "emits P (andthen m f)"
proof (rule emitsI)
  fix s
  from assms(1) obtain es where es: "trace (snd (m s)) = trace s @ es" "list_all P es"
    unfolding emits_def by blast
  show "\<exists>es. trace (snd (andthen m f s)) = trace s @ es \<and> list_all P es"
  proof (cases "m s")
    case (Pair r s')
    show ?thesis
    proof (cases r)
      case (Inl e)
      with Pair es show ?thesis by (simp add: andthen_def)
    next
      case (Inr x)
      from assms(2) obtain es' where "trace (snd (f x s')) = trace s' @ es'" "list_all P es'"
        unfolding emits_def by blast
      with Pair Inr es show ?thesis by (intro exI [of _ "es @ es'"]) (simp add: andthen_def)
    qed
  qed
qed

lemma emits_try_else [emits_intros]:
  assumes "emits P m" and "\<And>x. emits P (f x)" and "\<And>e. emits P (g e)"
  shows "emits P (try_else m f g)"
proof (rule emitsI)
  fix s
  from assms(1) obtain es where es: "trace (snd (m s)) = trace s @ es" "list_all P es"
    unfolding emits_def by blast
  obtain r s' where ms: "m s = (r, s')" by (cases "m s")
  have "\<exists>es'. trace (snd (try_else m f g s)) = trace s' @ es' \<and> list_all P es'"
    using assms(2,3) ms unfolding emits_def by (cases r) (auto simp: try_else_def)
  then obtain es' where "trace (snd (try_else m f g s)) = trace s' @ es'" "list_all P es'" by blast
  with ms es show "\<exists>es. trace (snd (try_else m f g s)) = trace s @ es \<and> list_all P es"
    by (intro exI [of _ "es @ es'"]) simp
qed

lemma emits_with_context [emits_intros]: "emits P m \<Longrightarrow> emits P (with_context msg m)"
  unfolding emits_def
proof
  fix s
  assume "\<forall>s. \<exists>es. trace (snd (m s)) = trace s @ es \<and> list_all P es"
  then obtain es where "trace (snd (m s)) = trace s @ es" "list_all P es" by blast
  moreover have "trace (snd (with_context msg m s)) = trace (snd (m s))"
    by (auto simp: with_context_def split: prod.splits sum.splits)
  ultimately show "\<exists>es. trace (snd (with_context msg m s)) = trace s @ es \<and> list_all P es" by simp
qed

lemma emits_read_exact [emits_intros]: "emits P (read_exact n)"
  by (rule emits_silent) (simp add: read_exact_def)

lemma emits_read_some [emits_intros]: "emits P (read_some env cap)"
  by (rule emits_silent) (simp add: read_some_def Let_def)

lemma emits_peek [emits_intros]: "emits P (peek_client env cap)"
  by (rule emits_silent) (simp add: peek_client_def split: outcome.splits)

lemma emits_write_all [emits_intros]: "P (ClientWrite bs) \<Longrightarrow> emits P (write_all env bs)"
  by (rule emitsI) (simp add: write_all_def Let_def)

lemma emits_tcp_connect [emits_intros]: "P (TcpConnect a) \<Longrightarrow> emits P (tcp_connect env a)"
  unfolding tcp_connect_def by (intro emits_intros)

lemma emits_upstream_write_all [emits_intros]:
  "P (UpstreamWrite bs) \<Longrightarrow> emits P (upstream_write_all env bs)"
  unfolding upstream_write_all_def by (auto intro: emits_intros)

lemma emits_tunnel [emits_intros]: "(\<And>bs. P (Tunnel bs)) \<Longrightarrow> emits P (tunnel env)"
  by (rule emitsI) (simp add: tunnel_def Let_def)

lemma emits_resolve [emits_intros]: "(\<And>n. P (Lookup n)) \<Longrightarrow> emits P (resolve env h port)"
  by (cases h) (auto simp: resolve_first_def intro!: emits_intros split: option.splits list.splits)

lemma emits_log_request [emits_intros]:
  "P (LogRequest a h p t r x) \<Longrightarrow> emits P (log_request a h p t r x)"
  unfolding log_request_def by (intro emits_intros)

lemma emits_if [emits_intros]:
  "(b \<Longrightarrow> emits P m) \<Longrightarrow> (\<not> b \<Longrightarrow> emits P m') \<Longrightarrow> emits P (if b then m else m')"
  by simp

lemma emits_option [emits_intros]:
  "emits P m \<Longrightarrow> (\<And>x. emits P (f x)) \<Longrightarrow> emits P (case v of None \<Rightarrow> m | Some x \<Rightarrow> f x)"
  by (simp split: option.split)

lemma emits_outcome [emits_intros]:
  "emits P m \<Longrightarrow> emits P m' \<Longrightarrow> (\<And>x. emits P (f x)) \<Longrightarrow>
   emits P (case v of TimedOut \<Rightarrow> m | Failed \<Rightarrow> m' | Done x \<Rightarrow> f x)"
  by (simp split: outcome.split)

lemma emits_prod [emits_intros]:
  "(\<And>a b. emits P (f a b)) \<Longrightarrow> emits P (case v of (a, b) \<Rightarrow> f a b)"
  by (simp split: prod.split)

lemma emits_sum [emits_intros]:
  "(\<And>a. emits P (f a)) \<Longrightarrow> (\<And>b. emits P (g b)) \<Longrightarrow> emits P (case v of Inl a \<Rightarrow> f a | Inr b \<Rightarrow> g b)"
  by (simp split: sum.split)

lemma emits_let [emits_intros]: "(\<And>x. x = v \<Longrightarrow> emits P (f x)) \<Longrightarrow> emits P (let x = v in f x)"
  by (simp add: Let_def)

text \<open>Running a computation step by step on a concrete session.\<close>

lemmas io_defs =
  ret_def bail_def andthen_def try_else_def with_context_def emit_def lift_result_def read_exact_def
  read_some_def peek_client_def write_all_def tcp_connect_def upstream_write_all_def tunnel_def
  resolve_first_def log_request_def

end
