(* ===== verification/Config.thy ===== *)
theory Config
  imports RustStd
begin

text \<open>
  \<open>src/config.rs\<close>: the runtime configuration that the command line produces and the methods the
  servers ask it. Durations are milliseconds.
\<close>

datatype log_level = Trace | Debug | Info | Warn | Error

datatype enable_protocol = H3

datatype disable_protocol = Http

record app_config =
  listen :: sockaddr
  dns_server :: "sockaddr option"
  handshake_timeout_ms :: u64
  connect_timeout_ms :: u64
  log_level :: log_level
  auto_upgrade :: "str option"
  pre_release :: bool
  no_loopback :: bool
  acl_no_rfc6890 :: bool
  enable :: "enable_protocol option"
  key :: "str option"
  cert_chain :: "str option"
  auth_token :: "str option"
  h3_bind :: sockaddr
  ip_pool :: str
  disable :: "disable_protocol option"

text \<open>The level of the tracing library that a log level stands for.\<close>

datatype tracing_level = TRACE | DEBUG | INFO | WARN | ERROR

fun level_of :: "log_level \<Rightarrow> tracing_level" where
  "level_of Trace = TRACE"
| "level_of Debug = DEBUG"
| "level_of Info = INFO"
| "level_of Warn = WARN"
| "level_of Error = ERROR"

text \<open>The subcommands.\<close>

datatype service_action =
    Install (install_bin_path: "str option") (install_args: "str list")
  | Enable
  | Start
  | Stop
  | Uninstall

record service_command =
  action :: service_action

datatype subcommand = Service service_command

record cli =
  cli_config :: app_config
  sub_command :: "subcommand option"

text \<open>What the command-line parser promises about the options that \<open>--enable h3\<close> requires.\<close>

definition cli_accepts :: "app_config \<Rightarrow> bool" where
  "cli_accepts c \<longleftrightarrow>
     (enable c = Some H3 \<longrightarrow> key c \<noteq> None \<and> cert_chain c \<noteq> None \<and> auth_token c \<noteq> None)"

definition handshake_timeout :: "app_config \<Rightarrow> u64" where
  "handshake_timeout c = handshake_timeout_ms c"

definition connect_timeout :: "app_config \<Rightarrow> u64" where
  "connect_timeout c = connect_timeout_ms c"

definition block_special_addrs :: "app_config \<Rightarrow> bool" where
  "block_special_addrs c = (no_loopback c \<or> acl_no_rfc6890 c)"

definition run_tcp_proxy :: "app_config \<Rightarrow> bool" where
  "run_tcp_proxy c = (disable c \<noteq> Some Http)"

definition validate :: "app_config \<Rightarrow> string + unit" where
  "validate c =
     (if \<not> run_tcp_proxy c \<and> enable c \<noteq> Some H3
      then Inl ''--disable http requires --enable h3: nothing would be listening''
      else Inr ())"

text \<open>The defaults of the command line.\<close>

definition default_config :: app_config where
  "default_config = \<lparr>listen = SocketAddr (V4 0) 1080, dns_server = None,
     handshake_timeout_ms = 5000, connect_timeout_ms = 10000, log_level = Info,
     auto_upgrade = None, pre_release = False, no_loopback = False, acl_no_rfc6890 = False,
     enable = None, key = None, cert_chain = None, auth_token = None,
     h3_bind = SocketAddr (V4 0) 443, ip_pool = ascii ''198.18.0.0/15'', disable = None\<rparr>"

end
