(* ===== verification/UdpRelay.thy ===== *)
theory UdpRelay
  imports NetIO Config
begin

text \<open>
  The UDP relay of a SOCKS5 UDP association (\<open>handle_socks5_udp_associate\<close> in \<open>src/server.rs\<close>): its
  state, one step per datagram, the loop over the events of the control connection and the UDP
  socket. A send that fails is only logged by the code, so the model records the attempt.
\<close>

section \<open>State and steps\<close>

record relay =
  client_udp_addr :: "sockaddr option"
  target_cache :: "host \<times> u16 \<Rightarrow> sockaddr option"

definition relay_init :: "host \<Rightarrow> u16 \<Rightarrow> relay" where
  "relay_init requested_host requested_port =
     \<lparr>client_udp_addr =
        (case requested_host of
           Ip ip \<Rightarrow> if requested_port \<noteq> 0 then Some (SocketAddr ip requested_port) else None
         | Name _ \<Rightarrow> None),
      target_cache = (\<lambda>_. None)\<rparr>"

definition relay_datagram ::
    "env \<Rightarrow> app_config \<Rightarrow> sockaddr \<Rightarrow> relay \<Rightarrow> byte list \<Rightarrow> sockaddr \<Rightarrow> relay io" where
  "relay_datagram env config peer_addr st packet source =
     (case parse_socks5_udp_request packet of
        Inr (host, port, payload, frag) \<Rightarrow>
          if frag \<noteq> 0 then ret st
          else
            let st = st\<lparr>client_udp_addr := Some source\<rparr> in
            (case target_cache st (host, port) of
               Some t \<Rightarrow> andthen (emit (UdpToTarget t payload)) (\<lambda>_. ret st)
             | None \<Rightarrow>
                 try_else (resolve env host port)
                   (\<lambda>t. andthen (log_request peer_addr host port ''udp'' t ''socks5'') (\<lambda>_.
                      if block_special_addrs config \<and> is_rfc6890_special (sa_ip t) then ret st
                      else
                        let st = st\<lparr>target_cache := (target_cache st)((host, port) \<mapsto> t)\<rparr> in
                        andthen (emit (UdpToTarget t payload)) (\<lambda>_. ret st)))
                   (\<lambda>err. ret st))
      | Inl _ \<Rightarrow>
          (case client_udp_addr st of
             Some client_addr \<Rightarrow>
               andthen (emit (UdpToClient client_addr (build_socks5_udp_response source packet)))
                 (\<lambda>_. ret st)
           | None \<Rightarrow> ret st))"

text \<open>A datagram is received into a buffer of \<open>UDP_PACKET_MAX_LEN\<close> bytes.\<close>

fun relay_loop :: "env \<Rightarrow> app_config \<Rightarrow> sockaddr \<Rightarrow> relay \<Rightarrow> relay_event list \<Rightarrow> unit io" where
  "relay_loop env config peer_addr st [] = ret ()"
| "relay_loop env config peer_addr st (ControlRead None # evs) =
     bail ''failed reading SOCKS5 UDP control channel''"
| "relay_loop env config peer_addr st (ControlRead (Some n) # evs) =
     (if n = 0 then ret () else relay_loop env config peer_addr st evs)"
| "relay_loop env config peer_addr st (UdpRecv None # evs) =
     relay_loop env config peer_addr st evs"
| "relay_loop env config peer_addr st (UdpRecv (Some (packet, source)) # evs) =
     andthen (relay_datagram env config peer_addr st (take UDP_PACKET_MAX_LEN packet) source)
       (\<lambda>st'. relay_loop env config peer_addr st' evs)"

text \<open>Socket set-up, the reply, and the loop.\<close>

definition handle_socks5_udp_associate ::
    "env \<Rightarrow> app_config \<Rightarrow> sockaddr \<Rightarrow> host \<Rightarrow> u16 \<Rightarrow> unit io" where
  "handle_socks5_udp_associate env config peer_addr requested_host requested_port =
     (case e_control_local env of
        None \<Rightarrow> bail ''failed to read control socket local addr''
      | Some control_local \<Rightarrow>
          let udp_bind_addr = (case sa_ip control_local of V4 _ \<Rightarrow> unspecified_v4 | V6 _ \<Rightarrow> unspecified_v6) in
          (case e_udp_bind env udp_bind_addr of
             None \<Rightarrow> bail ''failed to bind UDP relay socket''
           | Some local \<Rightarrow>
               andthen (emit (UdpBind udp_bind_addr)) (\<lambda>_.
               case local of
                 None \<Rightarrow> bail ''failed to read UDP relay local addr''
               | Some udp_local \<Rightarrow>
                   let reply_addr = SocketAddr (sa_ip control_local) (sa_port udp_local) in
                   andthen (write_all env (socks5_reply 0x00 reply_addr)) (\<lambda>_.
                   relay_loop env config peer_addr (relay_init requested_host requested_port)
                     (e_relay env)))))"

section \<open>The relay never sends to a filtered address\<close>

definition cache_ok :: "app_config \<Rightarrow> relay \<Rightarrow> bool" where
  "cache_ok config st \<longleftrightarrow>
     (\<forall>k t. target_cache st k = Some t \<longrightarrow>
        \<not> (block_special_addrs config \<and> is_rfc6890_special (sa_ip t)))"

text \<open>\<open>bs\<close> is the return path's form of a datagram that came in: it is no request, and stands behind a
  header with its source.\<close>

definition returns_datagram :: "relay_event list \<Rightarrow> byte list \<Rightarrow> bool" where
  "returns_datagram evs bs \<longleftrightarrow>
     (\<exists>packet source e. UdpRecv (Some (packet, source)) \<in> set evs
        \<and> parse_socks5_udp_request (take UDP_PACKET_MAX_LEN packet) = Inl e
        \<and> bs = build_socks5_udp_response source (take UDP_PACKET_MAX_LEN packet))"

text \<open>What a datagram step promises: the events it appends are allowed and the cache stays clean.\<close>

definition target_allowed :: "app_config \<Rightarrow> relay_event list \<Rightarrow> event \<Rightarrow> bool" where
  "target_allowed config evs e =
     (case e of
        TcpConnect a \<Rightarrow> \<not> (block_special_addrs config \<and> is_rfc6890_special (sa_ip a))
      | UdpToTarget a _ \<Rightarrow> \<not> (block_special_addrs config \<and> is_rfc6890_special (sa_ip a))
      | UdpToClient _ bs \<Rightarrow> returns_datagram evs bs
      | _ \<Rightarrow> True)"

lemma cache_ok_init: "cache_ok config (relay_init h p)"
  by (simp add: cache_ok_def relay_init_def)

lemma cache_ok_client [simp]: "cache_ok config (st\<lparr>client_udp_addr := c\<rparr>) = cache_ok config st"
  by (simp add: cache_ok_def)

lemma cache_ok_lookup:
  "cache_ok config st \<Longrightarrow> target_cache st k = Some t \<Longrightarrow>
   \<not> (block_special_addrs config \<and> is_rfc6890_special (sa_ip t))"
  unfolding cache_ok_def by blast

lemma cache_ok_insert:
  assumes "cache_ok config st" and "target_cache st' = (target_cache st)(k \<mapsto> t)"
    and "\<not> (block_special_addrs config \<and> is_rfc6890_special (sa_ip t))"
  shows "cache_ok config st'"
  unfolding cache_ok_def
proof (intro allI impI)
  fix k' t' assume "target_cache st' k' = Some t'"
  then show "\<not> (block_special_addrs config \<and> is_rfc6890_special (sa_ip t'))"
    using assms(2,3) cache_ok_lookup [OF assms(1), of k' t'] by (simp split: if_splits)
qed

lemma cache_ok_learn:
  "cache_ok config st \<Longrightarrow> \<not> (block_special_addrs config \<and> is_rfc6890_special (sa_ip t)) \<Longrightarrow>
   cache_ok config (st\<lparr>client_udp_addr := c, target_cache := (target_cache st)(k \<mapsto> t)\<rparr>)"
  by (rule cache_ok_insert [of config st _ k t]) simp_all

text \<open>A result predicate: every value a computation can return satisfies \<open>Q\<close>.\<close>

definition returns :: "('a \<Rightarrow> bool) \<Rightarrow> 'a io \<Rightarrow> bool" where
  "returns Q m \<longleftrightarrow> (\<forall>s x s'. m s = (Inr x, s') \<longrightarrow> Q x)"

lemma returns_ret: "returns Q (ret x) = Q x"
  by (auto simp: returns_def ret_def)

lemma returns_andthen: "(\<And>x. returns Q (f x)) \<Longrightarrow> returns Q (andthen m f)"
  by (fastforce simp: returns_def andthen_def split: prod.splits sum.splits)

lemma returns_try_else:
  "(\<And>x. returns Q (f x)) \<Longrightarrow> (\<And>e. returns Q (g e)) \<Longrightarrow> returns Q (try_else m f g)"
  by (fastforce simp: returns_def try_else_def split: prod.splits sum.splits)

lemma emits_andthen_returns:
  assumes "emits P m" and "returns Q m" and "\<And>x. Q x \<Longrightarrow> emits P (f x)"
  shows "emits P (andthen m f)"
proof (rule emitsI)
  fix s
  obtain r s' where ms: "m s = (r, s')" by (cases "m s")
  from assms(1) ms obtain es where es: "trace s' = trace s @ es" "list_all P es"
    unfolding emits_def by (metis snd_conv)
  show "\<exists>es. trace (snd (andthen m f s)) = trace s @ es \<and> list_all P es"
  proof (cases r)
    case (Inl e)
    with ms es show ?thesis by (simp add: andthen_def)
  next
    case (Inr x)
    with assms(2) ms have "Q x" unfolding returns_def by blast
    from assms(3) [OF this] obtain es' where "trace (snd (f x s')) = trace s' @ es'" "list_all P es'"
      unfolding emits_def by blast
    with ms Inr es show ?thesis by (intro exI [of _ "es @ es'"]) (simp add: andthen_def)
  qed
qed

lemma returns_cache_ok:
  assumes "cache_ok config st"
  shows "returns (cache_ok config) (relay_datagram env config peer_addr st packet source)"
  using assms unfolding relay_datagram_def
  by (auto simp: Let_def returns_ret intro!: returns_andthen returns_try_else cache_ok_learn
      split: sum.split prod.split option.split)

lemma emits_datagram:
  assumes "cache_ok config st" and "UdpRecv (Some (packet, source)) \<in> set all"
  shows "emits (target_allowed config all)
    (relay_datagram env config peer_addr st (take UDP_PACKET_MAX_LEN packet) source)"
proof (cases "parse_socks5_udp_request (take UDP_PACKET_MAX_LEN packet)")
  case (Inl e)
  then have "returns_datagram all (build_socks5_udp_response source (take UDP_PACKET_MAX_LEN packet))"
    using assms(2) unfolding returns_datagram_def by blast
  with Inl show ?thesis unfolding relay_datagram_def
    by (auto simp: target_allowed_def intro!: emits_intros split: option.split)
next
  case (Inr r)
  then show ?thesis unfolding relay_datagram_def
    by (auto simp: Let_def target_allowed_def dest: cache_ok_lookup [OF assms(1)]
        intro!: emits_intros split: prod.split option.split)
qed

lemma emits_relay_loop:
  "cache_ok config st \<Longrightarrow> set evs \<subseteq> set all \<Longrightarrow>
   emits (target_allowed config all) (relay_loop env config peer_addr st evs)"
proof (induction env config peer_addr st evs rule: relay_loop.induct)
  case (5 env config peer_addr st packet source evs)
  from 5(3) have a: "UdpRecv (Some (packet, source)) \<in> set all" by simp
  show ?case unfolding relay_loop.simps
    by (rule emits_andthen_returns [OF emits_datagram [OF 5(2) a] returns_cache_ok [OF 5(2)]])
       (rule 5(1), use 5(3) in simp_all)
qed (auto intro: emits_intros)

lemma emits_udp_associate:
  "emits (target_allowed config (e_relay env)) (handle_socks5_udp_associate env config peer_addr h p)"
  unfolding handle_socks5_udp_associate_def
  by (auto simp: Let_def target_allowed_def intro!: emits_intros emits_relay_loop cache_ok_init
      split: option.split)

end
