(* ===== verification/TcpProxy.thy ===== *)
theory TcpProxy
  imports UdpRelay
begin

text \<open>
  The TCP listener's session handlers of \<open>src/server.rs\<close>: \<open>handle_client\<close> probes the first bytes and
  hands the session to the SOCKS4, SOCKS5 or HTTP CONNECT handler. Each handler is a computation on
  the session state of \<open>NetIO\<close>, with the guards, replies and early returns in the order of the code.
\<close>

section \<open>SOCKS5\<close>

definition send_socks5_reply :: "env \<Rightarrow> byte \<Rightarrow> sockaddr \<Rightarrow> unit io" where
  "send_socks5_reply env rep bound = write_all env (socks5_reply rep bound)"

definition read_socks5_host_from_stream :: "byte \<Rightarrow> host io" where
  "read_socks5_host_from_stream atyp =
     (if atyp = 0x01 then andthen (read_exact 4) (\<lambda>raw. ret (Ip (V4 (be_val raw))))
      else if atyp = 0x04 then andthen (read_exact 16) (\<lambda>raw. ret (Ip (V6 (be_val raw))))
      else if atyp = 0x03 then
        andthen (read_exact 1) (\<lambda>len.
        andthen (read_exact (unat (len ! 0))) (\<lambda>raw.
        case from_utf8 raw of
          None \<Rightarrow> bail ''invalid SOCKS5 domain''
        | Some domain \<Rightarrow> ret (Name domain)))
      else bail ''unsupported SOCKS5 address type'')"

definition read_socks5_target_from_stream :: "byte \<Rightarrow> (host \<times> u16) io" where
  "read_socks5_target_from_stream atyp =
     andthen (read_socks5_host_from_stream atyp) (\<lambda>host.
     andthen (read_exact 2) (\<lambda>port_raw.
     ret (host, be_val port_raw)))"

definition handle_socks5_bind :: "env \<Rightarrow> app_config \<Rightarrow> sockaddr \<Rightarrow> host \<Rightarrow> u16 \<Rightarrow> unit io" where
  "handle_socks5_bind env config peer_addr host port =
     andthen (resolve env host port) (\<lambda>expected_peer.
     andthen (log_request peer_addr host port ''tcp'' expected_peer ''socks5'') (\<lambda>_.
     if block_special_addrs config \<and> is_rfc6890_special (sa_ip expected_peer) then
       andthen (send_socks5_reply env 0x02 unspecified_v4) (\<lambda>_.
       bail ''SOCKS5 BIND blocked: target IP is a special-purpose (RFC 6890) address'')
     else
       let bind_addr = (case sa_ip expected_peer of V4 _ \<Rightarrow> unspecified_v4 | V6 _ \<Rightarrow> unspecified_v6) in
       (case e_listen env bind_addr of
          None \<Rightarrow> bail ''SOCKS5 BIND listen failed''
        | Some local \<Rightarrow>
            andthen (emit (TcpListen bind_addr)) (\<lambda>_.
            case local of
              None \<Rightarrow> bail ''failed to read SOCKS5 BIND local addr''
            | Some local_bind \<Rightarrow>
                andthen (send_socks5_reply env 0x00 local_bind) (\<lambda>_.
                case e_accept env of
                  TimedOut \<Rightarrow> bail ''SOCKS5 BIND accept timeout''
                | Failed \<Rightarrow> bail ''SOCKS5 BIND accept failed''
                | Done accepted_addr \<Rightarrow>
                    if sa_ip accepted_addr \<noteq> sa_ip expected_peer then
                      andthen (send_socks5_reply env 0x02 unspecified_v4) (\<lambda>_.
                      bail ''SOCKS5 BIND accepted unexpected peer'')
                    else
                      andthen (send_socks5_reply env 0x00 accepted_addr) (\<lambda>_.
                      tunnel env))))))"

definition handle_socks5_connect :: "env \<Rightarrow> app_config \<Rightarrow> sockaddr \<Rightarrow> host \<Rightarrow> u16 \<Rightarrow> unit io" where
  "handle_socks5_connect env config peer_addr host port =
     andthen (resolve env host port) (\<lambda>target_addr.
     andthen (log_request peer_addr host port ''tcp'' target_addr ''socks5'') (\<lambda>_.
     if block_special_addrs config \<and> is_rfc6890_special (sa_ip target_addr) then
       andthen (send_socks5_reply env 0x02 unspecified_v4) (\<lambda>_.
       bail ''SOCKS5 connection blocked: target IP is a special-purpose (RFC 6890) address'')
     else
       andthen (tcp_connect env target_addr) (\<lambda>connect_result.
       case connect_result of
         TimedOut \<Rightarrow> bail ''SOCKS5 connect timeout''
       | Failed \<Rightarrow>
           andthen (send_socks5_reply env 0x05 unspecified_v4) (\<lambda>_.
           bail ''SOCKS5 upstream connect failed'')
       | Done local_addr \<Rightarrow>
           (case local_addr of
              None \<Rightarrow> bail ''failed to get local bind addr''
            | Some local \<Rightarrow>
                andthen (send_socks5_reply env 0x00 local) (\<lambda>_.
                tunnel env)))))"

definition handle_socks5 :: "env \<Rightarrow> app_config \<Rightarrow> sockaddr \<Rightarrow> unit io" where
  "handle_socks5 env config peer_addr =
     andthen (read_exact 2) (\<lambda>header.
     if header ! 0 \<noteq> 0x05 then bail ''invalid SOCKS5 version byte''
     else
       andthen (read_exact (unat (header ! 1))) (\<lambda>methods.
       if 0x00 \<notin> set methods then
         andthen (write_all env [0x05, 0xFF]) (\<lambda>_.
         bail ''SOCKS5 no-auth method not offered'')
       else
         andthen (write_all env [0x05, 0x00]) (\<lambda>_.
         andthen (read_exact 4) (\<lambda>req_head.
         if req_head ! 0 \<noteq> 0x05 then bail ''invalid SOCKS5 request version''
         else if req_head ! 2 \<noteq> 0x00 then
           andthen (send_socks5_reply env 0x01 unspecified_v4) (\<lambda>_.
           bail ''invalid SOCKS5 reserved byte'')
         else
           let cmd = req_head ! 1 in
           try_else (read_socks5_target_from_stream (req_head ! 3))
             (\<lambda>(host, port).
                if cmd = 0x01 then handle_socks5_connect env config peer_addr host port
                else if cmd = 0x02 then handle_socks5_bind env config peer_addr host port
                else if cmd = 0x03 then handle_socks5_udp_associate env config peer_addr host port
                else
                  andthen (send_socks5_reply env 0x07 unspecified_v4) (\<lambda>_.
                  bail ''unsupported SOCKS5 command''))
             (\<lambda>err.
                andthen (send_socks5_reply env 0x08 unspecified_v4) (\<lambda>_.
                bail err))))))"

section \<open>SOCKS4\<close>

definition send_socks4_reply :: "env \<Rightarrow> byte \<Rightarrow> unit io" where
  "send_socks4_reply env status = write_all env (socks4_reply status)"

text \<open>
  The loop of \<open>read_null_terminated\<close>; \<open>left\<close> is \<open>max_len - out.len()\<close>, which the first guard of the
  loop body compares with 0.
\<close>

fun read_null_terminated_loop :: "nat \<Rightarrow> byte list \<Rightarrow> byte list io" where
  "read_null_terminated_loop 0 out = bail ''null-terminated field exceeds max length''"
| "read_null_terminated_loop (Suc left) out =
     andthen (read_exact 1) (\<lambda>byte.
     if byte ! 0 = 0 then ret out
     else read_null_terminated_loop left (out @ [byte ! 0]))"

definition read_null_terminated :: "nat \<Rightarrow> byte list io" where
  "read_null_terminated max_len = read_null_terminated_loop max_len []"

definition handle_socks4 :: "env \<Rightarrow> app_config \<Rightarrow> sockaddr \<Rightarrow> unit io" where
  "handle_socks4 env config peer_addr =
     andthen (read_exact 8) (\<lambda>req.
     if req ! 0 \<noteq> 0x04 then bail ''invalid SOCKS4 version byte''
     else if req ! 1 \<noteq> 0x01 then
       andthen (send_socks4_reply env 0x5B) (\<lambda>_. bail ''unsupported SOCKS4 command'')
     else
       let port = be_val [req ! 2, req ! 3];
           ip = [req ! 4, req ! 5, req ! 6, req ! 7] in
       andthen (with_context ''failed to read SOCKS4 user id''
         (read_null_terminated SOCKS4_FIELD_MAX_LEN)) (\<lambda>_.
       andthen
         (if ip ! 0 = 0 \<and> ip ! 1 = 0 \<and> ip ! 2 = 0 \<and> ip ! 3 \<noteq> 0 then
            andthen (with_context ''failed to read SOCKS4a domain''
              (read_null_terminated SOCKS4_FIELD_MAX_LEN)) (\<lambda>domain.
            case from_utf8 domain of
              None \<Rightarrow> bail ''invalid SOCKS4a domain''
            | Some d \<Rightarrow> ret (Name d))
          else ret (Ip (V4 (be_val ip)))) (\<lambda>host.
       andthen (resolve env host port) (\<lambda>target_addr.
       andthen (log_request peer_addr host port ''tcp'' target_addr ''socks4'') (\<lambda>_.
       if block_special_addrs config \<and> is_rfc6890_special (sa_ip target_addr) then
         andthen (send_socks4_reply env 0x5B) (\<lambda>_.
         bail ''SOCKS4 connection blocked: target IP is a special-purpose (RFC 6890) address'')
       else
         andthen (tcp_connect env target_addr) (\<lambda>connect_result.
         case connect_result of
           TimedOut \<Rightarrow> bail ''SOCKS4 connect timeout''
         | Failed \<Rightarrow>
             andthen (send_socks4_reply env 0x5B) (\<lambda>_. bail ''SOCKS4 upstream connect failed'')
         | Done _ \<Rightarrow>
             andthen (send_socks4_reply env 0x5A) (\<lambda>_. tunnel env)))))))"

section \<open>HTTP CONNECT\<close>

text \<open>
  The loop of \<open>read_http_head\<close>. Every iteration but the last consumes input, so the number of unread
  bytes bounds the iterations; \<open>fuel\<close> is that bound plus one (\<open>read_http_head_spec\<close> in theory
  FrontEnds shows that the fuel never runs out).
\<close>

fun read_http_head_loop :: "env \<Rightarrow> nat \<Rightarrow> byte list \<Rightarrow> (byte list \<times> byte list) io" where
  "read_http_head_loop env 0 buffer = bail ''out of fuel''"
| "read_http_head_loop env (Suc fuel) buffer =
     (if length buffer > HTTP_HEADER_MAX_LEN then bail ''HTTP header exceeds max allowed length''
      else
        andthen (read_some env 1024) (\<lambda>chunk.
        if chunk = [] then bail ''connection closed before HTTP header completed''
        else
          let buffer = buffer @ chunk in
          (case find_subsequence buffer [13, 10, 13, 10] of
             Some idx \<Rightarrow>
               let head_end = idx + 4 in ret (take head_end buffer, drop head_end buffer)
           | None \<Rightarrow> read_http_head_loop env fuel buffer)))"

definition read_http_head :: "env \<Rightarrow> (byte list \<times> byte list) io" where
  "read_http_head env = (\<lambda>s. read_http_head_loop env (Suc (length (unread s))) [] s)"

definition nth_word :: "nat \<Rightarrow> str list \<Rightarrow> str" where
  "nth_word i ws = (if i < length ws then ws ! i else [])"

definition handle_http_connect :: "env \<Rightarrow> app_config \<Rightarrow> sockaddr \<Rightarrow> unit io" where
  "handle_http_connect env config peer_addr =
     andthen (read_http_head env) (\<lambda>(head, pending_payload).
     case from_utf8 head of
       None \<Rightarrow> bail ''HTTP request is not valid UTF-8''
     | Some request \<Rightarrow>
         (case first_line request of
            None \<Rightarrow> bail ''HTTP request missing request line''
          | Some line \<Rightarrow>
              let parts = split_whitespace line;
                  http_method = nth_word 0 parts;
                  authority = nth_word 1 parts in
              if http_method \<noteq> ascii ''CONNECT'' then
                andthen (write_all env (ascii ''HTTP/1.1 405 Method Not Allowed'' @ [13, 10]
                    @ ascii ''Connection: close'' @ [13, 10, 13, 10])) (\<lambda>_.
                bail ''unsupported HTTP method'')
              else
                andthen (lift_result (parse_authority authority)) (\<lambda>(host, port).
                andthen (resolve env host port) (\<lambda>target_addr.
                andthen (log_request peer_addr host port ''tcp'' target_addr ''http'') (\<lambda>_.
                if block_special_addrs config \<and> is_rfc6890_special (sa_ip target_addr) then
                  andthen (write_all env (ascii ''HTTP/1.1 403 Forbidden'' @ [13, 10]
                      @ ascii ''Connection: close'' @ [13, 10, 13, 10])) (\<lambda>_.
                  bail ''HTTP CONNECT connection blocked: target IP is a special-purpose (RFC 6890) address'')
                else
                  andthen (tcp_connect env target_addr) (\<lambda>connect_result.
                  case connect_result of
                    TimedOut \<Rightarrow> bail ''HTTP CONNECT upstream connect timeout''
                  | Failed \<Rightarrow>
                      andthen (write_all env (ascii ''HTTP/1.1 502 Bad Gateway'' @ [13, 10]
                          @ ascii ''Connection: close'' @ [13, 10, 13, 10])) (\<lambda>_.
                      bail ''HTTP CONNECT upstream connect failed'')
                  | Done _ \<Rightarrow>
                      andthen (write_all env (ascii ''HTTP/1.1 200 Connection Established''
                          @ [13, 10, 13, 10])) (\<lambda>_.
                      andthen (if pending_payload \<noteq> [] then upstream_write_all env pending_payload
                               else ret ()) (\<lambda>_.
                      tunnel env))))))))"

section \<open>The session\<close>

definition handle_client :: "env \<Rightarrow> app_config \<Rightarrow> sockaddr \<Rightarrow> unit io" where
  "handle_client env config peer_addr =
     andthen (peek_client env PROBE_LEN) (\<lambda>probe.
     if length probe = 0 then bail ''client closed before handshake''
     else
       (case detect_protocol probe of
          None \<Rightarrow> bail ''unknown protocol''
        | Some p \<Rightarrow>
            (case p of
               Socks4 \<Rightarrow> handle_socks4 env config peer_addr
             | Socks5 \<Rightarrow> handle_socks5 env config peer_addr
             | HttpConnect \<Rightarrow> handle_http_connect env config peer_addr)))"

definition session_start :: "byte list \<Rightarrow> session" where
  "session_start input = \<lparr>unread = input, reads = 0, writes = 0, trace = []\<rparr>"

section \<open>No session reaches a filtered address\<close>

lemma target_allowed_simps [simp]:
  "target_allowed config evs (ClientWrite bs)"
  "target_allowed config evs (Lookup n)"
  "target_allowed config evs (LogRequest a h p t r x)"
  "target_allowed config evs (TcpListen a)"
  "target_allowed config evs (UpstreamWrite bs)"
  "target_allowed config evs (Tunnel bs)"
  "target_allowed config evs (TcpConnect a) =
     (\<not> (block_special_addrs config \<and> is_rfc6890_special (sa_ip a)))"
  by (simp_all add: target_allowed_def)

lemma emits_socks5_reply [emits_intros]:
  "emits (target_allowed config evs) (send_socks5_reply env rep bound)"
  unfolding send_socks5_reply_def by (intro emits_intros) simp

lemma emits_socks4_reply [emits_intros]:
  "emits (target_allowed config evs) (send_socks4_reply env status)"
  unfolding send_socks4_reply_def by (intro emits_intros) simp

lemma emits_socks5_connect:
  "emits (target_allowed config evs) (handle_socks5_connect env config peer_addr host port)"
  unfolding handle_socks5_connect_def by (intro emits_intros) auto

lemma emits_socks5_bind:
  "emits (target_allowed config evs) (handle_socks5_bind env config peer_addr host port)"
  unfolding handle_socks5_bind_def by (intro emits_intros) auto

lemma emits_socks5_target [emits_intros]: "emits P (read_socks5_target_from_stream atyp)"
  unfolding read_socks5_target_from_stream_def read_socks5_host_from_stream_def
  by (intro emits_intros)

lemma emits_socks5: "emits (target_allowed config (e_relay env)) (handle_socks5 env config peer_addr)"
  unfolding handle_socks5_def
  by (intro emits_intros emits_socks5_connect emits_socks5_bind emits_udp_associate) auto

lemma emits_null_terminated [emits_intros]: "emits P (read_null_terminated n)"
proof -
  have "emits P (read_null_terminated_loop n out)" for out
    by (induction n arbitrary: out) (auto intro!: emits_intros)
  then show ?thesis by (simp add: read_null_terminated_def)
qed

lemma emits_socks4: "emits (target_allowed config evs) (handle_socks4 env config peer_addr)"
  unfolding handle_socks4_def by (intro emits_intros) auto

lemma emits_http_head [emits_intros]: "emits P (read_http_head env)"
proof -
  have "emits P (read_http_head_loop env n buf)" for n buf
    by (induction n arbitrary: buf) (auto simp: Let_def intro!: emits_intros)
  then show ?thesis
    unfolding emits_def read_http_head_def by blast
qed

declare read_http_head_loop.simps [simp del]

lemma emits_http: "emits (target_allowed config evs) (handle_http_connect env config peer_addr)"
  unfolding handle_http_connect_def by (intro emits_intros) auto

lemma emits_client: "emits (target_allowed config (e_relay env)) (handle_client env config peer_addr)"
  unfolding handle_client_def
  by (intro emits_intros)
     (auto split: protocol.split intro: emits_socks4 emits_socks5 emits_http)

end
