(* ===== verification/WriteFaults.thy ===== *)
theory WriteFaults
  imports TcpProxy
begin

text \<open>
  Sessions whose writes fail. A failed write ends a handler of \<open>TcpProxy\<close> on the spot, so a session does
  exactly what it would do if all writes worked, or stops with an error after a part of it. The
  relation \<open>cut\<close> between the two runs follows the syntax of the handlers.
\<close>

definition working :: "env \<Rightarrow> env" where
  "working env = env\<lparr>e_write_ok := \<lambda>_. True, e_upstream_write_ok := True, e_tunnel_ok := True\<rparr>"

lemma working_simps [simp]:
  "e_peek (working env) = e_peek env" "e_chunk (working env) = e_chunk env"
  "e_reset (working env) = e_reset env" "e_lookup (working env) = e_lookup env"
  "e_connect (working env) = e_connect env" "e_listen (working env) = e_listen env"
  "e_accept (working env) = e_accept env" "e_control_local (working env) = e_control_local env"
  "e_udp_bind (working env) = e_udp_bind env" "e_relay (working env) = e_relay env"
  "e_write_ok (working env) n" "e_upstream_write_ok (working env)" "e_tunnel_ok (working env)"
  by (simp_all add: working_def)

text \<open>\<open>begins xs ys\<close>: the list \<open>ys\<close> begins with \<open>xs\<close>.\<close>

definition begins :: "'a list \<Rightarrow> 'a list \<Rightarrow> bool" where
  "begins xs ys \<longleftrightarrow> (\<exists>zs. ys = xs @ zs)"

lemma begins_trans: "begins xs ys \<Longrightarrow> begins ys zs \<Longrightarrow> begins xs zs"
  by (auto simp: begins_def)

lemma begins_refl [simp]: "begins xs xs"
  by (simp add: begins_def)

lemma begins_append [simp]: "begins xs (xs @ ys)"
  by (simp add: begins_def)

definition cut :: "'a io \<Rightarrow> 'a io \<Rightarrow> bool" where
  "cut m m' \<longleftrightarrow>
     (\<forall>s. m s = m' s \<or> (\<exists>e s'. m s = (Inl e, s') \<and> begins (trace s') (trace (snd (m' s)))))"

lemma cut_refl: "cut m m"
  by (simp add: cut_def)

lemma emits_any: "emits P m \<Longrightarrow> emits (\<lambda>_. True) m"
  by (fastforce simp: emits_def list_all_iff)

lemma emits_begins: "emits P m \<Longrightarrow> begins (trace s) (trace (snd (m s)))"
  unfolding emits_def begins_def by metis

section \<open>Rules\<close>

lemma cut_andthen:
  assumes "cut m m'" and "\<And>x. cut (f x) (f' x)" and "\<And>x. emits (\<lambda>_. True) (f' x)"
  shows "cut (andthen m f) (andthen m' f')"
  unfolding cut_def
proof
  fix s
  obtain r s1 where m': "m' s = (r, s1)" by fastforce
  from assms(1) consider "m s = m' s" | e s' where "m s = (Inl e, s')" "begins (trace s') (trace s1)"
    unfolding cut_def using m' by (metis snd_conv)
  then show "andthen m f s = andthen m' f' s
    \<or> (\<exists>e s'. andthen m f s = (Inl e, s') \<and> begins (trace s') (trace (snd (andthen m' f' s))))"
  proof cases
    case 1
    with m' assms(2) show ?thesis by (cases r) (auto simp: andthen_def cut_def)
  next
    case (2 e s')
    have "begins (trace s1) (trace (snd (andthen m' f' s)))"
      using m' emits_begins [OF assms(3)] by (cases r) (simp_all add: andthen_def)
    with 2 begins_trans show ?thesis by (auto simp: andthen_def)
  qed
qed

lemma cut_try_else:
  "(\<And>x. cut (f x) (f' x)) \<Longrightarrow> (\<And>e. cut (g e) (g' e)) \<Longrightarrow> cut (try_else m f g) (try_else m f' g')"
  unfolding cut_def try_else_def by (auto split: prod.split sum.split)

lemma cut_write_all: "cut (write_all env bs) (write_all (working env) bs)"
  by (auto simp: cut_def write_all_def Let_def)

lemma cut_upstream_write_all: "cut (upstream_write_all env bs) (upstream_write_all (working env) bs)"
  by (auto simp: cut_def upstream_write_all_def bail_def emit_def)

lemma cut_tunnel: "cut (tunnel env) (tunnel (working env))"
  by (auto simp: cut_def tunnel_def Let_def)

lemma cut_case:
  "(b \<Longrightarrow> cut m m') \<Longrightarrow> (\<not> b \<Longrightarrow> cut n n') \<Longrightarrow> cut (if b then m else n) (if b then m' else n')"
  "cut m m' \<Longrightarrow> (\<And>x. cut (f x) (f' x)) \<Longrightarrow>
    cut (case v of None \<Rightarrow> m | Some x \<Rightarrow> f x) (case v of None \<Rightarrow> m' | Some x \<Rightarrow> f' x)"
  "cut m m' \<Longrightarrow> cut n n' \<Longrightarrow> (\<And>x. cut (h x) (h' x)) \<Longrightarrow>
    cut (case out of TimedOut \<Rightarrow> m | Failed \<Rightarrow> n | Done x \<Rightarrow> h x) (case out of TimedOut \<Rightarrow> m' | Failed \<Rightarrow> n' | Done x \<Rightarrow> h' x)"
  "(\<And>a b. cut (k a b) (k' a b)) \<Longrightarrow> cut (case w of (a, b) \<Rightarrow> k a b) (case w of (a, b) \<Rightarrow> k' a b)"
  "(\<And>x. cut (f x) (f' x)) \<Longrightarrow> cut (let x = y in f x) (let x = y in f' x)"
  by (simp_all split: option.split outcome.split prod.split)

lemmas cut_intros =
  cut_andthen cut_try_else cut_write_all cut_upstream_write_all cut_tunnel cut_case cut_refl

section \<open>The handlers\<close>

lemma resolve_working [simp]: "resolve (working env) h p = resolve env h p"
  by (cases h) (simp_all only: resolve.simps resolve_first_def working_simps)

lemma tcp_connect_working [simp]: "tcp_connect (working env) a = tcp_connect env a"
  by (simp add: tcp_connect_def)

lemma read_some_working [simp]: "read_some (working env) n = read_some env n"
  by (simp add: read_some_def)

lemma peek_working [simp]: "peek_client (working env) n = peek_client env n"
  by (simp add: peek_client_def)

lemma read_http_head_working [simp]: "read_http_head (working env) = read_http_head env"
proof -
  have "read_http_head_loop (working env) n b = read_http_head_loop env n b" for n b
    by (induction n arbitrary: b) (simp_all add: read_http_head_loop.simps Let_def cong: option.case_cong if_cong)
  then show ?thesis by (simp add: read_http_head_def)
qed

lemma relay_working [simp]: "relay_loop (working env) config peer st evs = relay_loop env config peer st evs"
proof (induction env config peer st evs rule: relay_loop.induct)
  case (5 env config peer st packet source evs)
  have "relay_datagram (working env) config peer st p source = relay_datagram env config peer st p source" for p
    by (simp only: relay_datagram_def resolve_working)
  with 5 show ?case by (simp add: andthen_def split: sum.split prod.split)
qed simp_all

lemma emits_handlers [emits_intros]:
  "emits (\<lambda>_. True) (handle_socks5_connect env config peer h p)"
  "emits (\<lambda>_. True) (handle_socks5_bind env config peer h p)"
  "emits (\<lambda>_. True) (handle_socks5_udp_associate env config peer h p)"
  "emits (\<lambda>_. True) (relay_loop env config peer (relay_init h p) evs)"
  using emits_any [OF emits_socks5_connect] emits_any [OF emits_socks5_bind]
    emits_any [OF emits_udp_associate] emits_any [OF emits_relay_loop [OF cache_ok_init subset_refl]] by auto

lemma cut_socks5_connect:
  "cut (handle_socks5_connect env config peer h p) (handle_socks5_connect (working env) config peer h p)"
  unfolding handle_socks5_connect_def send_socks5_reply_def resolve_working tcp_connect_working working_simps
  by (intro cut_intros emits_intros TrueI)

lemma cut_socks5_bind:
  "cut (handle_socks5_bind env config peer h p) (handle_socks5_bind (working env) config peer h p)"
  unfolding handle_socks5_bind_def send_socks5_reply_def resolve_working working_simps
  by (intro cut_intros emits_intros TrueI)

lemma cut_udp_associate:
  "cut (handle_socks5_udp_associate env config peer h p) (handle_socks5_udp_associate (working env) config peer h p)"
  unfolding handle_socks5_udp_associate_def working_simps relay_working
  by (intro cut_intros emits_intros TrueI)

lemma cut_socks5: "cut (handle_socks5 env config peer) (handle_socks5 (working env) config peer)"
  unfolding handle_socks5_def send_socks5_reply_def
  by (intro cut_socks5_connect cut_socks5_bind cut_udp_associate cut_intros emits_intros TrueI)

lemma cut_socks4: "cut (handle_socks4 env config peer) (handle_socks4 (working env) config peer)"
  unfolding handle_socks4_def send_socks4_reply_def resolve_working tcp_connect_working
  by (intro cut_intros emits_intros TrueI)

lemma cut_http: "cut (handle_http_connect env config peer) (handle_http_connect (working env) config peer)"
  unfolding handle_http_connect_def resolve_working tcp_connect_working read_http_head_working
  by (intro cut_intros emits_intros TrueI)

lemma emits_protocol: "emits (\<lambda>_. True) (case p of Socks4 \<Rightarrow> handle_socks4 env config peer
    | Socks5 \<Rightarrow> handle_socks5 env config peer | HttpConnect \<Rightarrow> handle_http_connect env config peer)"
  using emits_any [OF emits_socks4] emits_any [OF emits_socks5] emits_any [OF emits_http]
  by (simp split: protocol.split)

lemma cut_client: "cut (handle_client env config peer) (handle_client (working env) config peer)"
proof -
  have "cut (case p of Socks4 \<Rightarrow> handle_socks4 env config peer
      | Socks5 \<Rightarrow> handle_socks5 env config peer | HttpConnect \<Rightarrow> handle_http_connect env config peer)
    (case p of Socks4 \<Rightarrow> handle_socks4 (working env) config peer
      | Socks5 \<Rightarrow> handle_socks5 (working env) config peer | HttpConnect \<Rightarrow> handle_http_connect (working env) config peer)"
    for p using cut_socks4 cut_socks5 cut_http by (simp split: protocol.split)
  then show ?thesis unfolding handle_client_def peek_working
    by (intro cut_intros emits_intros emits_protocol)
qed

end
