(* ===== verification/ConnectService.thy ===== *)
theory ConnectService
  imports WriteFaults
begin

text \<open>
  What the three TCP front ends promise. SOCKS5 CONNECT, SOCKS4(a) and HTTP CONNECT are three
  encodings of one request, a host and a port; \<open>verdict\<close> and \<open>service\<close> say once what the proxy does
  with such a request, independently of the encoding. The locale \<open>front_end\<close> states the contract,
  its lemmas draw the consequences, and the interpretations show that \<open>handle_client\<close> keeps it for
  each of the three encodings.
\<close>

section \<open>The abstract service\<close>

datatype verdict =
    Unresolved
  | Blocked sockaddr
  | NoAnswer sockaddr
  | Unreachable sockaddr
  | Connected sockaddr "sockaddr option"

definition target_of :: "env \<Rightarrow> host \<Rightarrow> u16 \<Rightarrow> err + sockaddr" where
  "target_of env h p = fst (resolve env h p (session_start []))"

definition lookups :: "host \<Rightarrow> event list" where
  "lookups h = (case h of Ip _ \<Rightarrow> [] | Name n \<Rightarrow> if parse_ip n = None then [Lookup n] else [])"

definition verdict :: "env \<Rightarrow> app_config \<Rightarrow> host \<Rightarrow> u16 \<Rightarrow> verdict" where
  "verdict env config h p =
     (case target_of env h p of
        Inl _ \<Rightarrow> Unresolved
      | Inr t \<Rightarrow>
          if block_special_addrs config \<and> is_rfc6890_special (sa_ip t) then Blocked t
          else (case e_connect env t of
                  TimedOut \<Rightarrow> NoAnswer t | Failed \<Rightarrow> Unreachable t | Done l \<Rightarrow> Connected t l))"

text \<open>The bytes that differ between the encodings; a SOCKS5 success reply needs the local address.\<close>

record replies =
  r_name :: string
  r_blocked :: "byte list"
  r_refused :: "byte list"
  r_ok :: "sockaddr option \<Rightarrow> byte list option"

text \<open>The client bytes after the request reach the target unchanged, in one or two portions.\<close>

definition forwards :: "byte list \<Rightarrow> event list \<Rightarrow> bool" where
  "forwards rest fwd \<longleftrightarrow>
     (\<exists>p r. rest = p @ r \<and> fwd = (if p = [] then [] else [UpstreamWrite p]) @ [Tunnel r])"

definition service :: "replies \<Rightarrow> sockaddr \<Rightarrow> host \<Rightarrow> u16 \<Rightarrow> event list \<Rightarrow> verdict \<Rightarrow> event list" where
  "service rep peer h p fwd v =
     (let logged = (\<lambda>t. LogRequest peer h p ''tcp'' t (r_name rep)) in
      case v of
        Unresolved \<Rightarrow> []
      | Blocked t \<Rightarrow> [logged t, ClientWrite (r_blocked rep)]
      | NoAnswer t \<Rightarrow> [logged t, TcpConnect t]
      | Unreachable t \<Rightarrow> [logged t, TcpConnect t, ClientWrite (r_refused rep)]
      | Connected t l \<Rightarrow>
          [logged t, TcpConnect t]
          @ (case r_ok rep l of None \<Rightarrow> [] | Some ok \<Rightarrow> ClientWrite ok # fwd))"

definition served :: "replies \<Rightarrow> verdict \<Rightarrow> bool" where
  "served rep v = (case v of Connected _ l \<Rightarrow> r_ok rep l \<noteq> None | _ \<Rightarrow> False)"

text \<open>What is asked of the client: its first segment holds at least \<open>n\<close> bytes (the handshake probe looks at no
  more than the first segment); and, for the full service, that every write succeeds.\<close>

definition first_segment :: "nat \<Rightarrow> env \<Rightarrow> bool" where
  "first_segment n env \<longleftrightarrow> (\<exists>k. e_peek env = Done k \<and> n \<le> k)"

definition writes_work :: "env \<Rightarrow> bool" where
  "writes_work env \<longleftrightarrow> (\<forall>n. e_write_ok env n) \<and> e_upstream_write_ok env \<and> e_tunnel_ok env"

definition outcome_of :: "env \<Rightarrow> app_config \<Rightarrow> sockaddr \<Rightarrow> byte list \<Rightarrow> bool \<times> event list" where
  "outcome_of env config peer input =
     (case handle_client env config peer (session_start input) of
        (Inl _, s) \<Rightarrow> (False, trace s) | (Inr _, s) \<Rightarrow> (True, trace s))"

text \<open>A session \<open>out\<close> carries out a service that yields \<open>promised\<close>: it does exactly that if its writes work; if
  one of them fails it stops there, without success, having done a first part of it and nothing else.\<close>

definition carries_out :: "env \<Rightarrow> bool \<times> event list \<Rightarrow> bool \<times> event list \<Rightarrow> bool" where
  "carries_out env out promised \<longleftrightarrow>
     begins (snd out) (snd promised) \<and> (fst out \<longrightarrow> out = promised) \<and> (writes_work env \<longrightarrow> out = promised)"

lemma carries_outD: "carries_out env out promised \<Longrightarrow> writes_work env \<Longrightarrow> out = promised"
  by (simp add: carries_out_def)

lemma writes_working: "writes_work env \<Longrightarrow> working env = env"
  by (cases env) (auto simp: writes_work_def working_def)

lemma verdict_working: "verdict (working env) config h p = verdict env config h p"
  unfolding verdict_def target_of_def resolve_working working_simps ..

lemma outcome_cut:
  "outcome_of env config peer input = outcome_of (working env) config peer input
   \<or> \<not> fst (outcome_of env config peer input)
     \<and> begins (snd (outcome_of env config peer input)) (snd (outcome_of (working env) config peer input))"
proof -
  let ?run = "\<lambda>env. handle_client env config peer (session_start input)"
  from cut_client [of env config peer] consider "?run env = ?run (working env)"
    | e s' where "?run env = (Inl e, s')" "begins (trace s') (trace (snd (?run (working env))))"
    unfolding cut_def by blast
  then show ?thesis by cases (auto simp: outcome_of_def split: prod.splits sum.splits)
qed

fun upstream_of :: "event \<Rightarrow> byte list" where
  "upstream_of (UpstreamWrite bs) = bs"
| "upstream_of (Tunnel bs) = bs"
| "upstream_of _ = []"

section \<open>The contract of a front end\<close>

locale front_end =
  fixes encodes :: "host \<Rightarrow> u16 \<Rightarrow> byte list \<Rightarrow> bool"
    and probe_len :: nat
    and hello :: "event list"
    and rep :: replies
  assumes implements:
      "first_segment probe_len env \<Longrightarrow> writes_work env \<Longrightarrow> encodes h p req \<Longrightarrow>
       \<exists>fwd. forwards rest fwd \<and>
         outcome_of env config peer (req @ rest)
           = (served rep (verdict env config h p),
              hello @ lookups h @ service rep peer h p fwd (verdict env config h p))"
    and hello_writes: "\<And>e. e \<in> set hello \<Longrightarrow> \<exists>bs. e = ClientWrite bs"
begin

lemma promise:
  assumes "first_segment probe_len env" and "encodes h p req"
  shows "\<exists>fwd. forwards rest fwd \<and> carries_out env (outcome_of env config peer (req @ rest))
    (served rep (verdict env config h p),
     hello @ lookups h @ service rep peer h p fwd (verdict env config h p))"
proof -
  have "first_segment probe_len (working env)" "writes_work (working env)"
    using assms(1) by (simp_all add: first_segment_def writes_work_def)
  from implements [OF this assms(2), of rest config peer] obtain fwd where f: "forwards rest fwd"
    and o: "outcome_of (working env) config peer (req @ rest)
      = (served rep (verdict env config h p),
         hello @ lookups h @ service rep peer h p fwd (verdict env config h p))"
    unfolding verdict_working by blast
  have "carries_out env (outcome_of env config peer (req @ rest)) (outcome_of (working env) config peer (req @ rest))"
    using outcome_cut [of env config peer "req @ rest"] writes_working [of env] by (auto simp: carries_out_def)
  with f o show ?thesis by auto
qed

lemma connects_to:
  assumes "first_segment probe_len env" and "writes_work env" and "encodes h p req"
    and "TcpConnect a \<in> set (snd (outcome_of env config peer (req @ rest)))"
  shows "target_of env h p = Inr a \<and> \<not> (block_special_addrs config \<and> is_rfc6890_special (sa_ip a))"
proof -
  from implements [OF assms(1-3)] obtain fwd where f: "forwards rest fwd"
    and o: "outcome_of env config peer (req @ rest) = (served rep (verdict env config h p),
              hello @ lookups h @ service rep peer h p fwd (verdict env config h p))"
    by blast
  have "TcpConnect a \<notin> set hello" using hello_writes by blast
  moreover have "TcpConnect a \<notin> set (lookups h)" by (auto simp: lookups_def split: host.split)
  moreover have "TcpConnect a \<notin> set fwd" using f by (auto simp: forwards_def split: if_splits)
  ultimately have "TcpConnect a \<in> set (service rep peer h p fwd (verdict env config h p))
      \<and> TcpConnect a \<notin> set fwd"
    using assms(4) o by simp
  then show ?thesis
    by (auto simp: service_def verdict_def Let_def split: sum.splits if_splits outcome.splits option.splits)
qed

lemma refuses_filtered:
  assumes "first_segment probe_len env" and "writes_work env" and "encodes h p req" and "verdict env config h p = Blocked t"
  shows "outcome_of env config peer (req @ rest)
    = (False, hello @ lookups h @ [LogRequest peer h p ''tcp'' t (r_name rep), ClientWrite (r_blocked rep)])"
  using implements [OF assms(1-3), of rest config peer] assms(4)
  by (auto simp: served_def service_def Let_def)

lemma bytes_reach_target:
  assumes "first_segment probe_len env" and "writes_work env" and "encodes h p req"
    and "outcome_of env config peer (req @ rest) = (True, es)"
  shows "concat (map upstream_of es) = rest"
proof -
  obtain fwd where f: "forwards rest fwd" and s: "served rep (verdict env config h p)"
    and e: "es = hello @ lookups h @ service rep peer h p fwd (verdict env config h p)"
    using implements [OF assms(1-3), of rest config peer] assms(4) by auto
  have "upstream_of x = []" if "x \<in> set hello" for x using hello_writes [OF that] by auto
  then have "concat (map upstream_of hello) = []" by simp
  moreover have "concat (map upstream_of (lookups h)) = []" by (auto simp: lookups_def split: host.split)
  moreover have "concat (map upstream_of fwd) = rest" using f by (auto simp: forwards_def)
  ultimately show ?thesis using s
    by (auto simp: e service_def served_def Let_def split: verdict.splits option.splits)
qed

lemma served_iff:
  assumes "first_segment probe_len env" and "writes_work env" and "encodes h p req"
  shows "fst (outcome_of env config peer (req @ rest)) = served rep (verdict env config h p)"
  using implements [OF assms, of rest config peer] by auto

end

end
