(* ===== verification/ConnectRuns.thy ===== *)
theory ConnectRuns
  imports ConnectService
begin

text \<open>
  Symbolic runs of the three handlers on a well-formed request: what the bytes of a request are in
  each encoding, and the value and trace of the handler on them. \<open>read_http_head\<close> is treated for any
  chunking of the input: it stops at the first empty line, loses no byte, and its fuel is enough.
\<close>

section \<open>Running the handlers\<close>

lemma resolve_run:
  "resolve env h p s = (target_of env h p, s\<lparr>trace := trace s @ lookups h\<rparr>)"
  by (cases h) (auto simp: target_of_def lookups_def resolve_first_def io_defs session_start_def
      split: option.splits list.splits)

lemma read_exact_run:
  "unread s = xs @ ys \<Longrightarrow> length xs = n \<Longrightarrow> andthen (read_exact n) f s = f xs (s\<lparr>unread := ys\<rparr>)"
  by (simp add: andthen_def read_exact_def)

lemma write_all_run:
  "writes_work env \<Longrightarrow> andthen (write_all env bs) f s =
     f () (s\<lparr>writes := Suc (writes s), trace := trace s @ [ClientWrite bs]\<rparr>)"
  by (simp add: andthen_def write_all_def writes_work_def Let_def)

lemma ret_run: "andthen (ret x) f s = f x s"
  by (simp add: andthen_def ret_def)

lemma ret_apply: "ret x s = (Inr x, s)"
  by (simp add: ret_def)

lemma emit_run: "andthen (emit e) f s = f () (s\<lparr>trace := trace s @ [e]\<rparr>)"
  by (simp add: andthen_def emit_def)

lemma andthen_assoc: "andthen (andthen m f) g = andthen m (\<lambda>x. andthen (f x) g)"
  by (rule ext) (auto simp: andthen_def split: prod.splits sum.splits)

lemma resolve_andthen_run:
  "andthen (resolve env h p) f s =
     (case target_of env h p of
        Inl e \<Rightarrow> (Inl e, s\<lparr>trace := trace s @ lookups h\<rparr>)
      | Inr t \<Rightarrow> f t (s\<lparr>trace := trace s @ lookups h\<rparr>))"
  by (simp add: andthen_def resolve_run split: sum.split)

lemmas run_simps =
  write_all_run ret_run emit_run andthen_assoc resolve_andthen_run log_request_def tcp_connect_def
  send_socks5_reply_def send_socks4_reply_def

text \<open>The result of a run, as \<open>outcome_of\<close> shows it.\<close>

definition shown :: "(err + unit) \<times> session \<Rightarrow> bool \<times> event list" where
  "shown r = (case r of (Inl _, s) \<Rightarrow> (False, trace s) | (Inr _, s) \<Rightarrow> (True, trace s))"

lemma shown_simps [simp]:
  "shown (bail e s) = (False, trace s)" "shown (ret x s) = (True, trace s)"
  "shown (Inl e, s) = (False, trace s)" "shown (Inr x, s) = (True, trace s)"
  by (simp_all add: shown_def bail_def ret_def)

lemma shown_tunnel: "writes_work env \<Longrightarrow> shown (tunnel env s) = (True, trace s @ [Tunnel (unread s)])"
  by (simp add: tunnel_def shown_def writes_work_def Let_def)

section \<open>SOCKS5\<close>

definition socks5_replies :: replies where
  "socks5_replies = \<lparr>r_name = ''socks5'', r_blocked = socks5_reply 0x02 unspecified_v4,
     r_refused = socks5_reply 0x05 unspecified_v4, r_ok = map_option (socks5_reply 0x00)\<rparr>"

lemma socks5_connect_run:
  assumes "writes_work env"
  shows "shown (handle_socks5_connect env config peer h p s)
    = (served socks5_replies (verdict env config h p),
       trace s @ lookups h
         @ service socks5_replies peer h p [Tunnel (unread s)] (verdict env config h p))"
  using assms
  by (simp add: handle_socks5_connect_def run_simps verdict_def served_def service_def
      socks5_replies_def shown_tunnel Let_def
      split: sum.split outcome.split option.split)

definition socks5_address :: "host \<Rightarrow> byte list" where
  "socks5_address h =
     (case h of
        Ip (V4 a) \<Rightarrow> 1 # octets4 a
      | Ip (V6 a) \<Rightarrow> 4 # octets6 a
      | Name d \<Rightarrow> 3 # of_nat (length d) # d)"

definition encodable :: "host \<Rightarrow> bool" where
  "encodable h = (case h of Ip _ \<Rightarrow> True | Name d \<Rightarrow> length d < 256 \<and> utf8_valid d)"

definition socks5_encodes :: "host \<Rightarrow> u16 \<Rightarrow> byte list \<Rightarrow> bool" where
  "socks5_encodes h p req \<longleftrightarrow>
     encodable h \<and>
     (\<exists>methods. 0 \<in> set methods \<and> length methods < 256 \<and>
        req = 5 # of_nat (length methods) # methods @ [5, 1, 0] @ socks5_address h @ be_bytes 2 p)"

lemma unat_length: "n < 256 \<Longrightarrow> unat (of_nat n :: byte) = n"
  by (simp add: unat_of_nat)

lemma socks5_target_run:
  assumes "unread s = tl (socks5_address h) @ be_bytes 2 p @ rest" and "encodable h"
  shows "read_socks5_target_from_stream (hd (socks5_address h)) s = (Inr (h, p), s\<lparr>unread := rest\<rparr>)"
proof (cases h)
  case (Ip ip)
  with assms(1) show ?thesis
    by (cases ip) (simp_all add: read_socks5_target_from_stream_def read_socks5_host_from_stream_def
        socks5_address_def andthen_assoc read_exact_run ret_run ret_apply be_val_be_bytes_full)
next
  case (Name d)
  with assms show ?thesis
    by (simp add: read_socks5_target_from_stream_def read_socks5_host_from_stream_def encodable_def
        socks5_address_def andthen_assoc read_exact_run [of _ "[of_nat (length d)]"]
        read_exact_run [of _ d] read_exact_run [of _ "be_bytes 2 p"] unat_length
        ret_run ret_apply from_utf8_def be_val_be_bytes_full)
qed

lemma try_else_run: "m s = (Inr x, s') \<Longrightarrow> try_else m f g s = f x s'"
  by (simp add: try_else_def)

lemma socks5_run:
  assumes "writes_work env" and "socks5_encodes h p req"
  shows "shown (handle_socks5 env config peer (session_start (req @ rest)))
    = (served socks5_replies (verdict env config h p),
       ClientWrite [5, 0] # lookups h
         @ service socks5_replies peer h p [Tunnel rest] (verdict env config h p))"
proof -
  obtain methods where m: "0 \<in> set methods" "length methods < 256"
    "req = 5 # of_nat (length methods) # methods @ [5, 1, 0] @ socks5_address h @ be_bytes 2 p"
    and h: "encodable h"
    using assms(2) by (auto simp: socks5_encodes_def)
  define ms where "ms = (of_nat (length methods) :: byte)"
  define after where "after = tl (socks5_address h) @ be_bytes 2 p @ rest"
  obtain a where a: "socks5_address h = a # tl (socks5_address h)"
    by (cases "socks5_address h") (auto simp: socks5_address_def split: host.splits ipaddr.splits)
  have inp: "req @ rest = [5, ms] @ methods @ [5, 1, 0, a] @ after"
    unfolding m(3) ms_def after_def by (subst a) simp
  have target: "read_socks5_target_from_stream a s = (Inr (h, p), s\<lparr>unread := rest\<rparr>)"
    if "unread s = after" for s
    using socks5_target_run [of s h p rest, OF _ h] that a unfolding after_def by (metis list.sel(1))
  have run: "handle_socks5 env config peer (session_start (req @ rest))
      = handle_socks5_connect env config peer h p
          \<lparr>unread = rest, reads = 0, writes = 1, trace = [ClientWrite [5, 0]]\<rparr>"
    unfolding handle_socks5_def inp session_start_def
    using m(1,2) assms(1)
    by (simp add: read_exact_run [of _ "[5, ms]"] read_exact_run [of _ methods]
        read_exact_run [of _ "[5, 1, 0, a]"] write_all_run ms_def unat_length
        try_else_run [OF target] Let_def)
  show ?thesis unfolding run by (simp add: socks5_connect_run [OF assms(1)])
qed

section \<open>SOCKS4\<close>

definition socks4_replies :: replies where
  "socks4_replies = \<lparr>r_name = ''socks4'', r_blocked = socks4_reply 0x5B,
     r_refused = socks4_reply 0x5B, r_ok = (\<lambda>_. Some (socks4_reply 0x5A))\<rparr>"

text \<open>SOCKS4 carries an IPv4 address outside 0.0.0.0/24 (0.0.0.0 itself is passed on), SOCKS4a a
  domain name after the user id.\<close>

definition socks4_encodes :: "host \<Rightarrow> u16 \<Rightarrow> byte list \<Rightarrow> bool" where
  "socks4_encodes h p req \<longleftrightarrow>
     (\<exists>userid. 0 \<notin> set userid \<and> length userid < SOCKS4_FIELD_MAX_LEN \<and>
       (case h of
          Ip (V4 a) \<Rightarrow> (take 3 (octets4 a) \<noteq> [0, 0, 0] \<or> octets4 a ! 3 = 0)
                       \<and> req = [4, 1] @ be_bytes 2 p @ octets4 a @ userid @ [0]
        | Ip (V6 _) \<Rightarrow> False
        | Name d \<Rightarrow> 0 \<notin> set d \<and> length d < SOCKS4_FIELD_MAX_LEN \<and> utf8_valid d
                     \<and> (\<exists>x. x \<noteq> 0 \<and> req = [4, 1] @ be_bytes 2 p @ [0, 0, 0, x] @ userid @ [0] @ d @ [0])))"

lemma null_terminated_run:
  "0 \<notin> set d \<Longrightarrow> length d < n \<Longrightarrow> unread s = d @ 0 # rest \<Longrightarrow>
   read_null_terminated_loop n out s = (Inr (out @ d), s\<lparr>unread := rest\<rparr>)"
proof (induction d arbitrary: n out s)
  case Nil
  then obtain k where "n = Suc k" by (cases n) auto
  with Nil show ?case by (simp add: read_exact_run [of _ "[0]" rest] ret_apply)
next
  case (Cons b d)
  then obtain k where k: "n = Suc k" "length d < k" by (cases n) auto
  have "read_null_terminated_loop n out s
      = read_null_terminated_loop k (out @ [b]) (s\<lparr>unread := d @ 0 # rest\<rparr>)"
    using Cons.prems(1,3) by (simp add: k(1) read_exact_run [of s "[b]" "d @ 0 # rest"])
  also have "\<dots> = (Inr ((out @ [b]) @ d), s\<lparr>unread := rest\<rparr>)"
    using Cons.IH [of k "s\<lparr>unread := d @ 0 # rest\<rparr>" "out @ [b]"] Cons.prems(1) k(2) by simp
  finally show ?case by simp
qed

lemma with_context_run:
  assumes "0 \<notin> set d" and "length d < n" and "unread s = d @ 0 # rest"
  shows "andthen (with_context msg (read_null_terminated n)) f s = f d (s\<lparr>unread := rest\<rparr>)"
  using null_terminated_run [OF assms, of "[]"]
  by (simp add: andthen_def with_context_def read_null_terminated_def)

lemma be_bytes2E: obtains p1 p2 where "be_bytes 2 (p :: u16) = [p1, p2]" "be_val [p1, p2] = p"
  using be_val_be_bytes_full [of 2 p] by (auto simp: be_bytes_def upt_rec numeral_2_eq_2)

lemma octets4E:
  obtains o1 o2 o3 o4 where "octets4 a = [o1, o2, o3, o4]" "be_val [o1, o2, o3, o4] = a"
  using nth4 [of "octets4 a"] be_val_octets4 [of a] length_octets4 [of a] by metis

lemmas socks4_tail_simps =
  verdict_def served_def service_def socks4_replies_def shown_tunnel Let_def

lemma socks4_run:
  assumes "writes_work env" and "socks4_encodes h p req"
  shows "shown (handle_socks4 env config peer (session_start (req @ rest)))
    = (served socks4_replies (verdict env config h p),
       lookups h @ service socks4_replies peer h p [Tunnel rest] (verdict env config h p))"
proof -
  obtain userid where u: "0 \<notin> set userid" "length userid < SOCKS4_FIELD_MAX_LEN"
    and c: "case h of
          Ip (V4 a) \<Rightarrow> (take 3 (octets4 a) \<noteq> [0, 0, 0] \<or> octets4 a ! 3 = 0)
                       \<and> req = [4, 1] @ be_bytes 2 p @ octets4 a @ userid @ [0]
        | Ip (V6 _) \<Rightarrow> False
        | Name d \<Rightarrow> 0 \<notin> set d \<and> length d < SOCKS4_FIELD_MAX_LEN \<and> utf8_valid d
                     \<and> (\<exists>x. x \<noteq> 0 \<and> req = [4, 1] @ be_bytes 2 p @ [0, 0, 0, x] @ userid @ [0] @ d @ [0])"
    using assms(2) by (auto simp: socks4_encodes_def)
  obtain p1 p2 where pp: "be_bytes 2 p = [p1, p2]" "be_val [p1, p2] = p"
    by (rule be_bytes2E)
  show ?thesis
  proof (cases h)
    case (Ip ip)
    then obtain a where ip: "ip = V4 a" using c by (cases ip) auto
    obtain o1 o2 o3 o4 where o: "octets4 a = [o1, o2, o3, o4]" "be_val [o1, o2, o3, o4] = a"
      by (rule octets4E)
    have req: "req @ rest = [4, 1, p1, p2, o1, o2, o3, o4] @ userid @ 0 # rest"
      and o': "(o1 = 0 \<and> o2 = 0 \<and> o3 = 0 \<and> o4 \<noteq> 0) = False"
      using c Ip ip by (auto simp: pp o)
    show ?thesis unfolding handle_socks4_def session_start_def req Ip ip
      using assms(1) u o(2)
      by (simp add: pp o' read_exact_run [of _ "[4, 1, p1, p2, o1, o2, o3, o4]"]
          with_context_run [of userid] run_simps socks4_tail_simps del: resolve.simps
          split: sum.split outcome.split)
  next
    case (Name d)
    then obtain x where x: "x \<noteq> 0" and d: "0 \<notin> set d" "length d < SOCKS4_FIELD_MAX_LEN" "utf8_valid d"
      and req: "req @ rest = [4, 1, p1, p2, 0, 0, 0, x] @ userid @ 0 # d @ 0 # rest"
      using c by (auto simp: pp)
    show ?thesis unfolding handle_socks4_def session_start_def req Name
      using assms(1) u d x
      by (simp add: pp read_exact_run [of _ "[4, 1, p1, p2, 0, 0, 0, x]"]
          with_context_run [of userid] with_context_run [of d] from_utf8_def run_simps
          socks4_tail_simps del: resolve.simps split: sum.split outcome.split)
  qed
qed

section \<open>HTTP CONNECT\<close>

lemma find_subsequence_iff:
  assumes "needle \<noteq> []"
  shows "find_subsequence data needle = Some i \<longleftrightarrow>
    take (length needle) (drop i data) = needle \<and> i + length needle \<le> length data
    \<and> (\<forall>j<i. take (length needle) (drop j data) \<noteq> needle)" (is "_ \<longleftrightarrow> ?R i")
proof
  assume "find_subsequence data needle = Some i"
  then show "?R i" by (rule find_subsequence_SomeD)
next
  assume r: "?R i"
  then obtain k where k: "find_subsequence data needle = Some k"
    using find_subsequence_NoneD [OF _ assms, of data i] by (cases "find_subsequence data needle") auto
  from find_subsequence_SomeD [OF k] r have "\<not> k < i" "\<not> i < k" by blast+
  with k show "find_subsequence data needle = Some i" by simp
qed

lemma find_subsequence_append:
  assumes "find_subsequence xs needle = Some i" and "needle \<noteq> []"
  shows "find_subsequence (xs @ ys) needle = Some i"
  using assms(1) unfolding find_subsequence_iff [OF assms(2)] by auto

lemma find_subsequence_prefix:
  assumes "find_subsequence (xs @ ys) needle = Some i" and "needle \<noteq> []"
  shows "find_subsequence xs needle = (if i + length needle \<le> length xs then Some i else None)"
proof (cases "find_subsequence xs needle")
  case None
  have "\<not> i + length needle \<le> length xs"
  proof
    assume l: "i + length needle \<le> length xs"
    with assms(1) have "take (length needle) (drop i xs) = needle"
      unfolding find_subsequence_iff [OF assms(2)] by auto
    with find_subsequence_NoneD [OF None assms(2), of i] show False by simp
  qed
  with None show ?thesis by simp
next
  case (Some k)
  with find_subsequence_append [OF Some assms(2), of ys] assms(1) have "k = i" by simp
  with Some find_subsequence_SomeD [OF Some] show ?thesis by simp
qed

definition crlf_crlf :: "byte list" where
  "crlf_crlf = [13, 10, 13, 10]"

lemma crlf_crlf_facts [simp]: "crlf_crlf \<noteq> []" "length crlf_crlf = 4"
  by (simp_all add: crlf_crlf_def)

lemma read_some_cases:
  obtains (stop) e s' where "read_some env (Suc cap) s = (Inl e, s')" "unread s = []" "trace s' = trace s"
      "e = ''connection reset''" "unread s' = []"
    | (eof) s' where "read_some env (Suc cap) s = (Inr [], s')" "unread s = []" "trace s' = trace s" "unread s' = []"
    | (chunk) c s' where "read_some env (Suc cap) s = (Inr c, s')" "c \<noteq> []" "length c \<le> Suc cap"
      "unread s = c @ unread s'" "trace s' = trace s"
proof (cases "unread s = []")
  case True
  then show ?thesis using stop eof by (cases "e_reset env") (auto simp: read_some_def Let_def)
next
  case False
  define n where "n = min (Suc cap) (max 1 (e_chunk env (reads s)))"
  have "read_some env (Suc cap) s = (Inr (take n (unread s)),
      s\<lparr>reads := Suc (reads s), unread := drop n (unread s)\<rparr>)"
    using False by (simp add: read_some_def Let_def n_def)
  moreover have "0 < n" "n \<le> Suc cap" by (simp_all add: n_def)
  ultimately show ?thesis using False
    by (intro chunk [of "take n (unread s)" "s\<lparr>reads := Suc (reads s), unread := drop n (unread s)\<rparr>"])
       simp_all
qed

lemma read_http_head_loop_Suc:
  "read_http_head_loop env (Suc fuel) buffer =
     (if length buffer > HTTP_HEADER_MAX_LEN then bail ''HTTP header exceeds max allowed length''
      else
        andthen (read_some env (Suc 1023)) (\<lambda>chunk.
        if chunk = [] then bail ''connection closed before HTTP header completed''
        else
          (case find_subsequence (buffer @ chunk) crlf_crlf of
             Some idx \<Rightarrow> ret (take (idx + 4) (buffer @ chunk), drop (idx + 4) (buffer @ chunk))
           | None \<Rightarrow> read_http_head_loop env fuel (buffer @ chunk))))"
  unfolding crlf_crlf_def read_http_head_loop.simps Let_def by simp

lemma head_found:
  assumes "length buffer \<le> HTTP_HEADER_MAX_LEN" and "read_some env (Suc 1023) s = (Inr c, s')" and "c \<noteq> []"
    and "length c \<le> Suc 1023" and "unread s = c @ unread s'" and "trace s' = trace s"
    and "find_subsequence (buffer @ c) crlf_crlf = Some i"
  shows "case read_http_head_loop env (Suc fuel) buffer s of
      (Inl e, s') \<Rightarrow> e \<noteq> ''out of fuel'' \<and> trace s' = trace s
        \<and> (\<exists>b. b @ unread s' = buffer @ unread s \<and> length b \<le> HTTP_HEADER_MAX_LEN + 1024)
    | (Inr (head, pending), s') \<Rightarrow>
        trace s' = trace s \<and> head @ pending @ unread s' = buffer @ unread s
        \<and> find_subsequence (head @ pending) crlf_crlf = Some (length head - 4)
        \<and> 4 \<le> length head \<and> length (head @ pending) \<le> HTTP_HEADER_MAX_LEN + 1024"
proof -
  define b where "b = buffer @ c"
  have b: "b @ unread s' = buffer @ unread s" "length b \<le> HTTP_HEADER_MAX_LEN + 1024"
    using assms(1,4,5) by (simp_all add: b_def)
  have "read_http_head_loop env (Suc fuel) buffer s = (Inr (take (i + 4) b, drop (i + 4) b), s')"
    unfolding read_http_head_loop_Suc b_def using assms(1-3,7) by (simp add: andthen_def ret_def)
  moreover have "i + 4 \<le> length b" using find_subsequence_SomeD [OF assms(7)] by (simp add: b_def)
  moreover have "take (i + 4) b @ drop (i + 4) b @ unread s' = buffer @ unread s"
    unfolding append_assoc [symmetric] append_take_drop_id by (rule b(1))
  ultimately show ?thesis using assms(6,7) b(2) by (simp add: b_def [symmetric])
qed

lemma read_http_head_loop_result:
  assumes "length (unread s) < fuel" and "find_subsequence buffer crlf_crlf = None"
    and "length buffer \<le> HTTP_HEADER_MAX_LEN + 1024"
  shows "case read_http_head_loop env fuel buffer s of
      (Inl e, s') \<Rightarrow> e \<noteq> ''out of fuel'' \<and> trace s' = trace s
        \<and> (\<exists>b. b @ unread s' = buffer @ unread s \<and> length b \<le> HTTP_HEADER_MAX_LEN + 1024)
    | (Inr (head, pending), s') \<Rightarrow>
        trace s' = trace s \<and> head @ pending @ unread s' = buffer @ unread s
        \<and> find_subsequence (head @ pending) crlf_crlf = Some (length head - 4)
        \<and> 4 \<le> length head \<and> length (head @ pending) \<le> HTTP_HEADER_MAX_LEN + 1024"
  using assms
proof (induction fuel arbitrary: buffer s)
  case 0
  then show ?case by simp
next
  case (Suc fuel)
  show ?case
  proof (cases "length buffer > HTTP_HEADER_MAX_LEN")
    case True
    then show ?thesis unfolding read_http_head_loop_Suc using Suc.prems(3) by (auto simp: bail_def)
  next
    case False
    show ?thesis
    proof (rule read_some_cases [of env 1023 s])
      fix c s'
      assume c: "read_some env (Suc 1023) s = (Inr c, s')" "c \<noteq> []" "length c \<le> Suc 1023"
        "unread s = c @ unread s'" "trace s' = trace s"
      show ?thesis
      proof (cases "find_subsequence (buffer @ c) crlf_crlf")
        case None
        have l: "length (unread s') < fuel" using Suc.prems(1) c(2,4) by (cases c) auto
        have "read_http_head_loop env (Suc fuel) buffer s = read_http_head_loop env fuel (buffer @ c) s'"
          unfolding read_http_head_loop_Suc using False c(1,2) None by (simp add: andthen_def)
        moreover have "length (buffer @ c) \<le> HTTP_HEADER_MAX_LEN + 1024" using False c(3) by simp
        ultimately show ?thesis using Suc.IH [OF l None] c(4,5)
          by (simp split: prod.splits sum.splits)
      next
        case (Some i)
        from head_found [OF _ c Some, of fuel] False show ?thesis by simp
      qed
    qed (use False Suc.prems(3) in \<open>auto simp: read_http_head_loop_Suc andthen_def bail_def\<close>)
  qed
qed

lemma read_http_head_loop_complete:
  assumes "length (unread s) < fuel" and "find_subsequence buffer crlf_crlf = None"
    and "find_subsequence (buffer @ unread s) crlf_crlf = Some i" and "i + 4 \<le> HTTP_HEADER_MAX_LEN + 1"
  shows "\<exists>pending s'. read_http_head_loop env fuel buffer s
    = (Inr (take (i + 4) (buffer @ unread s), pending), s')"
  using assms
proof (induction fuel arbitrary: buffer s)
  case 0
  then show ?case by simp
next
  case (Suc fuel)
  from find_subsequence_prefix [OF Suc.prems(3)] Suc.prems(2) have short: "length buffer < i + 4"
    by (simp split: if_splits)
  with Suc.prems(4) have False': "\<not> length buffer > HTTP_HEADER_MAX_LEN" by simp
  have ne: "unread s \<noteq> []" using Suc.prems(2,3) by auto
  show ?case
  proof (rule read_some_cases [of env 1023 s])
    fix c s'
    assume c: "read_some env (Suc 1023) s = (Inr c, s')" "c \<noteq> []" "length c \<le> Suc 1023"
      "unread s = c @ unread s'" "trace s' = trace s"
    have step: "find_subsequence ((buffer @ c) @ unread s') crlf_crlf = Some i"
      using Suc.prems(3) c(4) by simp
    note pre = find_subsequence_prefix [OF step crlf_crlf_facts(1)]
    show ?thesis
    proof (cases "find_subsequence (buffer @ c) crlf_crlf")
      case None
      have l: "length (unread s') < fuel" using Suc.prems(1) c(2,4) by (cases c) auto
      have "read_http_head_loop env (Suc fuel) buffer s = read_http_head_loop env fuel (buffer @ c) s'"
        unfolding read_http_head_loop_Suc using False' c(1,2) None by (simp add: andthen_def)
      then show ?thesis using Suc.IH [OF l None step Suc.prems(4)] c(4) by simp
    next
      case (Some k)
      with pre have k: "k = i" "i + 4 \<le> length (buffer @ c)" by (simp_all split: if_splits)
      then show ?thesis unfolding read_http_head_loop_Suc using False' c(1,2,4) Some
        by (simp add: andthen_def ret_def)
    qed
  qed (use ne in simp_all)
qed

lemma http_head_run:
  assumes "find_subsequence req crlf_crlf = Some (length req - 4)" and "length req \<le> HTTP_HEADER_MAX_LEN + 1"
  shows "\<exists>pending s'. read_http_head env (session_start (req @ rest)) = (Inr (req, pending), s')
    \<and> pending @ unread s' = rest \<and> trace s' = []"
proof -
  let ?s = "session_start (req @ rest)"
  have u: "unread ?s = req @ rest" "trace ?s = []" by (simp_all add: session_start_def)
  have l: "4 \<le> length req" using find_subsequence_SomeD [OF assms(1)] by simp
  have n: "find_subsequence [] crlf_crlf = None" by (simp add: find_subsequence.simps)
  have f: "find_subsequence ([] @ unread ?s) crlf_crlf = Some (length req - 4)"
    using find_subsequence_append [OF assms(1), of rest] u by simp
  obtain pending s' where r: "read_http_head env ?s = (Inr (req, pending), s')"
    using read_http_head_loop_complete [OF _ n f, of "Suc (length (unread ?s))" env] assms(2) l u
    by (auto simp: read_http_head_def)
  with read_http_head_loop_result [of ?s "Suc (length (unread ?s))" "[]" env, OF _ n] u
  show ?thesis by (auto simp: read_http_head_def)
qed

definition http_status :: "string \<Rightarrow> byte list" where
  "http_status reason = ascii reason @ [13, 10] @ ascii ''Connection: close'' @ [13, 10, 13, 10]"

definition http_replies :: replies where
  "http_replies = \<lparr>r_name = ''http'', r_blocked = http_status ''HTTP/1.1 403 Forbidden'',
     r_refused = http_status ''HTTP/1.1 502 Bad Gateway'',
     r_ok = (\<lambda>_. Some (ascii ''HTTP/1.1 200 Connection Established'' @ [13, 10, 13, 10]))\<rparr>"

text \<open>A request head of at most 8193 bytes: a CONNECT request line whose second word is the
  authority, any header lines, and the empty line.\<close>

definition http_encodes :: "host \<Rightarrow> u16 \<Rightarrow> byte list \<Rightarrow> bool" where
  "http_encodes h p req \<longleftrightarrow>
     find_subsequence req crlf_crlf = Some (length req - 4) \<and> length req \<le> HTTP_HEADER_MAX_LEN + 1
     \<and> starts_with (ascii ''CONNECT '') req \<and> utf8_valid req
     \<and> (\<exists>line authority version. first_line req = Some line
          \<and> split_whitespace line = ascii ''CONNECT'' # authority # version
          \<and> parse_authority authority = Inr (h, p))"

lemma take_append_le: "length xs \<le> n \<Longrightarrow> take n (xs @ ys) = xs @ take (n - length xs) ys"
  by simp

lemma forwards_pending:
  "pending @ left = rest \<Longrightarrow>
   forwards rest ((if pending = [] then [] else [UpstreamWrite pending]) @ [Tunnel left])"
  unfolding forwards_def by blast

lemma upstream_write_run:
  "writes_work env \<Longrightarrow> upstream_write_all env bs = emit (UpstreamWrite bs)"
  by (simp add: upstream_write_all_def writes_work_def)

lemma http_run:
  assumes q: "writes_work env" and "http_encodes h p req"
  shows "\<exists>fwd. forwards rest fwd \<and>
    shown (handle_http_connect env config peer (session_start (req @ rest)))
    = (served http_replies (verdict env config h p),
       lookups h @ service http_replies peer h p fwd (verdict env config h p))"
proof -
  obtain line authority version where e: "find_subsequence req crlf_crlf = Some (length req - 4)"
    "length req \<le> HTTP_HEADER_MAX_LEN + 1" "utf8_valid req" "first_line req = Some line"
    "split_whitespace line = ascii ''CONNECT'' # authority # version"
    "parse_authority authority = Inr (h, p)"
    using assms(2) unfolding http_encodes_def by blast
  obtain pending s' where r: "read_http_head env (session_start (req @ rest)) = (Inr (req, pending), s')"
    "pending @ unread s' = rest" "trace s' = []"
    using http_head_run [OF e(1,2)] by blast
  have "shown (handle_http_connect env config peer (session_start (req @ rest)))
    = (served http_replies (verdict env config h p),
       lookups h @ service http_replies peer h p
         ((if pending = [] then [] else [UpstreamWrite pending]) @ [Tunnel (unread s')])
         (verdict env config h p))"
    unfolding handle_http_connect_def andthen_def [of "read_http_head env"] r(1)
    using e(3-6) q r(3)
    by (simp add: from_utf8_def nth_word_def run_simps verdict_def served_def service_def
        http_replies_def http_status_def shown_tunnel upstream_write_run lift_result_def
        andthen_def [of "\<lambda>s. (Inr (h, p), s)"] Let_def
        del: resolve.simps split: sum.split outcome.split)
  with forwards_pending [OF r(2)] show ?thesis by blast
qed

end
