(* ===== verification/FrontEnds.thy ===== *)
theory FrontEnds
  imports ConnectRuns
begin

text \<open>
  The three encodings keep the contract of \<open>ConnectService\<close>, and the properties of TCP sessions.
\<close>

section \<open>The three front ends keep the contract\<close>

lemma outcome_shown: "outcome_of env config peer input = shown (handle_client env config peer (session_start input))"
  by (simp add: outcome_of_def shown_def)

lemma client_run:
  assumes "first_segment k env" and "0 < k" and "k \<le> PROBE_LEN"
    and "\<And>n. k \<le> n \<Longrightarrow> detect_protocol (take n input) = Some p"
  shows "handle_client env config peer (session_start input)
    = (case p of Socks4 \<Rightarrow> handle_socks4 env config peer | Socks5 \<Rightarrow> handle_socks5 env config peer
        | HttpConnect \<Rightarrow> handle_http_connect env config peer) (session_start input)"
proof -
  obtain n where n: "e_peek env = Done n" "k \<le> n"
    using assms(1) by (auto simp: first_segment_def)
  have long: "k \<le> min PROBE_LEN (max 1 n)" using n assms(3) by simp
  define probe where "probe = take (min PROBE_LEN (max 1 n)) input"
  have d: "detect_protocol probe = Some p" using assms(4) [OF long] by (simp add: probe_def)
  have r: "peek_client env PROBE_LEN (session_start input) = (Inr probe, session_start input)"
    by (simp add: peek_client_def n session_start_def probe_def)
  from d have "length probe \<noteq> 0" by (auto simp: detect_protocol_def)
  then show ?thesis unfolding handle_client_def andthen_def r
    by (simp add: d split: protocol.split)
qed

interpretation socks5: front_end socks5_encodes 1 "[ClientWrite [5, 0]]" socks5_replies
proof
  fix env h p req rest config peer
  assume f: "first_segment 1 env" and a: "writes_work env" "socks5_encodes h p req"
  then obtain r where "req = 5 # r" by (auto simp: socks5_encodes_def)
  then have "handle_client env config peer (session_start (req @ rest))
      = handle_socks5 env config peer (session_start (req @ rest))"
    using client_run [OF f, of "req @ rest" Socks5] by (auto simp: detect_protocol_def take_Cons' PROBE_LEN_def)
  then have "outcome_of env config peer (req @ rest) = (served socks5_replies (verdict env config h p),
      [ClientWrite [5, 0]] @ lookups h
        @ service socks5_replies peer h p [Tunnel rest] (verdict env config h p))"
    using socks5_run [OF a] by (simp add: outcome_shown)
  moreover have "forwards rest [Tunnel rest]" using forwards_pending [of "[]" rest rest] by simp
  ultimately show "\<exists>fwd. forwards rest fwd \<and> outcome_of env config peer (req @ rest)
      = (served socks5_replies (verdict env config h p),
         [ClientWrite [5, 0]] @ lookups h @ service socks5_replies peer h p fwd (verdict env config h p))"
    by blast
qed simp

interpretation socks4: front_end socks4_encodes 1 "[]" socks4_replies
proof
  fix env h p req rest config peer
  assume f: "first_segment 1 env" and a: "writes_work env" "socks4_encodes h p req"
  then have "\<exists>r. req = 4 # r"
    by (cases h; cases "case h of Ip ip \<Rightarrow> ip"; auto simp: socks4_encodes_def split: ipaddr.splits)
  then obtain r where "req = 4 # r" ..
  then have "handle_client env config peer (session_start (req @ rest))
      = handle_socks4 env config peer (session_start (req @ rest))"
    using client_run [OF f, of "req @ rest" Socks4] by (auto simp: detect_protocol_def take_Cons' PROBE_LEN_def)
  then have "outcome_of env config peer (req @ rest) = (served socks4_replies (verdict env config h p),
      [] @ lookups h @ service socks4_replies peer h p [Tunnel rest] (verdict env config h p))"
    using socks4_run [OF a] by (simp add: outcome_shown)
  moreover have "forwards rest [Tunnel rest]" using forwards_pending [of "[]" rest rest] by simp
  ultimately show "\<exists>fwd. forwards rest fwd \<and> outcome_of env config peer (req @ rest)
      = (served socks4_replies (verdict env config h p),
         [] @ lookups h @ service socks4_replies peer h p fwd (verdict env config h p))"
    by blast
qed simp

interpretation http: front_end http_encodes 8 "[]" http_replies
proof
  fix env h p req rest config peer
  assume f: "first_segment 8 env" and a: "writes_work env" "http_encodes h p req"
  then obtain r where r: "req = ascii ''CONNECT '' @ r"
    by (auto simp: http_encodes_def starts_with_iff)
  have "detect_protocol (take n (req @ rest)) = Some HttpConnect" if n: "8 \<le> n" for n
  proof -
    have len: "length (ascii ''CONNECT '') = 8" by simp
    have "take n (req @ rest) = ascii ''CONNECT '' @ take (n - 8) (r @ rest)"
      unfolding r append_assoc using take_append_le [of "ascii ''CONNECT ''" n] n unfolding len by blast
    then show ?thesis by (simp add: detect_protocol_def starts_with_iff)
  qed
  then have "handle_client env config peer (session_start (req @ rest))
      = handle_http_connect env config peer (session_start (req @ rest))"
    using client_run [OF f, of "req @ rest" HttpConnect] r by (simp add: PROBE_LEN_def)
  then show "\<exists>fwd. forwards rest fwd \<and> outcome_of env config peer (req @ rest)
      = (served http_replies (verdict env config h p),
         [] @ lookups h @ service http_replies peer h p fwd (verdict env config h p))"
    using http_run [OF a, of rest config peer] by (simp add: outcome_shown)
qed simp

section \<open>Properties of TCP sessions\<close>

text \<open>A network in which every name resolves to 8.8.8.8, every connection succeeds from 10.0.0.5,
  and reads return 16 bytes at a time.\<close>

definition sample_env :: env where
  "sample_env = \<lparr>e_peek = Done 512, e_chunk = (\<lambda>_. 16), e_reset = False, e_write_ok = (\<lambda>_. True),
     e_lookup = (\<lambda>_. Some [V4 0x08080808]),
     e_connect = (\<lambda>_. Done (Some (SocketAddr (V4 0x0A000005) 4000))),
     e_listen = (\<lambda>a. Some (Some a)), e_accept = TimedOut, e_upstream_write_ok = True,
     e_tunnel_ok = True, e_control_local = None, e_udp_bind = (\<lambda>_. None), e_relay = []\<rparr>"

definition sample_peer :: sockaddr where
  "sample_peer = SocketAddr (V4 0xC0A80002) 50000"

lemma sample_env_writes: "writes_work sample_env"
  by (simp add: writes_work_def sample_env_def)

lemma sample_env_first: "first_segment 1 sample_env" "first_segment 8 sample_env"
  by (simp_all add: first_segment_def sample_env_def)

definition sample_config :: app_config where
  "sample_config = default_config\<lparr>no_loopback := True\<rparr>"

lemma sample_config_blocks [simp]: "block_special_addrs sample_config"
  by (simp add: sample_config_def block_special_addrs_def)

lemma sample_v4 [simp]: "octets4 0x08080808 = [8, 8, 8, 8]" "\<not> is_rfc6890_special (V4 0x08080808)"
  by code_simp+

lemma sample_loopback [simp]: "octets4 0x7F000001 = [127, 0, 0, 1]" "is_rfc6890_special (V4 0x7F000001)"
  by code_simp+

lemma sample_socks5: "socks5_encodes (Ip (V4 0x08080808)) 53 [5, 1, 0, 5, 1, 0, 1, 8, 8, 8, 8, 0, 53]"
  unfolding socks5_encodes_def encodable_def
  by (rule conjI, simp, intro exI [of _ "[0]"]) (simp add: socks5_address_def be_bytes_def upt_rec)

lemma sample_socks5_loopback:
  "socks5_encodes (Ip (V4 0x7F000001)) 53 [5, 1, 0, 5, 1, 0, 1, 127, 0, 0, 1, 0, 53]"
  unfolding socks5_encodes_def encodable_def
  by (rule conjI, simp, intro exI [of _ "[0]"]) (simp add: socks5_address_def be_bytes_def upt_rec)

lemma sample_verdict:
  "verdict sample_env sample_config (Ip (V4 0x08080808)) p
    = Connected (SocketAddr (V4 0x08080808) p) (Some (SocketAddr (V4 0x0A000005) 4000))"
  by (simp add: verdict_def target_of_def ret_def sample_env_def del: is_rfc6890_special.simps)

lemma sample_run:
  "TcpConnect (SocketAddr (V4 0x08080808) 53) \<in> set (trace (snd
     (handle_client sample_env sample_config sample_peer
       (session_start [5, 1, 0, 5, 1, 0, 1, 8, 8, 8, 8, 0, 53]))))"
proof -
  have "TcpConnect (SocketAddr (V4 0x08080808) 53) \<in> set (snd (outcome_of sample_env sample_config
      sample_peer ([5, 1, 0, 5, 1, 0, 1, 8, 8, 8, 8, 0, 53] @ [])))"
    using socks5.implements [OF sample_env_first(1) sample_env_writes sample_socks5, of "[]" sample_config sample_peer]
    by (auto simp: sample_verdict service_def Let_def)
  then show ?thesis by (simp add: outcome_of_def split: prod.splits sum.splits)
qed

lemma sample_socks4: "socks4_encodes (Name (ascii ''a.io'')) 80
    ([4, 1, 0, 80, 0, 0, 0, 1, 0] @ ascii ''a.io'' @ [0])"
  unfolding socks4_encodes_def
  by (intro exI [of _ "[]"]) (simp add: SOCKS4_FIELD_MAX_LEN_def be_bytes_def upt_rec utf8_valid_ascii
    between_def cont_def)

lemma sample_verdict_name:
  "parse_ip n = None \<Longrightarrow> verdict sample_env sample_config (Name n) p
    = Connected (SocketAddr (V4 0x08080808) p) (Some (SocketAddr (V4 0x0A000005) 4000))"
  by (simp add: verdict_def target_of_def io_defs session_start_def sample_env_def
      del: is_rfc6890_special.simps)

lemma sample_name: "parse_ip (ascii ''a.io'') = None"
  by (simp add: ip_parser_defs parse_simps)

definition sample_head :: "byte list" where
  "sample_head = ascii ''CONNECT a.io:80 HTTP/1.1'' @ [13, 10, 13, 10]"

lemma dec_80: "dec 80 = [56, 48]"
  by (simp add: dec.simps [of 80] dec.simps [of 8])

lemma sample_authority: "parse_authority (ascii ''a.io:80'') = Inr (Name (ascii ''a.io''), 80)"
  using parse_authority_unbracketed [of "ascii ''a.io''" 80] sample_name
  by (simp add: starts_with_def dec_80)

lemma sample_http: "http_encodes (Name (ascii ''a.io'')) 80 sample_head"
proof -
  have a: "find_subsequence sample_head crlf_crlf = Some (length sample_head - 4)"
    by (simp add: sample_head_def crlf_crlf_def find_subsequence.simps)
  have b: "length sample_head \<le> HTTP_HEADER_MAX_LEN + 1"
    by (simp add: sample_head_def HTTP_HEADER_MAX_LEN_def)
  have c: "starts_with (ascii ''CONNECT '') sample_head"
    unfolding starts_with_iff sample_head_def by (simp add: ascii_def)
  have d: "utf8_valid sample_head" by (rule utf8_valid_ascii) (simp add: sample_head_def)
  have e: "first_line sample_head = Some (ascii ''CONNECT a.io:80 HTTP/1.1'')"
    by (simp add: first_line_def sample_head_def)
  have f: "split_whitespace (ascii ''CONNECT a.io:80 HTTP/1.1'') = ascii ''CONNECT'' # ascii ''a.io:80'' # [ascii ''HTTP/1.1'']"
    by (simp add: split_whitespace.simps trim_start.simps between_def cont_def)
  show ?thesis unfolding http_encodes_def using a b c d e f sample_authority by blast
qed

text \<open>(C1) With the filter on, no TCP session connects to a special-purpose address and none forwards a
  client's datagram to one, whatever the client sends and whatever the network and the resolver do:
  the check always sits between the resolution and the use of an address. The filter does not look at
  the return path of a UDP association. What a session sends there is always a datagram that the relay
  has received and that is no request, unchanged behind a header with its source; where it goes is
  the subject of the relay's own properties (an association can name any address for it).\<close>

theorem session_respects_filter:
  assumes "block_special_addrs config"
    and "e \<in> set (trace (snd (handle_client env config peer (session_start input))))"
  shows "case e of
      TcpConnect a \<Rightarrow> \<not> is_rfc6890_special (sa_ip a)
    | UdpToTarget a payload \<Rightarrow> \<not> is_rfc6890_special (sa_ip a)
    | UdpToClient a bs \<Rightarrow>
        (\<exists>packet source err. UdpRecv (Some (packet, source)) \<in> set (e_relay env)
           \<and> parse_socks5_udp_request (take UDP_PACKET_MAX_LEN packet) = Inl err
           \<and> bs = build_socks5_udp_response source (take UDP_PACKET_MAX_LEN packet))
    | _ \<Rightarrow> True"
proof -
  have "list_all (target_allowed config (e_relay env))
      (trace (snd (handle_client env config peer (session_start input))))"
    using emits_client [of config env peer] unfolding emits_def
    by (metis append_Nil session.select_convs(4) session_start_def)
  with assms show ?thesis
    by (auto simp: list_all_iff target_allowed_def returns_datagram_def split: event.splits)
qed

theorem session_respects_filter_witness:
  "TcpConnect (SocketAddr (V4 0x08080808) 53) \<in> set (trace (snd
     (handle_client sample_env sample_config sample_peer
       (session_start [5, 1, 0, 5, 1, 0, 1, 8, 8, 8, 8, 0, 53]))))
   \<and> \<not> is_rfc6890_special (sa_ip (SocketAddr (V4 0x08080808) 53))"
  using session_respects_filter [OF sample_config_blocks sample_run] sample_run by simp

text \<open>(C5) A SOCKS5 CONNECT request for an address or a valid domain name of at most 255 bytes that offers the
  method without authentication, from a client whose first
  segment has at least one byte: the session is the connect service. It sends the method reply,
  resolves, logs, filters, tries to connect, sends the exact reply bytes, and passes every later client
  byte to the target; it succeeds exactly when the connection did and the local address is known. If a
  write fails, it stops there without success, having done a first part of that and nothing else.\<close>

theorem socks5_connect_refines:
  assumes "first_segment 1 env" and "socks5_encodes h p req"
  shows "\<exists>fwd. forwards rest fwd \<and> carries_out env (outcome_of env config peer (req @ rest))
    (served socks5_replies (verdict env config h p),
     [ClientWrite [5, 0]] @ lookups h @ service socks5_replies peer h p fwd (verdict env config h p))"
  using socks5.promise [OF assms] by blast

text \<open>A client that sends its three bytes of greeting and waits.\<close>

theorem socks5_connect_refines_witness:
  "outcome_of (sample_env\<lparr>e_peek := Done 3\<rparr>) sample_config sample_peer
     ([5, 1, 0, 5, 1, 0, 1, 8, 8, 8, 8, 0, 53] @ [])
   = (True, [ClientWrite [5, 0],
       LogRequest sample_peer (Ip (V4 0x08080808)) 53 ''tcp'' (SocketAddr (V4 0x08080808) 53) ''socks5'',
       TcpConnect (SocketAddr (V4 0x08080808) 53),
       ClientWrite [5, 0, 0, 1, 10, 0, 0, 5, 15, 160], Tunnel []])"
proof -
  let ?env = "sample_env\<lparr>e_peek := Done 3\<rparr>"
  have e: "first_segment 1 ?env" "writes_work ?env"
    by (simp_all add: first_segment_def writes_work_def sample_env_def)
  have "verdict ?env sample_config (Ip (V4 0x08080808)) 53
      = Connected (SocketAddr (V4 0x08080808) 53) (Some (SocketAddr (V4 0x0A000005) 4000))"
    by (simp add: verdict_def target_of_def ret_def sample_env_def del: is_rfc6890_special.simps)
  moreover obtain fwd where "forwards [] fwd"
    and "carries_out ?env (outcome_of ?env sample_config sample_peer ([5, 1, 0, 5, 1, 0, 1, 8, 8, 8, 8, 0, 53] @ []))
      (served socks5_replies (verdict ?env sample_config (Ip (V4 0x08080808)) 53),
       [ClientWrite [5, 0]] @ lookups (Ip (V4 0x08080808)) @ service socks5_replies sample_peer (Ip (V4 0x08080808)) 53 fwd
         (verdict ?env sample_config (Ip (V4 0x08080808)) 53))"
    using socks5_connect_refines [OF e(1) sample_socks5, of "[]" sample_config sample_peer] by blast
  moreover have "octets4 0x0A000005 = [10, 0, 0, 5]" "be_bytes 2 (4000 :: u16) = [15, 160]" by code_simp+
  ultimately show ?thesis using carries_outD [OF _ e(2)]
    by (auto simp: served_def service_def Let_def forwards_def lookups_def socks5_replies_def socks5_reply_def)
qed

text \<open>(C6) SOCKS4 and SOCKS4a requests get the same service, with their own replies, whatever the length of
  the first segment; a failed write ends the session there, without success.\<close>

theorem socks4_connect_refines:
  assumes "first_segment 1 env" and "socks4_encodes h p req"
  shows "\<exists>fwd. forwards rest fwd \<and> carries_out env (outcome_of env config peer (req @ rest))
    (served socks4_replies (verdict env config h p),
     lookups h @ service socks4_replies peer h p fwd (verdict env config h p))"
  using socks4.promise [OF assms] by simp

theorem socks4_connect_refines_witness:
  "outcome_of sample_env sample_config sample_peer
     (([4, 1, 0, 80, 0, 0, 0, 1, 0] @ ascii ''a.io'' @ [0]) @ [])
   = (True, [Lookup (ascii ''a.io''),
       LogRequest sample_peer (Name (ascii ''a.io'')) 80 ''tcp'' (SocketAddr (V4 0x08080808) 80) ''socks4'',
       TcpConnect (SocketAddr (V4 0x08080808) 80),
       ClientWrite [0, 90, 0, 0, 0, 0, 0, 0], Tunnel []])"
proof -
  obtain fwd where "forwards [] fwd" and "carries_out sample_env (outcome_of sample_env sample_config sample_peer (([4, 1, 0, 80, 0, 0, 0, 1, 0] @ ascii ''a.io'' @ [0]) @ []))
    (served socks4_replies (verdict sample_env sample_config (Name (ascii ''a.io'')) 80),
     lookups (Name (ascii ''a.io'')) @ service socks4_replies sample_peer (Name (ascii ''a.io'')) 80 fwd
       (verdict sample_env sample_config (Name (ascii ''a.io'')) 80))"
    using socks4_connect_refines [OF sample_env_first(1) sample_socks4, of "[]" sample_config sample_peer] by blast
  then show ?thesis
    using carries_outD [OF _ sample_env_writes]
    by (auto simp: sample_verdict_name [OF sample_name] sample_name served_def service_def Let_def
      forwards_def lookups_def socks4_replies_def socks4_reply_def simp del: ascii_simps)
qed

text \<open>(C7) An HTTP CONNECT request with a head of at most 8193 bytes whose first segment holds at least 8 bytes (\<open>CONNECT\<close> and a space; with
  fewer the session is turned away, \<open>short_first_segment_rejected\<close> in UdpSessions) gets the same service,
  however the rest of its head is cut into reads: the bytes that were read past the head are written to
  the target before the tunnel starts. A failed write ends the session there, without success.\<close>

theorem http_connect_refines:
  assumes "first_segment 8 env" and "http_encodes h p req"
  shows "\<exists>fwd. forwards rest fwd \<and> carries_out env (outcome_of env config peer (req @ rest))
    (served http_replies (verdict env config h p),
     lookups h @ service http_replies peer h p fwd (verdict env config h p))"
  using http.promise [OF assms] by simp

theorem http_connect_refines_witness:
  "outcome_of sample_env sample_config sample_peer (sample_head @ [])
   = (True, [Lookup (ascii ''a.io''),
       LogRequest sample_peer (Name (ascii ''a.io'')) 80 ''tcp'' (SocketAddr (V4 0x08080808) 80) ''http'',
       TcpConnect (SocketAddr (V4 0x08080808) 80),
       ClientWrite (ascii ''HTTP/1.1 200 Connection Established'' @ [13, 10, 13, 10]), Tunnel []])"
proof -
  obtain fwd where "forwards [] fwd" and "carries_out sample_env (outcome_of sample_env sample_config sample_peer (sample_head @ []))
    (served http_replies (verdict sample_env sample_config (Name (ascii ''a.io'')) 80),
     lookups (Name (ascii ''a.io'')) @ service http_replies sample_peer (Name (ascii ''a.io'')) 80 fwd
       (verdict sample_env sample_config (Name (ascii ''a.io'')) 80))"
    using http_connect_refines [OF sample_env_first(2) sample_http, of "[]" sample_config sample_peer] by blast
  then show ?thesis
    using carries_outD [OF _ sample_env_writes]
    by (auto simp: sample_verdict_name [OF sample_name] sample_name served_def service_def Let_def
      forwards_def lookups_def http_replies_def simp del: ascii_simps)
qed

text \<open>After a successful HTTP CONNECT the target receives exactly the client bytes that follow
  the head, in order: none lost, none repeated, none of the head.\<close>

theorem http_bytes_reach_target:
  assumes "first_segment 8 env" and "writes_work env" and "http_encodes h p req"
    and "outcome_of env config peer (req @ rest) = (True, es)"
  shows "concat (map upstream_of es) = rest"
  by (rule http.bytes_reach_target [OF assms])

theorem http_bytes_reach_target_witness:
  "\<exists>es. outcome_of sample_env sample_config sample_peer (sample_head @ [22, 3, 1]) = (True, es)
    \<and> concat (map upstream_of es) = [22, 3, 1]"
proof -
  have "fst (outcome_of sample_env sample_config sample_peer (sample_head @ [22, 3, 1]))"
    unfolding http.served_iff [OF sample_env_first(2) sample_env_writes sample_http]
    by (simp add: sample_verdict_name [OF sample_name] served_def http_replies_def del: ascii_simps)
  then obtain es where "outcome_of sample_env sample_config sample_peer (sample_head @ [22, 3, 1]) = (True, es)"
    by (metis prod.collapse)
  with http_bytes_reach_target [OF sample_env_first(2) sample_env_writes sample_http this] show ?thesis by blast
qed

text \<open>A filtered target of a SOCKS5 CONNECT is refused with reply code 2 and never connected.\<close>

theorem socks5_refuses_filtered:
  assumes "first_segment 1 env" and "writes_work env" and "socks5_encodes h p req" and "verdict env config h p = Blocked t"
  shows "outcome_of env config peer (req @ rest)
    = (False, [ClientWrite [5, 0]] @ lookups h
         @ [LogRequest peer h p ''tcp'' t ''socks5'', ClientWrite (socks5_reply 2 unspecified_v4)])"
  using socks5.refuses_filtered [OF assms] by (simp add: socks5_replies_def)

theorem socks5_refuses_filtered_witness:
  "outcome_of sample_env sample_config sample_peer ([5, 1, 0, 5, 1, 0, 1, 127, 0, 0, 1, 0, 53] @ [])
   = (False, [ClientWrite [5, 0],
       LogRequest sample_peer (Ip (V4 0x7F000001)) 53 ''tcp'' (SocketAddr (V4 0x7F000001) 53) ''socks5'',
       ClientWrite [5, 2, 0, 1, 0, 0, 0, 0, 0, 0]])"
proof -
  have "verdict sample_env sample_config (Ip (V4 0x7F000001)) 53 = Blocked (SocketAddr (V4 0x7F000001) 53)"
    by (simp add: verdict_def target_of_def ret_def del: is_rfc6890_special.simps)
  from socks5_refuses_filtered [OF sample_env_first(1) sample_env_writes sample_socks5_loopback this, of sample_peer "[]"]
  show ?thesis
    by (simp add: lookups_def socks5_reply_def octets4_def be_bytes_def upt_rec)
qed

text \<open>(C36) Reading a request head always ends without exhausting the fuel of the model, and on every way
  out, errors included, it has taken at most 8192 + 1024 bytes from the client, also from one that never
  sends an empty line. It succeeds only at the first empty line and keeps every byte it read past it; a
  head of at most 8193 bytes is accepted however the client cuts it.\<close>

theorem read_http_head_spec:
  "case read_http_head env (session_start input) of
     (Inl e, s) \<Rightarrow> e \<noteq> ''out of fuel''
       \<and> (\<exists>taken. taken @ unread s = input \<and> length taken \<le> HTTP_HEADER_MAX_LEN + 1024)
       \<and> (\<forall>i. find_subsequence input crlf_crlf = Some i \<longrightarrow> HTTP_HEADER_MAX_LEN + 1 < i + 4)
   | (Inr (head, pending), s) \<Rightarrow> head @ pending @ unread s = input
       \<and> find_subsequence input crlf_crlf = Some (length head - 4) \<and> 4 \<le> length head
       \<and> length (head @ pending) \<le> HTTP_HEADER_MAX_LEN + 1024"
proof -
  let ?s = "session_start input"
  have u: "unread ?s = input" by (simp add: session_start_def)
  have n: "find_subsequence [] crlf_crlf = None" by (simp add: find_subsequence.simps)
  note result = read_http_head_loop_result [of ?s "Suc (length input)" "[]" env, OF _ n, unfolded u, simplified]
  note complete = read_http_head_loop_complete [of ?s "Suc (length input)" "[]" _ env, OF _ n, unfolded u]
  obtain r s where r: "read_http_head_loop env (Suc (length input)) [] ?s = (r, s)" by fastforce
  show ?thesis
  proof (cases r)
    case (Inl e)
    have "HTTP_HEADER_MAX_LEN + 1 < i + 4" if "find_subsequence input crlf_crlf = Some i" for i
      using complete [of i] that r Inl by (cases "i + 4 \<le> HTTP_HEADER_MAX_LEN + 1") auto
    with result r Inl show ?thesis by (simp add: read_http_head_def u)
  next
    case (Inr hp)
    obtain head pending where hp: "hp = (head, pending)" by fastforce
    with result r Inr have f: "head @ pending @ unread s = input"
      "find_subsequence (head @ pending) crlf_crlf = Some (length head - 4)" "4 \<le> length head"
      "length (head @ pending) \<le> HTTP_HEADER_MAX_LEN + 1024" by simp_all
    have "find_subsequence input crlf_crlf = Some (length head - 4)"
      using find_subsequence_append [OF f(2) crlf_crlf_facts(1), of "unread s"] f(1) by simp
    with f r Inr hp show ?thesis by (simp add: read_http_head_def u)
  qed
qed

theorem read_http_head_spec_witness:
  "\<exists>pending s. read_http_head sample_env (session_start (sample_head @ [1, 2])) = (Inr (sample_head, pending), s)
    \<and> pending @ unread s = [1, 2]"
proof -
  have f: "find_subsequence (sample_head @ [1, 2]) crlf_crlf = Some 24"
    by (simp add: sample_head_def crlf_crlf_def find_subsequence.simps)
  obtain r s where r: "read_http_head sample_env (session_start (sample_head @ [1, 2])) = (r, s)" by fastforce
  have l: "length sample_head = 28" by (simp add: sample_head_def)
  have split: "a = sample_head \<and> b = [1, 2]" if "a @ b = sample_head @ [1, 2]" "length a = 28" for a b
    using that l append_eq_append_conv [of a sample_head b "[1, 2]"] by simp
  show ?thesis
  proof (cases r)
    case (Inl e)
    with read_http_head_spec [of "sample_head @ [1, 2]" sample_env] r f show ?thesis
      by (simp add: HTTP_HEADER_MAX_LEN_def)
  next
    case (Inr hp)
    with read_http_head_spec [of "sample_head @ [1, 2]" sample_env] r f l show ?thesis
      by (cases hp) (auto dest: split)
  qed
qed

end
