(* ===== verification/UdpSessions.thy ===== *)
theory UdpSessions
  imports FrontEnds
begin

text \<open>
  Properties of the UDP relay of \<open>UdpRelay\<close>: to whom it sends, its refinement of an abstract dialogue, the
  datagrams that the content test assigns to the wrong side, and the return path, which is not filtered.
\<close>

section \<open>Who is answered\<close>

definition asks :: "byte list \<Rightarrow> bool" where
  "asks packet = (case parse_socks5_udp_request packet of Inr (_, _, _, frag) \<Rightarrow> frag = 0 | Inl _ \<Rightarrow> False)"

text \<open>The addresses that may be answered: the one announced with the association, and every source
  of a request datagram.\<close>

definition requesters :: "host \<Rightarrow> u16 \<Rightarrow> relay_event list \<Rightarrow> sockaddr set" where
  "requesters h p evs =
     {a. client_udp_addr (relay_init h p) = Some a}
     \<union> {a. \<exists>packet. UdpRecv (Some (packet, a)) \<in> set evs \<and> asks (take UDP_PACKET_MAX_LEN packet)}"

definition answers_only :: "sockaddr set \<Rightarrow> event \<Rightarrow> bool" where
  "answers_only A e = (case e of UdpToClient a _ \<Rightarrow> a \<in> A | _ \<Rightarrow> True)"

lemma answers_only_simps [simp]:
  "answers_only A (Lookup n)" "answers_only A (LogRequest a h p t r x)"
  "answers_only A (UdpToTarget b bs)" "answers_only A (UdpToClient b bs) = (b \<in> A)"
  by (simp_all add: answers_only_def)

definition client_in :: "sockaddr set \<Rightarrow> relay \<Rightarrow> bool" where
  "client_in A st \<longleftrightarrow> (\<forall>a. client_udp_addr st = Some a \<longrightarrow> a \<in> A)"

lemma client_in_simps [simp]:
  "client_in A (st\<lparr>target_cache := c\<rparr>) = client_in A st"
  "client_in A (st\<lparr>client_udp_addr := Some a\<rparr>) = (a \<in> A)"
  "client_in A (st\<lparr>client_udp_addr := Some a, target_cache := c\<rparr>) = (a \<in> A)"
  by (simp_all add: client_in_def)

lemma datagram_answers:
  assumes "client_in A st" and "asks packet \<longrightarrow> source \<in> A"
  shows "emits (answers_only A) (relay_datagram env config peer_addr st packet source)"
    and "returns (client_in A) (relay_datagram env config peer_addr st packet source)"
  using assms unfolding relay_datagram_def asks_def
  by (auto simp: Let_def client_in_def [of A st] returns_ret
      intro!: emits_intros returns_andthen returns_try_else split: sum.split prod.split option.split)

lemma relay_loop_answers:
  assumes "client_in A st"
    and "\<And>packet a. UdpRecv (Some (packet, a)) \<in> set evs \<Longrightarrow> asks (take UDP_PACKET_MAX_LEN packet) \<Longrightarrow> a \<in> A"
  shows "emits (answers_only A) (relay_loop env config peer_addr st evs)"
  using assms
proof (induction env config peer_addr st evs rule: relay_loop.induct)
  case (5 env config peer_addr st packet source evs)
  have ok: "asks (take UDP_PACKET_MAX_LEN packet) \<longrightarrow> source \<in> A" using 5(3) [of packet source] by simp
  show ?case unfolding relay_loop.simps
    by (rule emits_andthen_returns [OF datagram_answers [OF 5(2) ok]]) (rule 5(1), simp, rule 5(3), simp_all)
qed (auto intro: emits_intros)

text \<open>(C18) The UDP relay sends datagrams back only to the address announced with the association or
  to a source that sent a well-formed, unfragmented request on this association.\<close>

theorem relay_answers_requesters_only:
  assumes "UdpToClient a bs
    \<in> set (trace (snd (relay_loop env config peer (relay_init h p) evs (session_start input))))"
  shows "a \<in> requesters h p evs"
proof -
  have "emits (answers_only (requesters h p evs)) (relay_loop env config peer (relay_init h p) evs)"
    by (rule relay_loop_answers) (auto simp: client_in_def requesters_def)
  then have "list_all (answers_only (requesters h p evs))
      (trace (snd (relay_loop env config peer (relay_init h p) evs (session_start input))))"
    unfolding emits_def by (metis append_Nil session.select_convs(4) session_start_def)
  with assms show ?thesis by (auto simp: list_all_iff answers_only_def)
qed

lemma sample_datagram:
  "parse_socks5_udp_request [0, 0, 0, 1, 8, 8, 8, 8, 0, 53, 1, 2] = Inr (Ip (V4 0x08080808), 53, [1, 2], 0)"
  by (simp add: parse_socks5_udp_request_def parse_socks5_host_from_bytes_def get_range_def
      get_from_def be_val_def)

lemma sample_answer: "parse_socks5_udp_request [7, 7, 7] = Inl ''SOCKS5 UDP packet too short''"
  by (simp add: parse_socks5_udp_request_def)

lemma request_step:
  assumes "parse_socks5_udp_request packet = Inr (h, p, payload, 0)" and "target_of env h p = Inr t"
    and "\<not> (block_special_addrs config \<and> is_rfc6890_special (sa_ip t))"
    and "target_cache st (h, p) = None"
  shows "relay_datagram env config peer st packet client s
    = (Inr (st\<lparr>client_udp_addr := Some client, target_cache := (target_cache st)((h, p) \<mapsto> t)\<rparr>),
       s\<lparr>trace := trace s @ lookups h
          @ [LogRequest peer h p ''udp'' t ''socks5'', UdpToTarget t payload]\<rparr>)"
  using assms(1,2,4)
  by (simp add: relay_datagram_def try_else_def resolve_run log_request_def emit_run ret_apply Let_def
      if_not_P [OF assms(3)] del: resolve.simps)

text \<open>A later request for the same host and port uses the address found before: no lookup, no log line.\<close>

lemma cached_step:
  assumes "parse_socks5_udp_request packet = Inr (h, p, payload, 0)" and "target_cache st (h, p) = Some t"
  shows "relay_datagram env config peer st packet client s
    = (Inr (st\<lparr>client_udp_addr := Some client\<rparr>), s\<lparr>trace := trace s @ [UdpToTarget t payload]\<rparr>)"
  using assms by (simp add: relay_datagram_def emit_run ret_apply Let_def)

text \<open>A datagram that is not a request goes to the current client.\<close>

lemma response_step:
  assumes "parse_socks5_udp_request packet = Inl e" and "client_udp_addr st = Some client"
  shows "relay_datagram env config peer st packet t s
    = (Inr st, s\<lparr>trace := trace s @ [UdpToClient client (build_socks5_udp_response t packet)]\<rparr>)"
  using assms by (simp add: relay_datagram_def emit_run ret_apply)

section \<open>Dialogues through the relay\<close>

text \<open>
  The relay as its users see it. A datagram in the format of RFC 1928 names a host and a port; a turn
  of a dialogue is a client's payload for such an address, or a datagram of a target. \<open>dialogue\<close> says
  what is to happen, without the relay's cache and its parser: \<open>asker\<close> is the client that asked last,
  \<open>known\<close> are the addresses that were resolved and passed the filter.
\<close>

definition socks5_datagram :: "host \<Rightarrow> u16 \<Rightarrow> byte list \<Rightarrow> byte list" where
  "socks5_datagram h p payload = [0, 0, 0] @ socks5_address h @ be_bytes 2 p @ payload"

datatype turn =
    Ask sockaddr host u16 "byte list"
  | Reply sockaddr "byte list"

fun on_wire :: "turn \<Rightarrow> relay_event" where
  "on_wire (Ask client h p payload) = UdpRecv (Some (socks5_datagram h p payload, client))"
| "on_wire (Reply t bs) = UdpRecv (Some (bs, t))"

text \<open>Datagrams fit the relay's buffer, and a target's datagram does not begin with two zero bytes (the
  relay takes it for a request then, see below).\<close>

fun wf_turn :: "turn \<Rightarrow> bool" where
  "wf_turn (Ask client h p payload) =
     (encodable h \<and> length (socks5_datagram h p payload) \<le> UDP_PACKET_MAX_LEN)"
| "wf_turn (Reply t bs) = (length bs \<le> UDP_PACKET_MAX_LEN \<and> take 2 bs \<noteq> [0, 0])"

definition blocks :: "app_config \<Rightarrow> sockaddr \<Rightarrow> bool" where
  "blocks config t \<longleftrightarrow> block_special_addrs config \<and> is_rfc6890_special (sa_ip t)"

fun dialogue ::
    "env \<Rightarrow> app_config \<Rightarrow> sockaddr \<Rightarrow> sockaddr option \<Rightarrow> (host \<times> u16) set \<Rightarrow> turn list \<Rightarrow> event list" where
  "dialogue env config peer asker known [] = []"
| "dialogue env config peer asker known (Ask client h p payload # turns) =
     (case target_of env h p of
        Inl _ \<Rightarrow> lookups h @ dialogue env config peer (Some client) known turns
      | Inr t \<Rightarrow>
          if (h, p) \<in> known
          then UdpToTarget t payload # dialogue env config peer (Some client) known turns
          else
            lookups h @ LogRequest peer h p ''udp'' t ''socks5'' #
            (if blocks config t then dialogue env config peer (Some client) known turns
             else UdpToTarget t payload # dialogue env config peer (Some client) (insert (h, p) known) turns))"
| "dialogue env config peer asker known (Reply t bs # turns) =
     (case asker of None \<Rightarrow> [] | Some client \<Rightarrow> [UdpToClient client (socks5_datagram (Ip (sa_ip t)) (sa_port t) bs)])
     @ dialogue env config peer asker known turns"

lemma parse_datagram:
  assumes "encodable h"
  shows "parse_socks5_udp_request (socks5_datagram h p payload) = Inr (h, p, payload, 0)"
proof (cases h)
  case (Ip ip)
  have "socks5_datagram h p payload = build_socks5_udp_response (SocketAddr ip p) payload"
    by (cases ip) (simp_all add: Ip socks5_datagram_def socks5_address_def build_socks5_udp_response_def)
  then show ?thesis by (simp add: parse_build_udp Ip)
next
  case (Name d)
  with assms have d: "length d < 256" "from_utf8 d = Some d" by (simp_all add: encodable_def from_utf8_def)
  then have "parse_socks5_host_from_bytes 3 (of_nat (length d) # d @ r) = Inr (Name d, Suc (length d))" for r
    by (simp add: parse_socks5_host_from_bytes_def get_range_def unat_length uncons_def)
  moreover obtain p1 p2 where "be_bytes 2 p = [p1, p2]" "be_val [p1, p2] = p" by (rule be_bytes2E)
  ultimately show ?thesis
    by (simp add: Name socks5_datagram_def socks5_address_def parse_socks5_udp_request_def get_range_def
        get_from_def nth_append eval_nat_numeral)
qed

lemma reply_no_request:
  assumes "take 2 bs \<noteq> [0, 0]"
  obtains e where "parse_socks5_udp_request bs = Inl e"
proof (cases "length bs < 4")
  case False
  then obtain a b c where "bs = a # b # c" by (cases bs; cases "tl bs") auto
  with assms False have "parse_socks5_udp_request bs = Inl ''SOCKS5 UDP packet has invalid RSV''"
    by (auto simp: parse_socks5_udp_request_def)
  then show ?thesis by (rule that)
qed (simp add: parse_socks5_udp_request_def that)

text \<open>The relay's state stands for the dialogue's: its cache holds the known addresses, resolved.\<close>

definition stands_for :: "env \<Rightarrow> app_config \<Rightarrow> relay \<Rightarrow> sockaddr option \<Rightarrow> (host \<times> u16) set \<Rightarrow> bool" where
  "stands_for env config st asker known \<longleftrightarrow>
     client_udp_addr st = asker
     \<and> (\<forall>h p. target_cache st (h, p) = (case target_of env h p of
           Inl _ \<Rightarrow> None | Inr t \<Rightarrow> if (h, p) \<in> known then Some t else None))"

lemma stands_forD:
  "stands_for env config st asker known \<Longrightarrow> target_of env h p = Inr t \<Longrightarrow>
   target_cache st (h, p) = (if (h, p) \<in> known then Some t else None)"
  "stands_for env config st asker known \<Longrightarrow> target_of env h p = Inl e \<Longrightarrow> target_cache st (h, p) = None"
  by (simp_all add: stands_for_def)

text \<open>One datagram is one turn.\<close>

lemma ask_step:
  assumes s: "stands_for env config st asker known" and w: "wf_turn (Ask client h p payload)"
  obtains st' known' es where
    "relay_datagram env config peer st (socks5_datagram h p payload) client s = (Inr st', s\<lparr>trace := trace s @ es\<rparr>)"
    and "stands_for env config st' (Some client) known'"
    and "\<And>turns. dialogue env config peer asker known (Ask client h p payload # turns)
      = es @ dialogue env config peer (Some client) known' turns"
proof -
  note parse = parse_datagram [of h p payload]
  show ?thesis
  proof (cases "target_of env h p")
    case (Inl e)
    show ?thesis
    proof (rule that)
      show "relay_datagram env config peer st (socks5_datagram h p payload) client s
          = (Inr (st\<lparr>client_udp_addr := Some client\<rparr>), s\<lparr>trace := trace s @ lookups h\<rparr>)"
        using parse w stands_forD(2) [OF s Inl] Inl
        by (simp add: relay_datagram_def try_else_def resolve_run ret_apply Let_def del: resolve.simps)
      show "stands_for env config (st\<lparr>client_udp_addr := Some client\<rparr>) (Some client) known"
        using s by (simp add: stands_for_def)
    qed (simp add: Inl)
  next
    case (Inr t)
    consider "(h, p) \<in> known" | "(h, p) \<notin> known" "blocks config t" | "(h, p) \<notin> known" "\<not> blocks config t" by blast
    then show ?thesis
    proof cases
      case 1
      show ?thesis
      proof (rule that)
        show "relay_datagram env config peer st (socks5_datagram h p payload) client s
            = (Inr (st\<lparr>client_udp_addr := Some client\<rparr>), s\<lparr>trace := trace s @ [UdpToTarget t payload]\<rparr>)"
          using cached_step [of _ h p payload st t] parse w stands_forD(1) [OF s Inr] 1 by simp
        show "stands_for env config (st\<lparr>client_udp_addr := Some client\<rparr>) (Some client) known"
          using s by (simp add: stands_for_def)
      qed (simp add: Inr 1)
    next
      case 2
      show ?thesis
      proof (rule that)
        show "relay_datagram env config peer st (socks5_datagram h p payload) client s
            = (Inr (st\<lparr>client_udp_addr := Some client\<rparr>),
               s\<lparr>trace := trace s @ lookups h @ [LogRequest peer h p ''udp'' t ''socks5'']\<rparr>)"
          using parse w stands_forD(1) [OF s Inr] 2 Inr
          by (simp add: relay_datagram_def try_else_def resolve_run log_request_def emit_run ret_apply Let_def
              blocks_def del: resolve.simps)
        show "stands_for env config (st\<lparr>client_udp_addr := Some client\<rparr>) (Some client) known"
          using s by (simp add: stands_for_def)
      qed (simp add: Inr 2)
    next
      case 3
      show ?thesis
      proof (rule that)
        show "relay_datagram env config peer st (socks5_datagram h p payload) client s
            = (Inr (st\<lparr>client_udp_addr := Some client, target_cache := (target_cache st)((h, p) \<mapsto> t)\<rparr>),
               s\<lparr>trace := trace s @ lookups h @ [LogRequest peer h p ''udp'' t ''socks5'', UdpToTarget t payload]\<rparr>)"
          using request_step [OF parse Inr] w stands_forD(1) [OF s Inr] 3 by (simp add: blocks_def)
        show "stands_for env config (st\<lparr>client_udp_addr := Some client, target_cache := (target_cache st)((h, p) \<mapsto> t)\<rparr>)
            (Some client) (insert (h, p) known)"
          using s Inr by (auto simp: stands_for_def split: sum.split)
      qed (simp add: Inr 3)
    qed
  qed
qed

lemma reply_step:
  assumes "stands_for env config st asker known" and "take 2 bs \<noteq> [0, 0]"
  shows "relay_datagram env config peer st bs t s
    = (Inr st, s\<lparr>trace := trace s @ (case asker of None \<Rightarrow> []
         | Some client \<Rightarrow> [UdpToClient client (socks5_datagram (Ip (sa_ip t)) (sa_port t) bs)])\<rparr>)"
proof -
  obtain e where "parse_socks5_udp_request bs = Inl e" using reply_no_request [OF assms(2)] .
  moreover have "client_udp_addr st = asker" using assms(1) by (simp add: stands_for_def)
  moreover have "build_socks5_udp_response t bs = socks5_datagram (Ip (sa_ip t)) (sa_port t) bs"
    by (simp add: build_socks5_udp_response_def socks5_datagram_def socks5_address_def split: ipaddr.split)
  ultimately show ?thesis
    by (simp add: relay_datagram_def emit_run ret_apply split: option.split)
qed

lemma relay_loop_dialogue:
  assumes "list_all wf_turn turns" and "stands_for env config st asker known"
  shows "trace (snd (relay_loop env config peer st (map on_wire turns) s))
    = trace s @ dialogue env config peer asker known turns"
  using assms
proof (induction turns arbitrary: st asker known s)
  case (Cons turn turns)
  show ?case
  proof (cases turn)
    case (Ask client h p payload)
    with Cons.prems(1) have w: "wf_turn (Ask client h p payload)" by simp
    obtain st' known' es where
      step: "relay_datagram env config peer st (socks5_datagram h p payload) client s = (Inr st', s\<lparr>trace := trace s @ es\<rparr>)"
      and st: "stands_for env config st' (Some client) known'"
      and d: "\<And>turns. dialogue env config peer asker known (Ask client h p payload # turns)
        = es @ dialogue env config peer (Some client) known' turns"
      by (rule ask_step [OF Cons.prems(2) w, of peer s]) (rule that)
    have "take UDP_PACKET_MAX_LEN (socks5_datagram h p payload) = socks5_datagram h p payload"
      using w by simp
    then have "relay_loop env config peer st (map on_wire (turn # turns)) s
        = relay_loop env config peer st' (map on_wire turns) (s\<lparr>trace := trace s @ es\<rparr>)"
      by (simp add: Ask andthen_def step)
    moreover have "trace (snd (relay_loop env config peer st' (map on_wire turns) (s\<lparr>trace := trace s @ es\<rparr>)))
        = (trace s @ es) @ dialogue env config peer (Some client) known' turns"
      using Cons.IH [OF _ st, of "s\<lparr>trace := trace s @ es\<rparr>"] Cons.prems(1) by simp
    ultimately show ?thesis unfolding Ask d by (simp only: append_assoc)
  next
    case (Reply t bs)
    with Cons.prems(1) have w: "take UDP_PACKET_MAX_LEN bs = bs" "take 2 bs \<noteq> [0, 0]" by simp_all
    define es where "es = (case asker of None \<Rightarrow> []
      | Some client \<Rightarrow> [UdpToClient client (socks5_datagram (Ip (sa_ip t)) (sa_port t) bs)])"
    note step = reply_step [OF Cons.prems(2) w(2), of peer t s, folded es_def]
    have "relay_loop env config peer st (map on_wire (turn # turns)) s
        = relay_loop env config peer st (map on_wire turns) (s\<lparr>trace := trace s @ es\<rparr>)"
      by (simp add: Reply w(1) andthen_def step)
    moreover have "trace (snd (relay_loop env config peer st (map on_wire turns) (s\<lparr>trace := trace s @ es\<rparr>)))
        = (trace s @ es) @ dialogue env config peer asker known turns"
      using Cons.IH [OF _ Cons.prems(2), of "s\<lparr>trace := trace s @ es\<rparr>"] Cons.prems(1) by simp
    ultimately show ?thesis unfolding Reply dialogue.simps es_def [symmetric] by (simp only: append_assoc)
  qed
qed (simp add: ret_apply)

text \<open>(C19) The relay is transparent for any dialogue, of any length, with any clients and targets in any
  order. A payload that a client sends in a datagram of RFC 1928 (for an IPv4 or IPv6 address or a
  domain name) reaches the target of that name as it is, unless the name does not resolve or the filter
  refuses its address, which is never kept; a target's datagram goes, unchanged, to the client that
  asked last (at first the address announced with the association, if any), in a datagram of RFC 1928
  that names the target. Lookups and log lines happen once for an address that was let through. The
  datagrams fit the buffer, and none of a target's begins with two zero bytes.\<close>

theorem relay_dialogue:
  assumes "list_all wf_turn turns"
  shows "trace (snd (relay_loop env config peer (relay_init h p) (map on_wire turns) (session_start input)))
    = dialogue env config peer
        (case h of Ip ip \<Rightarrow> if p \<noteq> 0 then Some (SocketAddr ip p) else None | Name _ \<Rightarrow> None) {} turns"
proof -
  have "stands_for env config (relay_init h p)
      (case h of Ip ip \<Rightarrow> if p \<noteq> 0 then Some (SocketAddr ip p) else None | Name _ \<Rightarrow> None) {}"
    by (simp add: stands_for_def relay_init_def split: sum.split)
  from relay_loop_dialogue [OF assms this, of peer "session_start input"] show ?thesis
    by (simp add: session_start_def)
qed

theorem relay_dialogue_witness:
  "trace (snd (relay_loop sample_env sample_config sample_peer (relay_init (Ip (V4 0)) 0)
     (map on_wire [Ask sample_peer (Ip (V4 0x08080808)) 53 [1, 2], Reply (SocketAddr (V4 0x08080808) 53) [7, 7, 7],
        Ask sample_peer (Ip (V4 0x7F000001)) 53 [3]]) (session_start [])))
   = [LogRequest sample_peer (Ip (V4 0x08080808)) 53 ''udp'' (SocketAddr (V4 0x08080808) 53) ''socks5'',
      UdpToTarget (SocketAddr (V4 0x08080808) 53) [1, 2],
      UdpToClient sample_peer ([0, 0, 0, 1, 8, 8, 8, 8, 0, 53] @ [7, 7, 7]),
      LogRequest sample_peer (Ip (V4 0x7F000001)) 53 ''udp'' (SocketAddr (V4 0x7F000001) 53) ''socks5'']"
proof -
  let ?turns = "[Ask sample_peer (Ip (V4 0x08080808)) 53 [1, 2], Reply (SocketAddr (V4 0x08080808) 53) [7, 7, 7],
        Ask sample_peer (Ip (V4 0x7F000001)) 53 [3]]"
  have b: "be_bytes 2 (53 :: u16) = [0, 53]" by code_simp
  have "list_all wf_turn ?turns"
    by (simp add: socks5_datagram_def socks5_address_def encodable_def UDP_PACKET_MAX_LEN_def)
  from relay_dialogue [OF this, of sample_env sample_config sample_peer "Ip (V4 0)" 0 "[]"] show ?thesis
    by (simp add: target_of_def ret_def lookups_def blocks_def socks5_datagram_def socks5_address_def b
        del: is_rfc6890_special.simps)
qed

theorem relay_answers_requesters_only_witness:
  "sample_peer \<in> requesters (Ip (V4 0)) 0
     [UdpRecv (Some ([0, 0, 0, 1, 8, 8, 8, 8, 0, 53, 1, 2], sample_peer)),
      UdpRecv (Some ([7, 7, 7], SocketAddr (V4 0x08080808) 53))]"
proof (rule relay_answers_requesters_only)
  have "target_of sample_env (Ip (V4 0x08080808)) 53 = Inr (SocketAddr (V4 0x08080808) 53)"
    by (simp add: target_of_def ret_def)
  note step = request_step [OF sample_datagram this, of sample_config "relay_init (Ip (V4 0)) 0"
      sample_peer sample_peer "session_start []"]
  show "UdpToClient sample_peer (build_socks5_udp_response (SocketAddr (V4 0x08080808) 53) [7, 7, 7])
    \<in> set (trace (snd (relay_loop sample_env sample_config sample_peer (relay_init (Ip (V4 0)) 0)
        [UdpRecv (Some ([0, 0, 0, 1, 8, 8, 8, 8, 0, 53, 1, 2], sample_peer)),
         UdpRecv (Some ([7, 7, 7], SocketAddr (V4 0x08080808) 53))] (session_start []))))"
    using step by (simp add: andthen_def response_step [OF sample_answer] ret_apply relay_init_def
        UDP_PACKET_MAX_LEN_def del: is_rfc6890_special.simps)
qed

section \<open>Datagrams on the wrong side of the content test\<close>

text \<open>
  The side a datagram comes from is decided by its content alone. A datagram of the target that
  happens to start like a request (0, 0, 0 and an address type) is not relayed to the client: its
  source becomes the client, and its tail is sent to an address of its own choosing.
\<close>

theorem upstream_datagram_taken_as_request:
  assumes "client_udp_addr st = Some client" and "target_cache st (Ip (V4 0x08080808), 53) = None"
  shows "relay_datagram sample_env sample_config peer st [0, 0, 0, 1, 8, 8, 8, 8, 0, 53, 1, 2] upstream s
    = (Inr (st\<lparr>client_udp_addr := Some upstream,
               target_cache := (target_cache st)((Ip (V4 0x08080808), 53) \<mapsto> SocketAddr (V4 0x08080808) 53)\<rparr>),
       s\<lparr>trace := trace s @
           [LogRequest peer (Ip (V4 0x08080808)) 53 ''udp'' (SocketAddr (V4 0x08080808) 53) ''socks5'',
            UdpToTarget (SocketAddr (V4 0x08080808) 53) [1, 2]]\<rparr>)"
  using request_step [OF sample_datagram, of sample_env "SocketAddr (V4 0x08080808) 53" sample_config st peer upstream s]
    assms(2)
  by (simp add: target_of_def ret_def lookups_def del: is_rfc6890_special.simps)

text \<open>
  The address announced with an association is answered whatever it is, the filter notwithstanding: a
  datagram of anyone that is no request, sent to the relay's port, comes back out to the announced
  address, here the loopback resolver.
\<close>

theorem announced_address_not_filtered:
  assumes "take 2 bs \<noteq> [0, 0]" and "length bs \<le> UDP_PACKET_MAX_LEN"
  shows "block_special_addrs sample_config \<and> is_rfc6890_special (V4 0x7F000001)
    \<and> trace (snd (relay_loop env sample_config peer (relay_init (Ip (V4 0x7F000001)) 53)
        [UdpRecv (Some (bs, source))] (session_start input)))
      = [UdpToClient (SocketAddr (V4 0x7F000001) 53) (socks5_datagram (Ip (sa_ip source)) (sa_port source) bs)]"
proof -
  have "stands_for env sample_config (relay_init (Ip (V4 0x7F000001)) 53) (Some (SocketAddr (V4 0x7F000001) 53)) {}"
    by (simp add: stands_for_def relay_init_def split: sum.split)
  from relay_loop_dialogue [OF _ this, of "[Reply source bs]" peer "session_start input"] assms show ?thesis
    by (simp add: session_start_def del: is_rfc6890_special.simps)
qed

theorem announced_address_not_filtered_witness:
  "trace (snd (relay_loop sample_env sample_config sample_peer (relay_init (Ip (V4 0x7F000001)) 53)
      [UdpRecv (Some ([7], sample_peer))] (session_start [])))
   = [UdpToClient (SocketAddr (V4 0x7F000001) 53) (socks5_datagram (Ip (sa_ip sample_peer)) (sa_port sample_peer) [7])]"
  using announced_address_not_filtered [of "[7]" sample_env sample_peer sample_peer "[]"]
  by (simp add: UDP_PACKET_MAX_LEN_def del: is_rfc6890_special.simps)

text \<open>The header the relay puts in front of a target's datagram is read back by a client as the
  target's address, its port and the unchanged payload, unfragmented.\<close>

theorem udp_header_round_trip:
  "parse_socks5_udp_request (build_socks5_udp_response source payload)
     = Inr (Ip (sa_ip source), sa_port source, payload, 0)"
  by (rule parse_build_udp)

section \<open>Sessions that end in the handshake\<close>

text \<open>The protocol is chosen from the first segment only: an HTTP CONNECT request whose first
  segment is shorter than its first word and a space is turned away as an unknown protocol.\<close>

theorem short_first_segment_rejected:
  assumes "e_peek env = Done n" and "n \<le> 7" and "0 < n"
  shows "fst (handle_client env config peer (session_start (ascii ''CONNECT '' @ rest)))
    = Inl ''unknown protocol''"
proof -
  have "length (ascii ''CONNECT '') = 8" by simp
  with assms(2) have "take n (ascii ''CONNECT '' @ rest) = take n (ascii ''CONNECT '')"
    by (simp only: take_append) simp
  then have p: "peek_client env PROBE_LEN (session_start (ascii ''CONNECT '' @ rest))
      = (Inr (take n (ascii ''CONNECT '')), session_start (ascii ''CONNECT '' @ rest))"
    using assms by (simp add: peek_client_def session_start_def PROBE_LEN_def min_def max_def del: ascii_simps)
  have "n \<in> {1, 2, 3, 4, 5, 6, 7}" using assms(2,3) by auto
  then have "detect_protocol (take n (ascii ''CONNECT '')) = None"
    by (auto simp: detect_protocol_def starts_with_def)
  moreover have "length (take n (ascii ''CONNECT '')) \<noteq> 0" using assms(3) by simp
  ultimately show ?thesis
    unfolding handle_client_def andthen_def p by (simp add: bail_def del: length_take)
qed

theorem short_first_segment_rejected_witness:
  "fst (handle_client (sample_env\<lparr>e_peek := Done 4\<rparr>) sample_config sample_peer
     (session_start (ascii ''CONNECT '' @ ascii ''a.io:80 HTTP/1.1'' @ [13, 10, 13, 10])))
   = Inl ''unknown protocol''"
  by (rule short_first_segment_rejected [of _ 4]) (simp_all add: sample_env_def)

end
