(* ===== verification/AddressText.thy ===== *)
theory AddressText
  imports SocksWire
begin

text \<open>
  Addresses as text: what \<open>Display\<close> prints, \<open>parse\<close> reads back, for every IPv4 and IPv6 address. The
  proxy prints addresses into its flow log and into the command lines of \<open>ip\<close> and \<open>iptables\<close>, and reads
  them in request targets.
\<close>

section \<open>Numbers in a radix\<close>

definition digit_val :: "nat \<Rightarrow> byte \<Rightarrow> nat" where
  "digit_val radix c = (case to_digit radix c of Some d \<Rightarrow> d | None \<Rightarrow> 0)"

definition stops :: "nat \<Rightarrow> str \<Rightarrow> bool" where
  "stops radix t \<longleftrightarrow> (case t of [] \<Rightarrow> True | c # _ \<Rightarrow> to_digit radix c = None)"

definition numeral_of :: "nat \<Rightarrow> str \<Rightarrow> nat \<Rightarrow> bool" where
  "numeral_of radix ds n \<longleftrightarrow> (\<forall>c\<in>set ds. to_digit radix c \<noteq> None)
     \<and> foldl (\<lambda>v c. v * radix + digit_val radix c) 0 ds = n \<and> ds \<noteq> []"

lemma read_digits_stop: "stops radix t \<Longrightarrow> read_digits radix m v k t = Some (v, k, t)"
  by (cases t) (simp_all add: stops_def)

lemma read_digits_append:
  assumes "\<forall>c\<in>set ds. to_digit radix c \<noteq> None" and "stops radix t" and "k + length ds \<le> m"
  shows "read_digits radix m v k (ds @ t)
    = Some (foldl (\<lambda>v c. v * radix + digit_val radix c) v ds, k + length ds, t)"
  using assms(1,3)
proof (induction ds arbitrary: v k)
  case Nil
  show ?case by (simp add: read_digits_stop [OF assms(2)])
next
  case (Cons c ds)
  then obtain d where "to_digit radix c = Some d" by auto
  with Cons show ?case by (simp add: digit_val_def)
qed

lemma read_number_numeral:
  assumes "numeral_of radix ds n" and "stops radix t" and "length ds \<le> m" and "n < bound"
    and "z \<or> hd ds \<noteq> 48 \<or> length ds = 1"
  shows "read_number radix m z bound (ds @ t) = Some (n, t)"
  using assms read_digits_append [of ds radix t 0 m 0]
  by (auto simp: read_number_def numeral_of_def neq_Nil_conv)

lemma unat_small: "k < 256 \<Longrightarrow> unat (of_nat k :: byte) = k"
  by (simp add: unat_of_nat take_bit_eq_mod)

lemma digit_lower: "k < 10 \<Longrightarrow> to_digit radix (of_nat (48 + k)) = (if k < radix then Some k else None)"
  by (simp add: to_digit_def between_def word_le_nat_alt unat_small Let_def del: of_nat_add)

lemma digit_letter: "10 \<le> k \<Longrightarrow> k < 16 \<Longrightarrow> to_digit 16 (of_nat (87 + k)) = Some k"
  by (simp add: to_digit_def between_def word_le_nat_alt unat_small Let_def del: of_nat_add)

lemma numeral_of_snoc:
  "numeral_of radix ds n \<Longrightarrow> to_digit radix c = Some d \<Longrightarrow> numeral_of radix (ds @ [c]) (n * radix + d)"
  by (auto simp: numeral_of_def digit_val_def)

lemma numeral_of_single: "to_digit radix c = Some d \<Longrightarrow> numeral_of radix [c] d"
  by (simp add: numeral_of_def digit_val_def)

lemma numeral_dec: "numeral_of 10 (dec n) n"
proof (induction n rule: dec.induct)
  case (1 n)
  show ?case
  proof (cases "n < 10")
    case True
    then show ?thesis by (subst dec.simps) (simp add: numeral_of_single digit_lower del: of_nat_add)
  next
    case False
    with 1 numeral_of_snoc [of 10 "dec (n div 10)" "n div 10" "of_nat (48 + n mod 10)" "n mod 10"]
    show ?thesis by (subst dec.simps) (simp add: digit_lower del: of_nat_add)
  qed
qed

lemma hex_digit: "to_digit 16 (of_nat (if k mod 16 < 10 then 48 + k mod 16 else 87 + k mod 16)) = Some (k mod 16)"
  by (cases "k mod 16 < 10") (simp_all add: digit_lower digit_letter del: of_nat_add)

lemma numeral_hex: "numeral_of 16 (hex n) n"
proof (induction n rule: hex.induct)
  case (1 n)
  show ?case
  proof (cases "n < 16")
    case True
    then show ?thesis
      using numeral_of_single [OF hex_digit [of n]] by (subst hex.simps) (simp only: Let_def if_True mod_less)
  next
    case False
    have "numeral_of 16 (hex (n div 16) @ [of_nat (if n mod 16 < 10 then 48 + n mod 16 else 87 + n mod 16)])
        (n div 16 * 16 + n mod 16)"
      by (rule numeral_of_snoc [OF 1 hex_digit]) (simp_all add: False)
    with False show ?thesis by (subst hex.simps) (simp only: Let_def if_False div_mult_mod_eq)
  qed
qed

lemma hd_dec: "hd (dec n) = 48 \<Longrightarrow> n = 0"
proof (induction n rule: dec.induct)
  case (1 n)
  show ?case
  proof (cases "n < 10")
    case True
    have "hd (dec n) = of_nat (48 + n)" using True by (subst dec.simps) simp
    with 1(2) have "unat (of_nat (48 + n) :: byte) = 48" by (simp del: of_nat_add)
    with True show ?thesis by (simp add: unat_small del: of_nat_add)
  next
    case False
    then have "hd (dec n) = hd (dec (n div 10))" by (subst dec.simps) simp
    with 1 False show ?thesis by simp
  qed
qed

lemma length_dec: "n < 10 ^ Suc k \<Longrightarrow> length (dec n) \<le> Suc k"
proof (induction k arbitrary: n)
  case 0
  then show ?case by (subst dec.simps) simp
next
  case (Suc k)
  then have "length (dec (n div 10)) \<le> Suc k" by (simp add: div_less_iff_less_mult)
  then show ?case by (subst dec.simps) simp
qed

lemma length_hex: "n < 16 ^ Suc k \<Longrightarrow> length (hex n) \<le> Suc k"
proof (induction k arbitrary: n)
  case 0
  then show ?case by (subst hex.simps) (simp add: Let_def)
next
  case (Suc k)
  then have "length (hex (n div 16)) \<le> Suc k" by (simp add: div_less_iff_less_mult)
  then show ?case by (subst hex.simps) (simp add: Let_def)
qed

lemma read_dec:
  assumes "n < 256" and "stops 10 t"
  shows "read_number 10 3 False 256 (dec n @ t) = Some (n, t)"
proof (rule read_number_numeral [OF numeral_dec assms(2)])
  show "length (dec n) \<le> 3" using length_dec [of n 2] assms(1) by simp
  show "False \<or> hd (dec n) \<noteq> 48 \<or> length (dec n) = 1"
    using hd_dec [of n] by (auto simp: dec.simps [of 0])
qed (rule assms(1))

lemma read_hex:
  assumes "stops 16 t"
  shows "read_number 16 4 True 65536 (hex (unat (s :: u16)) @ t) = Some (unat s, t)"
proof (rule read_number_numeral [OF numeral_hex assms])
  show "length (hex (unat s)) \<le> 4" using length_hex [of "unat s" 3] unat_u16_less [of s] by simp
qed (use unat_u16_less [of s] in simp_all)

section \<open>IPv4\<close>

lemma read_byte: "stops 10 t \<Longrightarrow> read_number 10 3 False 256 (dec (unat (b :: byte)) @ t) = Some (unat b, t)"
  by (rule read_dec [OF unat_byte_less])

lemma stops_dot [simp]: "stops 10 (46 # t)" "stops 16 (46 # t)" "stops 10 (58 # t)" "stops 16 (58 # t)"
    "stops r []"
  by (simp_all add: stops_def to_digit_def between_def)

lemma display_ipv4_eq:
  "display_ipv4 a = dec (unat (octets4 a ! 0)) @ 46 # dec (unat (octets4 a ! 1))
     @ 46 # dec (unat (octets4 a ! 2)) @ 46 # dec (unat (octets4 a ! 3))"
  by (simp add: display_ipv4_def Let_def)

lemma octets4_list: "[octets4 a ! 0, octets4 a ! 1, octets4 a ! 2, octets4 a ! 3] = be_bytes 4 a"
  by (simp add: octets4_def be_bytes_def upt_rec)

lemma read_v4_groups_step:
  "read_v4_groups (Suc k) i (dec (unat (b :: byte)) @ t) =
     (if i = 0 \<and> stops 10 t then map_option (\<lambda>(gs, r). (b # gs, r)) (read_v4_groups k 1 t)
      else read_v4_groups (Suc k) i (dec (unat b) @ t))"
  by (auto simp: read_separator_def read_byte split: option.split)

lemma read_v4_groups_dot:
  "0 < i \<Longrightarrow> stops 10 t \<Longrightarrow> read_v4_groups (Suc k) i (46 # dec (unat (b :: byte)) @ t) =
     map_option (\<lambda>(gs, r). (b # gs, r)) (read_v4_groups k (Suc i) t)"
  by (auto simp: read_separator_def read_given_char_def read_byte split: option.split)

lemma read_display_ipv4:
  assumes "stops 10 t"
  shows "read_ipv4_addr (display_ipv4 a @ t) = Some (a, t)"
proof -
  have l: "[octets4 a ! 0, octets4 a ! Suc 0, octets4 a ! 2, octets4 a ! 3] = be_bytes 4 a"
    using octets4_list [of a] by simp
  have "read_v4_groups (Suc (Suc (Suc (Suc 0)))) 0 (display_ipv4 a @ t) = Some (be_bytes 4 a, t)"
    unfolding display_ipv4_eq append_assoc append_Cons
    by (subst read_v4_groups_step) (simp add: read_v4_groups_dot assms l del: read_v4_groups.simps(2))
  then show ?thesis
    using be_val_be_bytes_full [of 4 a] by (simp add: read_ipv4_addr_def numeral_eq_Suc del: read_v4_groups.simps)
qed

section \<open>IPv6\<close>

lemma read_digits_rest: "read_digits radix m v k s = Some (v', k', r) \<Longrightarrow> set r \<subseteq> set s"
  by (induction radix m v k s rule: read_digits.induct) (auto split: option.splits if_splits)

lemma read_number_rest: "read_number radix m z b s = Some (v, r) \<Longrightarrow> set r \<subseteq> set s"
  by (auto simp: read_number_def split: option.splits if_splits dest!: read_digits_rest)

lemma no_dot_no_group: "46 \<notin> set s \<Longrightarrow> read_v4_groups (Suc k) (Suc i) s = None"
  by (cases s) (auto simp: read_separator_def read_given_char_def)

lemma no_dot_no_groups:
  assumes "46 \<notin> set s"
  shows "read_v4_groups (Suc (Suc k)) 0 s = None"
proof (cases "read_number 10 3 False 256 s")
  case None
  then show ?thesis by (simp add: read_separator_def)
next
  case (Some x)
  obtain v r where x: "x = (v, r)" by fastforce
  then have "46 \<notin> set r" using read_number_rest Some assms by blast
  from no_dot_no_group [OF this, of k 0] Some x show ?thesis
    by (subst read_v4_groups.simps(2)) (simp add: read_separator_def del: read_v4_groups.simps(2))
qed

lemma no_dot_no_ipv4: "46 \<notin> set s \<Longrightarrow> read_ipv4_addr s = None"
  using no_dot_no_groups [of s 2] by (simp add: read_ipv4_addr_def numeral_eq_Suc del: read_v4_groups.simps)

lemma no_number_at_colon: "read_number 16 m z b (58 # t) = None" "read_number 16 m z b [] = None"
  by (simp_all add: read_number_def to_digit_def between_def)

definition ends :: "str \<Rightarrow> bool" where
  "ends t \<longleftrightarrow> 46 \<notin> set t \<and> (t = [] \<or> (\<exists>u. t = 58 # 58 # u))"

lemma ends_stops: "ends t \<Longrightarrow> stops 16 t"
  by (auto simp: ends_def)

definition colon_hex :: "u16 \<Rightarrow> str" where
  "colon_hex s = 58 # hex (unat s)"

lemma hex_no_dot: "46 \<notin> set (hex n)"
  using numeral_hex [of n] by (fastforce simp: numeral_of_def to_digit_def between_def)

lemma colon_hex_no_dot: "46 \<notin> set (concat (map colon_hex ss))"
  by (auto simp: colon_hex_def hex_no_dot)

lemma separator_ipv4: "46 \<notin> set s \<Longrightarrow> read_separator c i read_ipv4_addr s = None"
  by (cases s) (auto simp: read_separator_def read_given_char_def no_dot_no_ipv4 split: option.split
      elim!: strip_prefix.elims)

lemma read_v6_groups_hex:
  "46 \<notin> set s \<Longrightarrow> read_v6_groups (Suc k) i s =
    (case read_separator 58 i (read_number 16 4 True 65536) s of
       None \<Rightarrow> ([], False, s)
     | Some (g, r) \<Rightarrow>
         (let (gs, v4_flag, r') = read_v6_groups k (Suc i) r in (of_nat g # gs, v4_flag, r')))"
proof -
  assume "46 \<notin> set s"
  then have "(if k > 0 then read_separator 58 i read_ipv4_addr s else None) = None" by (simp add: separator_ipv4)
  then show ?thesis by (simp only: read_v6_groups.simps option.case)
qed

lemma no_group: "ends t \<Longrightarrow> read_separator 58 i (read_number 16 4 True 65536) t = None"
  by (auto simp: ends_def read_separator_def read_given_char_def no_number_at_colon)

lemma read_nothing: "ends t \<Longrightarrow> read_v6_groups k i t = ([], False, t)"
proof (cases k)
  case (Suc n)
  assume e: "ends t"
  then have dot: "46 \<notin> set t" by (simp add: ends_def)
  show ?thesis unfolding Suc read_v6_groups_hex [OF dot] no_group [OF e] by simp
qed simp

lemma read_more_groups:
  assumes "ends t" and "length ss \<le> k" and "0 < i"
  shows "read_v6_groups k i (concat (map colon_hex ss) @ t) = (ss, False, t)"
  using assms(2,3)
proof (induction ss arbitrary: k i)
  case Nil
  then show ?case using read_nothing [OF assms(1)] by simp
next
  case (Cons s ss)
  then obtain n where n: "k = Suc n" by (cases k) auto
  let ?r = "concat (map colon_hex ss) @ t"
  have stop: "stops 16 ?r" using ends_stops [OF assms(1)] by (cases ss) (simp_all add: colon_hex_def)
  have dot: "46 \<notin> set (concat (map colon_hex (s # ss)) @ t)"
    using colon_hex_no_dot [of "s # ss"] assms(1) by (simp add: ends_def)
  have "read_separator 58 i (read_number 16 4 True 65536) (concat (map colon_hex (s # ss)) @ t)
      = Some (unat s, ?r)"
    using Cons.prems(2) read_hex [OF stop] by (simp add: read_separator_def read_given_char_def colon_hex_def)
  then show ?case unfolding n read_v6_groups_hex [OF dot] using Cons.IH [of n "Suc i"] Cons.prems n by simp
qed

lemma fmt_subslice_Cons: "fmt_subslice (s # ss) = hex (unat s) @ concat (map colon_hex ss)"
  by (induction ss arbitrary: s) (simp_all add: colon_hex_def)

lemma fmt_subslice_no_dot: "46 \<notin> set (fmt_subslice ss)"
  by (cases ss) (use colon_hex_no_dot in \<open>auto simp: fmt_subslice_Cons hex_no_dot\<close>)

lemma read_groups:
  assumes "ends t" and "length ss \<le> k"
  shows "read_v6_groups k 0 (fmt_subslice ss @ t) = (ss, False, t)"
proof (cases ss)
  case Nil
  then show ?thesis using read_nothing [OF assms(1)] by simp
next
  case (Cons s rest)
  with assms(2) obtain n where n: "k = Suc n" by (cases k) auto
  let ?r = "concat (map colon_hex rest) @ t"
  have stop: "stops 16 ?r" using ends_stops [OF assms(1)] by (cases rest) (simp_all add: colon_hex_def)
  have dot: "46 \<notin> set (fmt_subslice ss @ t)" using fmt_subslice_no_dot assms(1) by (simp add: ends_def)
  have "read_separator 58 0 (read_number 16 4 True 65536) (fmt_subslice ss @ t) = Some (unat s, ?r)"
    using read_hex [OF stop] by (simp add: read_separator_def Cons fmt_subslice_Cons)
  moreover have "read_v6_groups n (Suc 0) ?r = (rest, False, t)"
    using assms(2) Cons n by (intro read_more_groups [OF assms(1)]) simp_all
  ultimately show ?thesis unfolding n read_v6_groups_hex [OF dot] by (simp add: Cons)
qed

text \<open>The segments of an address and the run of zeros that is left out.\<close>

definition zero_run :: "u16 list \<Rightarrow> nat \<times> nat \<Rightarrow> bool" where
  "zero_run segs r \<longleftrightarrow> fst r + snd r \<le> length segs \<and> (\<forall>j. fst r \<le> j \<and> j < fst r + snd r \<longrightarrow> segs ! j = 0)"

lemma zero_span_run:
  assumes "segs = pre @ ss" and "i = length pre" and "zero_run segs longest"
    and "snd current = 0 \<or> fst current + snd current = i \<and> zero_run segs current"
  shows "zero_run segs (zero_span ss i current longest)"
  using assms
proof (induction ss i current longest arbitrary: pre rule: zero_span.induct)
  case (2 s ss i start len longest)
  show ?case
  proof (cases "s = 0")
    case True
    let ?c = "(if len = 0 then i else start, Suc len)"
    have "zero_run segs ?c"
      using 2(3-6) True by (auto simp: zero_run_def nth_append less_Suc_eq)
    with 2(3-6) True have "zero_run segs (zero_span ss (Suc i) ?c (if Suc len > snd longest then ?c else longest))"
      by (intro 2(1) [OF True refl, of "pre @ [s]"]) auto
    with True show ?thesis by (simp add: Let_def)
  next
    case False
    with 2(3-6) have "zero_run segs (zero_span ss (Suc i) (0, 0) longest)"
      by (intro 2(2) [of "pre @ [s]"]) auto
    with False show ?thesis by simp
  qed
qed simp

lemma zero_run_split:
  assumes "zero_run segs (start, len)"
  shows "segs = take start segs @ replicate len 0 @ drop (start + len) segs"
proof (rule nth_equalityI)
  fix j assume "j < length segs"
  with assms show "segs ! j = (take start segs @ replicate len 0 @ drop (start + len) segs) ! j"
    by (auto simp: zero_run_def nth_append min_def)
qed (use assms in \<open>auto simp: zero_run_def\<close>)

definition segments_of :: "u128 \<Rightarrow> u16 list" where
  "segments_of a = map (\<lambda>i. segment6 i a) [0..<8]"

lemma segment6_bytes:
  "i < 8 \<Longrightarrow> be_bytes 2 (segment6 i a) = [ucast (drop_bit (8 * (15 - 2 * i)) a), ucast (drop_bit (8 * (14 - 2 * i)) a)]"
  by (simp add: be_bytes_def segment6_def upt_rec) (auto intro!: bit_word_eqI simp: bit_simps algebra_simps)

lemma from_segments_of: "from_segments (segments_of a) = a"
proof -
  have "be_bytes 16 a = map (\<lambda>i. ucast (drop_bit (8 * i) a)) (rev [0..<16])" by (rule be_bytes_def)
  moreover have "concat (map (be_bytes 2) (segments_of a)) = map (\<lambda>i. ucast (drop_bit (8 * i) a)) (rev [0..<16])"
    by (simp add: segments_of_def segment6_bytes upt_rec)
  ultimately have "concat (map (be_bytes 2) (segments_of a)) = be_bytes 16 a" by simp
  then show ?thesis using be_val_be_bytes_full [of 16 a] by (simp add: from_segments_def)
qed

lemma length_segments [simp]: "length (segments_of a) = 8"
  by (simp add: segments_of_def)

lemma read_full: "read_ipv6_addr (fmt_subslice (segments_of a)) = Some (a, [])"
  using read_groups [of "[]" "segments_of a" 8] from_segments_of [of a]
  by (simp add: read_ipv6_addr_def ends_def)

lemma read_compressed:
  assumes "zero_run (segments_of a) (start, len)" and "1 < len"
  shows "read_ipv6_addr (fmt_subslice (take start (segments_of a)) @ [58, 58]
      @ fmt_subslice (drop (start + len) (segments_of a))) = Some (a, [])"
proof -
  let ?head = "take start (segments_of a)" and ?tail = "drop (start + len) (segments_of a)"
  have le: "start + len \<le> 8" using assms(1) by (simp add: zero_run_def)
  have "ends ([58, 58] @ fmt_subslice ?tail)" using fmt_subslice_no_dot by (auto simp: ends_def)
  then have h: "read_v6_groups 8 0 (fmt_subslice ?head @ [58, 58] @ fmt_subslice ?tail)
      = (?head, False, [58, 58] @ fmt_subslice ?tail)"
    using le by (intro read_groups) simp_all
  have t: "read_v6_groups (8 - (start + 1)) 0 (fmt_subslice ?tail) = (?tail, False, [])"
    using read_groups [of "[]" ?tail "8 - (start + 1)"] assms(2) by (simp add: ends_def)
  have lens: "length ?head = start" "length ?tail = 8 - (start + len)" using le by simp_all
  have n: "8 - start - (8 - (start + len)) = len" "start \<noteq> 8" using le assms(2) by simp_all
  have f: "from_segments (?head @ replicate len 0 @ ?tail) = a"
    using zero_run_split [OF assms(1)] from_segments_of [of a] by simp
  show ?thesis
    unfolding read_ipv6_addr_def h Let_def prod.case lens
    using t f n by (simp add: lens Let_def)
qed

text \<open>An embedded IPv4 address is printed in its own notation.\<close>

lemma no_ipv4_here: "to_digit 10 c = None \<Longrightarrow> read_ipv4_addr (c # t) = None"
  by (simp add: read_ipv4_addr_def numeral_eq_Suc read_separator_def read_number_def)

lemma mapped_segments:
  "take 5 (segments_of a) = [0, 0, 0, 0, 0] \<Longrightarrow> segments_of a ! 5 = 0xFFFF \<Longrightarrow>
   segments_of a = replicate 5 0 @ [0xFFFF, ucast (drop_bit 16 (ucast a :: u32)), ucast (ucast a :: u32)]"
proof -
  assume t: "take 5 (segments_of a) = [0, 0, 0, 0, 0]" and n: "segments_of a ! 5 = 0xFFFF"
  have "segment6 6 a = ucast (drop_bit 16 (ucast a :: u32))" "segment6 7 a = ucast (ucast a :: u32)"
    by (auto intro!: bit_word_eqI simp: segment6_def bit_simps)
  moreover have "segments_of a = take 5 (segments_of a) @ [segments_of a ! 5, segment6 6 a, segment6 7 a]"
    by (simp add: segments_of_def upt_rec numeral_eq_Suc)
  moreover have "replicate 5 (0 :: u16) = [0, 0, 0, 0, 0]" by (simp add: numeral_eq_Suc)
  ultimately show ?thesis using t n by simp
qed

lemma read_mapped:
  assumes "take 5 (segments_of a) = [0, 0, 0, 0, 0]" and "segments_of a ! 5 = 0xFFFF"
  shows "read_ipv6_addr (ascii ''::ffff:'' @ display_ipv4 (ucast a)) = Some (a, [])"
proof -
  let ?v4 = "display_ipv4 (ucast a)" and ?low = "[ucast (drop_bit 16 (ucast a :: u32)), ucast (ucast a :: u32)] :: u16 list"
  have colon: "to_digit 10 58 = None" and f: "to_digit 10 102 = None" by (simp_all add: to_digit_def between_def)
  have head: "read_v6_groups 8 0 (58 # t) = ([], False, 58 # t)" for t
    by (simp add: read_v6_groups_numeral read_separator_def no_ipv4_here [OF colon] no_number_at_colon)
  have low: "read_v6_groups 6 (Suc 0) (58 # ?v4) = (?low, True, [])"
    using read_display_ipv4 [of "[]" "ucast a"]
    by (simp add: read_v6_groups_numeral read_separator_def read_given_char_def)
  have "read_number 16 4 True 65536 (102 # 102 # 102 # 102 # 58 # ?v4) = Some (0xFFFF, 58 # ?v4)"
    by (simp add: read_number_def to_digit_def between_def)
  then have tail: "read_v6_groups 7 0 (102 # 102 # 102 # 102 # 58 # ?v4) = (0xFFFF # ?low, True, [])"
    using low by (simp add: read_v6_groups_numeral [of "num.Bit1 (num.Bit1 num.One)"] read_separator_def
        no_ipv4_here [OF f])
  have "from_segments (replicate 5 0 @ 0xFFFF # ?low) = a"
    using mapped_segments [OF assms] from_segments_of [of a] by simp
  then show ?thesis by (simp add: read_ipv6_addr_def head tail)
qed

lemma display_ipv6_cases:
  obtains (mapped) "take 5 (segments_of a) = [0, 0, 0, 0, 0]" "segments_of a ! 5 = 0xFFFF"
      "display_ipv6 a = ascii ''::ffff:'' @ display_ipv4 (ucast a)"
  | (compressed) start len where "zero_run (segments_of a) (start, len)" "1 < len"
      "display_ipv6 a = fmt_subslice (take start (segments_of a)) @ [58, 58]
         @ fmt_subslice (drop (start + len) (segments_of a))"
  | (full) "display_ipv6 a = fmt_subslice (segments_of a)"
proof -
  obtain start len where z: "zero_span (segments_of a) 0 (0, 0) (0, 0) = (start, len)" by fastforce
  have "zero_run (segments_of a) (start, len)"
    using zero_span_run [of "segments_of a" "[]" "segments_of a" 0 "(0, 0)" "(0, 0)"] z
    by (simp add: zero_run_def)
  then show thesis
    using that z
    by (cases "take 5 (segments_of a) = [0, 0, 0, 0, 0] \<and> segments_of a ! 5 = 0xFFFF"; cases "1 < len")
       (auto simp: display_ipv6_def segments_of_def [symmetric] Let_def)
qed

lemma read_display_ipv6: "read_ipv6_addr (display_ipv6 a) = Some (a, [])"
proof (cases a rule: display_ipv6_cases)
  case mapped
  then show ?thesis using read_mapped by (simp only:)
next
  case (compressed start len)
  then show ?thesis using read_compressed by (simp only:)
qed (simp add: read_full)

lemma display_ipv6_not_ipv4: "read_ipv4_addr (display_ipv6 a) = None"
proof (cases a rule: display_ipv6_cases)
  case mapped
  then show ?thesis using no_ipv4_here [of 58] by (simp add: to_digit_def between_def)
qed (simp_all add: no_dot_no_ipv4 fmt_subslice_no_dot)

theorem parse_display_ip: "parse_ip (display_ip ip) = Some ip"
proof (cases ip)
  case (V4 a)
  then show ?thesis using read_display_ipv4 [of "[]" a] by (simp add: parse_ip_def display_ip_def)
next
  case (V6 a)
  then show ?thesis by (simp add: parse_ip_def display_ip_def display_ipv6_not_ipv4 read_display_ipv6)
qed

lemma hex_no_bracket: "93 \<notin> set (hex n)"
  using numeral_hex [of n] by (fastforce simp: numeral_of_def to_digit_def between_def)

lemma dec_no_bracket: "93 \<notin> set (dec n)" "91 \<notin> set (dec n)"
  using numeral_dec [of n] by (fastforce simp: numeral_of_def to_digit_def between_def)+

lemma fmt_subslice_no_bracket: "93 \<notin> set (fmt_subslice ss)"
  by (cases ss) (auto simp: fmt_subslice_Cons hex_no_bracket colon_hex_def)

lemma display_ipv6_no_bracket: "93 \<notin> set (display_ipv6 a)"
  by (cases a rule: display_ipv6_cases)
     (simp_all add: fmt_subslice_no_bracket display_ipv4_eq dec_no_bracket)

end
