(* ===== verification/FlowLog.thy ===== *)
theory FlowLog
  imports AddressText NetIO
begin

text \<open>
  The flow log of \<open>src/server.rs\<close>: what \<open>log_request\<close> writes for the event \<open>LogRequest\<close> of the
  sessions, one line of JSON per request. The JSON printer is the library's; \<open>read_flow\<close> is a reader of
  the log as the comment on \<open>log_request\<close> describes it.
\<close>

section \<open>The line\<close>

fun display_host :: "host \<Rightarrow> str" where
  "display_host (Ip ip) = display_ip ip"
| "display_host (Name name) = name"

text \<open>\<open>Display\<close> of a socket address (without a scope).\<close>

fun display_sockaddr :: "sockaddr \<Rightarrow> str" where
  "display_sockaddr (SocketAddr (V4 a) port) = display_ipv4 a @ ascii '':'' @ dec (unat port)"
| "display_sockaddr (SocketAddr (V6 a) port) = ascii ''['' @ display_ipv6 a @ ascii '']:'' @ dec (unat port)"

fun format_target :: "sockaddr \<Rightarrow> (host \<times> u16) option \<Rightarrow> str" where
  "format_target peer_addr (Some (Ip (V6 ip), port)) =
     ascii ''<'' @ display_sockaddr peer_addr @ ascii '',['' @ display_ipv6 ip @ ascii '']:'' @ dec (unat port) @ ascii ''>''"
| "format_target peer_addr (Some (host, port)) =
     ascii ''<'' @ display_sockaddr peer_addr @ ascii '','' @ display_host host @ ascii '':'' @ dec (unat port) @ ascii ''>''"
| "format_target peer_addr None = ascii ''<'' @ display_sockaddr peer_addr @ ascii '',None>''"

datatype json = JString str | JNumber nat

type_synonym json_object = "(str \<times> json) list"

definition flow_message :: "sockaddr \<Rightarrow> host \<Rightarrow> u16 \<Rightarrow> string \<Rightarrow> sockaddr \<Rightarrow> string \<Rightarrow> json_object" where
  "flow_message source host port transport resolved proxy =
     [(ascii ''source_ip'', JString (display_ip (sa_ip source))),
      (ascii ''source_port'', JNumber (unat (sa_port source))),
      (ascii ''target_host'', JString (display_host host)),
      (ascii ''target_port'', JNumber (unat port)),
      (ascii ''tcpOrUdp'', JString (ascii transport)),
      (ascii ''ResolvedAddress'', JString (display_sockaddr resolved)),
      (ascii ''httpOrSocks'', JString (ascii proxy))]"

text \<open>The line of an event, with the printer's result; when it fails, the target alone is logged.\<close>

definition flow_line :: "(json_object \<Rightarrow> str option) \<Rightarrow> event \<Rightarrow> str option" where
  "flow_line to_string e =
     (case e of
        LogRequest source host port transport resolved proxy \<Rightarrow>
          Some (case to_string (flow_message source host port transport resolved proxy) of
                  Some line \<Rightarrow> line
                | None \<Rightarrow> format_target source (Some (host, port)))
      | _ \<Rightarrow> None)"

lemma parse_display_sockaddr: "parse_authority (display_sockaddr a) = Inr (Ip (sa_ip a), sa_port a)"
proof (cases a)
  case (SocketAddr ip port)
  show ?thesis
  proof (cases ip)
    case (V4 x)
    have "\<not> starts_with (ascii ''['') (display_ipv4 x)"
    proof (cases "dec (unat (octets4 x ! 0))")
      case (Cons c cs)
      then have "c \<noteq> 91" using dec_no_bracket(2) [of "unat (octets4 x ! 0)"] by auto
      with Cons show ?thesis by (simp add: display_ipv4_eq starts_with_def)
    qed simp
    from parse_authority_unbracketed [OF this, of port] parse_display_ip [of "V4 x"] SocketAddr V4
    show ?thesis by (simp add: display_ip_def)
  next
    case (V6 x)
    with parse_authority_bracketed [of "display_ipv6 x" "V6 x" port] parse_display_ip [of "V6 x"] SocketAddr
    show ?thesis by (simp add: display_ip_def display_ipv6_no_bracket)
  qed
qed

section \<open>Reading the log\<close>

fun json_field :: "string \<Rightarrow> json_object \<Rightarrow> json option" where
  "json_field name [] = None"
| "json_field name ((k, v) # fs) = (if k = ascii name then Some v else json_field name fs)"

definition text_field :: "string \<Rightarrow> json_object \<Rightarrow> str option" where
  "text_field name fs = (case json_field name fs of Some (JString s) \<Rightarrow> Some s | _ \<Rightarrow> None)"

definition port_field :: "string \<Rightarrow> json_object \<Rightarrow> u16 option" where
  "port_field name fs = (case json_field name fs of Some (JNumber n) \<Rightarrow> Some (of_nat n) | _ \<Rightarrow> None)"

record flow =
  flow_source :: sockaddr
  flow_target :: "host \<times> u16"
  flow_transport :: str
  flow_resolved :: sockaddr
  flow_proxy :: str

definition read_host :: "str \<Rightarrow> host" where
  "read_host s = (case parse_ip s of Some ip \<Rightarrow> Ip ip | None \<Rightarrow> Name s)"

definition read_flow :: "json_object \<Rightarrow> flow option" where
  "read_flow fs =
     (case (Option.bind (text_field ''source_ip'' fs) parse_ip, port_field ''source_port'' fs,
            text_field ''target_host'' fs, port_field ''target_port'' fs, text_field ''tcpOrUdp'' fs,
            map_option parse_authority (text_field ''ResolvedAddress'' fs), text_field ''httpOrSocks'' fs) of
        (Some ip, Some p, Some h, Some tp, Some t, Some (Inr (Ip rip, rp)), Some x) \<Rightarrow>
          Some \<lparr>flow_source = SocketAddr ip p, flow_target = (read_host h, tp), flow_transport = t,
                flow_resolved = SocketAddr rip rp, flow_proxy = x\<rparr>
      | _ \<Rightarrow> None)"

text \<open>(C32) Nothing is lost in the flow log: from a line's fields the client, the requested target, the address
  it was resolved to, the transport and the protocol can be read back, for every IPv4 and IPv6 address.
  The one ambiguity is a name that is the text of an address.
\<close>

theorem flow_log_readable:
  assumes "\<forall>n. host = Name n \<longrightarrow> parse_ip n = None"
  shows "read_flow (flow_message source host port transport resolved proxy) =
    Some \<lparr>flow_source = source, flow_target = (host, port), flow_transport = ascii transport,
          flow_resolved = resolved, flow_proxy = ascii proxy\<rparr>"
proof -
  have h: "read_host (display_host host) = host"
    using assms by (cases host) (simp_all add: read_host_def parse_display_ip)
  have s: "SocketAddr (sa_ip a) (sa_port a) = a" for a by (cases a) simp
  show ?thesis
    by (simp add: read_flow_def flow_message_def text_field_def port_field_def parse_display_ip
        parse_display_sockaddr h s)
qed

text \<open>A SOCKS5 request by name over IPv6.\<close>

theorem flow_log_readable_witness:
  "read_flow (flow_message (SocketAddr (V6 1) 50000) (Name (ascii ''a.io'')) 443 ''tcp''
      (SocketAddr (V4 0x08080808) 443) ''socks5'')
    = Some \<lparr>flow_source = SocketAddr (V6 1) 50000, flow_target = (Name (ascii ''a.io''), 443),
            flow_transport = ascii ''tcp'', flow_resolved = SocketAddr (V4 0x08080808) 443,
            flow_proxy = ascii ''socks5''\<rparr>"
proof (rule flow_log_readable)
  show "\<forall>n. Name (ascii ''a.io'') = Name n \<longrightarrow> parse_ip n = None"
    by (simp add: ip_parser_defs parse_simps)
qed

end
