(* ===== verification/MasqueRequest.thy ===== *)
theory MasqueRequest
  imports SocksWire Config
begin

text \<open>
  The pure part of \<open>src/masque.rs\<close>: what an HTTP/3 request is, authorisation, the validation of the
  four kinds of CONNECT, the target of a CONNECT-UDP path, the choice of the tunnel; and the
  \<open>:protocol\<close> values of the patched \<open>h3\<close> (\<open>vendor/h3-patched/src/ext.rs\<close>).

  Three functions of other packages are arguments, collected in a record: \<open>HeaderValue::to_str\<close>, the
  standard base64 decoder, and percent-decoding to UTF-8.
\<close>

section \<open>The :protocol pseudo-header\<close>

datatype connect_protocol = WebTransport | ConnectUdp | Other str

definition as_str :: "connect_protocol \<Rightarrow> str" where
  "as_str p =
     (case p of
        WebTransport \<Rightarrow> ascii ''webtransport''
      | ConnectUdp \<Rightarrow> ascii ''connect-udp''
      | Other b \<Rightarrow> (case from_utf8 b of Some s \<Rightarrow> s | None \<Rightarrow> []))"

definition protocol_from_str :: "str \<Rightarrow> connect_protocol option" where
  "protocol_from_str s =
     (if s = ascii ''webtransport'' then Some WebTransport
      else if s = ascii ''connect-udp'' then Some ConnectUdp
      else if s \<noteq> [] then Some (Other s)
      else None)"

section \<open>Requests\<close>

record request =
  rq_method :: str
  rq_protocol :: "connect_protocol option"
  rq_path :: str
  rq_authority :: "str option"
  rq_headers :: "(str \<times> byte list) list"

record libs =
  to_str :: "byte list \<Rightarrow> str option"
  base64_decode :: "byte list \<Rightarrow> byte list option"
  percent_decode_utf8 :: "str \<Rightarrow> str option"

datatype status =
    OK | BAD_REQUEST | FORBIDDEN | METHOD_NOT_ALLOWED | PROXY_AUTHENTICATION_REQUIRED
  | INTERNAL_SERVER_ERROR | NOT_IMPLEMENTED | BAD_GATEWAY | SERVICE_UNAVAILABLE

text \<open>\<open>HeaderMap::get\<close>: the first value of a header.\<close>

definition header :: "string \<Rightarrow> request \<Rightarrow> byte list option" where
  "header name req = map_of (rq_headers req) (ascii name)"

definition is_connect :: "request \<Rightarrow> bool" where
  "is_connect req = (rq_method req = ascii ''CONNECT'')"

definition MASQUE_UDP_PATH_PREFIX :: str where
  "MASQUE_UDP_PATH_PREFIX = ascii ''/.well-known/masque/udp/''"

definition MASQUE_IP_PATH :: str where
  "MASQUE_IP_PATH = ascii ''/.well-known/masque/ip''"

section \<open>Authorisation\<close>

definition check_proxy_auth :: "libs \<Rightarrow> request \<Rightarrow> str option \<Rightarrow> bool" where
  "check_proxy_auth l req token =
     (case token of
        None \<Rightarrow> False
      | Some token \<Rightarrow>
          (case header ''proxy-authorization'' req of
             None \<Rightarrow> False
           | Some h \<Rightarrow>
               (case to_str l h of
                  None \<Rightarrow> False
                | Some value \<Rightarrow>
                    (case strip_prefix (ascii ''Bearer '') value of
                       Some rest \<Rightarrow> trim rest = token
                     | None \<Rightarrow>
                         (case strip_prefix (ascii ''Basic '') value of
                            None \<Rightarrow> False
                          | Some rest \<Rightarrow>
                              (case base64_decode l (trim rest) of
                                 None \<Rightarrow> False
                               | Some decoded \<Rightarrow>
                                   (case from_utf8 decoded of
                                      None \<Rightarrow> False
                                    | Some s \<Rightarrow>
                                        (case split_once 58 s of
                                           Some (_, pass) \<Rightarrow> pass = token
                                         | None \<Rightarrow> s = token))))))))"

section \<open>The target of a CONNECT-UDP path\<close>

definition parse_target_host :: "libs \<Rightarrow> str \<Rightarrow> host option" where
  "parse_target_host l segment =
     (case percent_decode_utf8 l segment of
        None \<Rightarrow> None
      | Some decoded \<Rightarrow>
          (case (case strip_prefix (ascii ''['') decoded of
                   Some inner \<Rightarrow> strip_suffix (ascii '']'') inner
                 | None \<Rightarrow> Some decoded) of
             None \<Rightarrow> None
           | Some host_str \<Rightarrow>
               if host_str = [] then None
               else Some (case parse_ip host_str of Some ip \<Rightarrow> Ip ip | None \<Rightarrow> Name host_str)))"

definition parse_target :: "libs \<Rightarrow> request \<Rightarrow> (host \<times> u16) option" where
  "parse_target l req =
     (case strip_prefix MASQUE_UDP_PATH_PREFIX (rq_path req) of
        None \<Rightarrow> None
      | Some rest \<Rightarrow>
          (case split_char 47 rest of
             host_seg # port_seg # _ \<Rightarrow>
               if host_seg = [] \<or> port_seg = [] then None
               else
                 (case parse_u16 port_seg of
                    None \<Rightarrow> None
                  | Some port \<Rightarrow>
                      (case parse_target_host l host_seg of
                         None \<Rightarrow> None
                       | Some host \<Rightarrow> Some (host, port)))
           | _ \<Rightarrow> None))"

section \<open>Validation\<close>

definition is_connect_ip_path :: "str \<Rightarrow> bool" where
  "is_connect_ip_path path =
     (path = MASQUE_IP_PATH \<or> starts_with (ascii ''/.well-known/masque/ip/'') path)"

definition validate_connect_udp :: "libs \<Rightarrow> request \<Rightarrow> str option \<Rightarrow> status + (host \<times> u16)" where
  "validate_connect_udp l req token =
     (if \<not> is_connect req then Inl METHOD_NOT_ALLOWED
      else if rq_protocol req \<noteq> Some ConnectUdp then Inl NOT_IMPLEMENTED
      else if header ''capsule-protocol'' req \<noteq> Some (ascii ''?1'') then Inl BAD_REQUEST
      else if \<not> check_proxy_auth l req token then Inl PROXY_AUTHENTICATION_REQUIRED
      else (case parse_target l req of None \<Rightarrow> Inl BAD_REQUEST | Some t \<Rightarrow> Inr t))"

definition validate_connect_ip :: "libs \<Rightarrow> request \<Rightarrow> str option \<Rightarrow> status + unit" where
  "validate_connect_ip l req token =
     (if \<not> is_connect req then Inl METHOD_NOT_ALLOWED
      else if \<not> is_connect_ip_path (rq_path req) then Inl BAD_REQUEST
      else if rq_protocol req = Some ConnectUdp then Inl NOT_IMPLEMENTED
      else if header ''capsule-protocol'' req \<noteq> Some (ascii ''?1'') then Inl BAD_REQUEST
      else if \<not> check_proxy_auth l req token then Inl PROXY_AUTHENTICATION_REQUIRED
      else Inr ())"

definition authority_target :: "request \<Rightarrow> status + (host \<times> u16)" where
  "authority_target req =
     (case parse_authority (case rq_authority req of Some a \<Rightarrow> a | None \<Rightarrow> []) of
        Inl _ \<Rightarrow> Inl BAD_REQUEST
      | Inr t \<Rightarrow> Inr t)"

definition validate_tcp_connect :: "libs \<Rightarrow> request \<Rightarrow> str option \<Rightarrow> status + (host \<times> u16)" where
  "validate_tcp_connect l req token =
     (if \<not> is_connect req then Inl METHOD_NOT_ALLOWED
      else if rq_protocol req \<noteq> None then Inl NOT_IMPLEMENTED
      else if \<not> check_proxy_auth l req token then Inl PROXY_AUTHENTICATION_REQUIRED
      else authority_target req)"

definition validate_websocket_connect :: "libs \<Rightarrow> request \<Rightarrow> str option \<Rightarrow> status + (host \<times> u16)" where
  "validate_websocket_connect l req token =
     (if \<not> is_connect req then Inl METHOD_NOT_ALLOWED
      else if map_option as_str (rq_protocol req) \<noteq> Some (ascii ''websocket'') then Inl NOT_IMPLEMENTED
      else if \<not> check_proxy_auth l req token then Inl PROXY_AUTHENTICATION_REQUIRED
      else authority_target req)"

section \<open>The choice of the tunnel\<close>

text \<open>The arms of the accept loop of \<open>handle_connection\<close> (on Linux).\<close>

datatype arm = Refuse status | UdpTunnel | IpTunnel | WebSocketTunnel | TcpTunnel

definition classify :: "request \<Rightarrow> arm" where
  "classify req =
     (let proto = rq_protocol req; proto_str = map_option as_str proto in
      if \<not> is_connect req then Refuse METHOD_NOT_ALLOWED
      else if proto = Some ConnectUdp then UdpTunnel
      else if proto_str = Some (ascii ''connect-ip'') \<or> proto = None \<and> is_connect_ip_path (rq_path req)
      then IpTunnel
      else if proto_str = Some (ascii ''websocket'') then WebSocketTunnel
      else if proto = None then TcpTunnel
      else Refuse NOT_IMPLEMENTED)"

text \<open>The response to a refused request: the status, and a challenge with 407.\<close>

definition status_headers :: "status \<Rightarrow> (str \<times> str) list" where
  "status_headers s =
     (if s = PROXY_AUTHENTICATION_REQUIRED then [(ascii ''proxy-authenticate'', ascii ''Bearer'')] else [])"

text \<open>What a request gets before any tunnel work: a status, or the tunnel and its target.\<close>

datatype admission = Reject status | AdmitUdp host u16 | AdmitIp | AdmitTcp host u16 | AdmitWs host u16

definition admit :: "libs \<Rightarrow> str option \<Rightarrow> request \<Rightarrow> admission" where
  "admit l token req =
     (case classify req of
        Refuse s \<Rightarrow> Reject s
      | UdpTunnel \<Rightarrow>
          (case validate_connect_udp l req token of Inl s \<Rightarrow> Reject s | Inr (h, p) \<Rightarrow> AdmitUdp h p)
      | IpTunnel \<Rightarrow> (case validate_connect_ip l req token of Inl s \<Rightarrow> Reject s | Inr _ \<Rightarrow> AdmitIp)
      | WebSocketTunnel \<Rightarrow>
          (case validate_websocket_connect l req token of Inl s \<Rightarrow> Reject s | Inr (h, p) \<Rightarrow> AdmitWs h p)
      | TcpTunnel \<Rightarrow>
          (case validate_tcp_connect l req token of Inl s \<Rightarrow> Reject s | Inr (h, p) \<Rightarrow> AdmitTcp h p))"

section \<open>Properties\<close>

text \<open>The credentials that open the proxy, written as forms of the header.\<close>

definition presents_token :: "libs \<Rightarrow> request \<Rightarrow> str \<Rightarrow> bool" where
  "presents_token l req token \<longleftrightarrow>
     (\<exists>h rest. header ''proxy-authorization'' req = Some h
       \<and> (to_str l h = Some (ascii ''Bearer '' @ rest) \<and> trim rest = token
          \<or> (\<exists>cred. to_str l h = Some (ascii ''Basic '' @ rest)
               \<and> base64_decode l (trim rest) = Some cred \<and> utf8_valid cred
               \<and> (58 \<notin> set cred \<and> cred = token
                  \<or> (\<exists>user. 58 \<notin> set user \<and> cred = user @ 58 # token)))))"

lemma split_once_user: "(\<exists>u. split_once 58 s = Some (u, t)) \<longleftrightarrow> (\<exists>user. 58 \<notin> set user \<and> s = user @ 58 # t)"
  using split_once_SomeD [of 58 s] split_once_eq [of 58] by metis

lemma split_once_None: "split_once 58 s = None \<longleftrightarrow> 58 \<notin> set s"
  by (auto simp: split_once_def position_None_iff)

text \<open>(C31) A request is authorised exactly when its Proxy-Authorization header is a bearer token equal to
  the configured one, or Basic credentials whose password (or whole text, when there is no colon) is.
  Without a configured token nothing is authorised.\<close>

theorem check_proxy_auth_iff:
  "check_proxy_auth l req token = (\<exists>t. token = Some t \<and> presents_token l req t)"
proof (cases token)
  case None
  then show ?thesis by (simp add: check_proxy_auth_def)
next
  case (Some t)
  have s: "(case split_once 58 cred of Some (_, pass) \<Rightarrow> pass = t | None \<Rightarrow> cred = t)
      = (58 \<notin> set cred \<and> cred = t \<or> (\<exists>user. 58 \<notin> set user \<and> cred = user @ 58 # t))" for cred
    using split_once_user [of cred t] split_once_None [of cred]
    by (cases "split_once 58 cred") auto
  show ?thesis
  proof (cases "header ''proxy-authorization'' req")
    case None
    with Some show ?thesis by (simp add: check_proxy_auth_def presents_token_def)
  next
    case (Some h)
    note token = \<open>token = Some t\<close> and h = Some
    show ?thesis
    proof (cases "to_str l h")
      case None
      with token h show ?thesis by (simp add: check_proxy_auth_def presents_token_def)
    next
      case (Some v)
      show ?thesis
      proof (cases "strip_prefix (ascii ''Bearer '') v")
        case (Some r)
        then have v: "v = ascii ''Bearer '' @ r" by (simp add: strip_prefix_Some_iff)
        then show ?thesis using token h \<open>to_str l h = Some v\<close>
          by (simp add: check_proxy_auth_def presents_token_def)
      next
        case None
        then have "v \<noteq> ascii ''Bearer '' @ r" for r by (auto simp del: ascii_simps)
        with None token h \<open>to_str l h = Some v\<close> show ?thesis
          by (auto simp: check_proxy_auth_def presents_token_def strip_prefix_Some_iff from_utf8_def s
              simp del: ascii_simps split: option.splits)
      qed
    qed
  qed
qed

text \<open>(C11) No tunnel of any kind is opened for a request that is not a CONNECT presenting the token; a
  tunnel's kind is the one its \<open>:protocol\<close> (or, for CONNECT-IP without one, its path) names; and the
  target is read from the path for UDP, from the authority for TCP and WebSocket.\<close>

theorem admission_sound:
  assumes "admit l token req = a"
  shows "((\<forall>s. a \<noteq> Reject s) \<longrightarrow> is_connect req \<and> check_proxy_auth l req token)
    \<and> (a = AdmitUdp h p \<longrightarrow> rq_protocol req = Some ConnectUdp \<and> parse_target l req = Some (h, p)
         \<and> header ''capsule-protocol'' req = Some (ascii ''?1''))
    \<and> (a = AdmitIp \<longrightarrow> is_connect_ip_path (rq_path req) \<and> rq_protocol req \<noteq> Some ConnectUdp
         \<and> header ''capsule-protocol'' req = Some (ascii ''?1''))
    \<and> (a = AdmitTcp h p \<longrightarrow> rq_protocol req = None \<and> authority_target req = Inr (h, p))
    \<and> (a = AdmitWs h p \<longrightarrow> map_option as_str (rq_protocol req) = Some (ascii ''websocket'')
         \<and> authority_target req = Inr (h, p))"
  using assms
  by (auto simp: admit_def classify_def validate_connect_udp_def validate_connect_ip_def
      validate_tcp_connect_def validate_websocket_connect_def Let_def
      split: if_splits sum.splits option.splits prod.splits simp del: ascii_simps)

text \<open>A library record for concrete requests: header text is kept, base64 is not used, and
  percent-decoding leaves text without a percent sign as it is.\<close>

definition plain_libs :: libs where
  "plain_libs = \<lparr>to_str = (\<lambda>h. if \<forall>b\<in>set h. 32 \<le> b \<and> b \<le> 126 then Some h else None),
     base64_decode = (\<lambda>_. None), percent_decode_utf8 = (\<lambda>s. if 37 \<in> set s then None else Some s)\<rparr>"

definition sample_udp_request :: request where
  "sample_udp_request = \<lparr>rq_method = ascii ''CONNECT'', rq_protocol = Some ConnectUdp,
     rq_path = ascii ''/.well-known/masque/udp/192.0.2.6/443/'', rq_authority = Some (ascii ''p''),
     rq_headers = [(ascii ''capsule-protocol'', ascii ''?1''),
                   (ascii ''proxy-authorization'', ascii ''Bearer s3'')]\<rparr>"

lemma sample_auth: "check_proxy_auth plain_libs sample_udp_request (Some (ascii ''s3''))"
  by (simp add: check_proxy_auth_def header_def sample_udp_request_def plain_libs_def trim_def
      trim_start.simps trim_end.simps ws_suffix_len_def between_def Let_def)

lemma sample_target: "parse_target plain_libs sample_udp_request = Some (Ip (V4 0xC0000206), 443)"
  by (simp add: parse_target_def parse_target_host_def sample_udp_request_def plain_libs_def
      MASQUE_UDP_PATH_PREFIX_def ip_parser_defs parse_simps parse_u16_def parse_uint_def is_digit_def
      between_def)

lemma sample_admit:
  "admit plain_libs (Some (ascii ''s3'')) sample_udp_request = AdmitUdp (Ip (V4 0xC0000206)) 443"
proof -
  have "classify sample_udp_request = UdpTunnel" "is_connect sample_udp_request"
    "rq_protocol sample_udp_request = Some ConnectUdp"
    "header ''capsule-protocol'' sample_udp_request = Some (ascii ''?1'')"
    by (simp_all add: classify_def is_connect_def sample_udp_request_def header_def Let_def)
  with sample_auth sample_target show ?thesis
    by (simp add: admit_def validate_connect_udp_def del: ascii_simps)
qed

theorem admission_sound_witness:
  "is_connect sample_udp_request \<and> check_proxy_auth plain_libs sample_udp_request (Some (ascii ''s3''))
   \<and> parse_target plain_libs sample_udp_request = Some (Ip (V4 0xC0000206), 443)"
  using admission_sound [OF sample_admit, of "Ip (V4 0xC0000206)" 443] by auto

text \<open>The refusals: 405 exactly for other methods, 501 exactly for an extended CONNECT whose
  \<open>:protocol\<close> is none of connect-udp, connect-ip and websocket (when it is a value \<open>h3\<close> can deliver), and
  407 for every TCP or WebSocket CONNECT without the token, whatever its target.\<close>

theorem refusal_status:
  assumes "\<And>p. rq_protocol req = Some p \<Longrightarrow> \<exists>s. utf8_valid s \<and> protocol_from_str s = Some p"
  shows "(admit l token req = Reject METHOD_NOT_ALLOWED) = (\<not> is_connect req)
    \<and> (admit l token req = Reject NOT_IMPLEMENTED) = (is_connect req \<and> (\<exists>p. rq_protocol req = Some p
         \<and> as_str p \<notin> {ascii ''connect-udp'', ascii ''connect-ip'', ascii ''websocket''}))
    \<and> (is_connect req \<and> classify req \<in> {TcpTunnel, WebSocketTunnel} \<and> \<not> check_proxy_auth l req token
        \<longrightarrow> admit l token req = Reject PROXY_AUTHENTICATION_REQUIRED)"
proof -
  have names: "as_str ConnectUdp = ascii ''connect-udp''" "as_str WebTransport = ascii ''webtransport''"
    by (simp_all add: as_str_def)
  have udp: "as_str p = ascii ''connect-udp'' \<longleftrightarrow> p = ConnectUdp" if "rq_protocol req = Some p" for p
    using assms [OF that]
    by (auto simp: protocol_from_str_def as_str_def from_utf8_def split: if_splits simp del: ascii_simps)
       (simp_all)
  show ?thesis
    using udp
    by (cases "rq_protocol req")
       (auto simp: admit_def classify_def validate_connect_udp_def validate_connect_ip_def names
          validate_tcp_connect_def validate_websocket_connect_def authority_target_def Let_def
          split: if_splits sum.splits option.splits prod.splits simp del: ascii_simps)
qed

text \<open>A \<open>:protocol\<close> value is kept as it came: the text of a parsed value is the value, and only the
  empty one is refused.\<close>

theorem protocol_round_trip:
  assumes "utf8_valid s"
  shows "map_option as_str (protocol_from_str s) = (if s = [] then None else Some s)"
  using assms by (auto simp: protocol_from_str_def as_str_def from_utf8_def simp del: ascii_simps) simp_all

theorem protocol_round_trip_witness:
  "map_option as_str (protocol_from_str (ascii ''connect-ip'')) = Some (ascii ''connect-ip'')"
  using protocol_round_trip [of "ascii ''connect-ip''"] utf8_valid_ascii [of "ascii ''connect-ip''"]
  by simp

text \<open>A path of the default URI template yields its target: the percent-decoded host segment, read
  as an address when it is one (brackets allowed), and the decimal port.\<close>

theorem parse_target_template:
  assumes "47 \<notin> set seg" and "seg \<noteq> []" and "percent_decode_utf8 l seg = Some d"
    and "d = h \<or> d = ascii ''['' @ h @ ascii '']''" and "h \<noteq> []" and "hd h \<noteq> 91"
    and "rq_path req = MASQUE_UDP_PATH_PREFIX @ seg @ ascii ''/'' @ dec (unat p) @ tail"
    and "tail = [] \<or> hd tail = 47"
  shows "parse_target l req = Some (case parse_ip h of Some ip \<Rightarrow> Ip ip | None \<Rightarrow> Name h, p)"
proof -
  have no_slash: "47 \<notin> set (dec (unat p))"
    using dec_digits by (fastforce simp: is_digit_def between_def)
  have "\<exists>ws. split_char 47 (dec (unat p) @ tail) = dec (unat p) # ws"
    using assms(8) no_slash by (cases tail) (auto simp: split_char_join split_char_single)
  then obtain ws where ws: "split_char 47 (seg @ ascii ''/'' @ dec (unat p) @ tail) = seg # dec (unat p) # ws"
    using assms(1) by (auto simp: split_char_join)
  have host: "parse_target_host l seg = Some (case parse_ip h of Some ip \<Rightarrow> Ip ip | None \<Rightarrow> Name h)"
    using assms(3-6)
    by (cases h) (auto simp: parse_target_host_def strip_suffix_Some_iff split: option.split)
  show ?thesis using assms(2) by (simp add: parse_target_def assms(7) ws host parse_u16_dec del: ascii_simps)
qed

theorem parse_target_template_witness:
  "parse_target plain_libs sample_udp_request = Some (Ip (V4 0xC0000206), 443)"
proof -
  have ip: "parse_ip (ascii ''192.0.2.6'') = Some (V4 0xC0000206)"
    by (simp add: ip_parser_defs parse_simps)
  have dec: "dec 443 = ascii ''443''" by (simp add: dec.simps [of 443] dec.simps [of 44] dec.simps [of 4])
  have path: "rq_path sample_udp_request
      = MASQUE_UDP_PATH_PREFIX @ ascii ''192.0.2.6'' @ ascii ''/'' @ dec (unat (443 :: u16)) @ ascii ''/''"
    by (simp add: sample_udp_request_def MASQUE_UDP_PATH_PREFIX_def dec)
  show ?thesis
    using parse_target_template [OF _ _ _ _ _ _ path, of plain_libs "ascii ''192.0.2.6''" "ascii ''192.0.2.6''"] ip
    by (simp add: plain_libs_def)
qed

theorem refusal_status_witness:
  "admit plain_libs None (sample_udp_request\<lparr>rq_protocol := None, rq_path := []\<rparr>)
     = Reject PROXY_AUTHENTICATION_REQUIRED"
  using refusal_status [of "sample_udp_request\<lparr>rq_protocol := None, rq_path := []\<rparr>" plain_libs None]
  by (simp add: classify_def is_connect_ip_path_def starts_with_def MASQUE_IP_PATH_def is_connect_def
      sample_udp_request_def check_proxy_auth_def)

end
