(* ===== verification/MasqueConnection.thy ===== *)
theory MasqueConnection
  imports MasqueRequest "HOL-Library.Sublist"
begin

text \<open>
  \<open>handle_connection\<close> of \<open>src/masque.rs\<close>: the accept loop, the task that reads the connection's
  datagrams and passes each to its tunnel by stream, and the routing table the two share with the
  tunnels. The tasks interleave at the lock of the table, so the model is a state machine whose labels
  are the atomic steps of the tasks. QUIC never uses a stream id twice on a connection.
\<close>

section \<open>State and steps\<close>

text \<open>\<open>routes\<close>: streams with an entry in the table. \<open>live\<close>: tunnels that still hold their receiver.
  \<open>inbox\<close>: what a tunnel has been handed. \<open>seen\<close>: streams accepted so far.\<close>

record conn =
  routes :: "nat set"
  live :: "nat set"
  inbox :: "nat \<Rightarrow> byte list list"
  seen :: "nat set"
  refused :: "(nat \<times> status) list"
  reader_on :: bool
  accepting :: bool

datatype conn_label =
    DatagramFor nat "byte list"
  | ReaderError
  | Accepted nat request
  | Unresolved
  | ReceiverDropped nat
  | RouteRemoved nat
  | AcceptDone
  | AcceptError

definition needs_route :: "request \<Rightarrow> bool" where
  "needs_route req = (classify req \<in> {UdpTunnel, IpTunnel})"

text \<open>The reader task hands a datagram on, and forgets a stream whose tunnel is gone.\<close>

definition route_datagram :: "nat \<Rightarrow> byte list \<Rightarrow> conn \<Rightarrow> conn" where
  "route_datagram sid payload s =
     (if sid \<in> routes s then
        (if sid \<in> live s then s\<lparr>inbox := (inbox s)(sid := inbox s sid @ [payload])\<rparr>
         else s\<lparr>routes := routes s - {sid}\<rparr>)
      else s)"

text \<open>A request is refused, or its tunnel is spawned, with a route if it uses datagrams.\<close>

definition accept_request :: "nat \<Rightarrow> request \<Rightarrow> conn \<Rightarrow> conn" where
  "accept_request sid req s =
     (case classify req of
        Refuse status \<Rightarrow> s\<lparr>seen := insert sid (seen s), refused := refused s @ [(sid, status)]\<rparr>
      | _ \<Rightarrow>
          if needs_route req
          then s\<lparr>seen := insert sid (seen s), routes := insert sid (routes s), live := insert sid (live s)\<rparr>
          else s\<lparr>seen := insert sid (seen s)\<rparr>)"

fun conn_step :: "conn \<Rightarrow> conn_label \<Rightarrow> conn option" where
  "conn_step s (DatagramFor sid payload) = (if reader_on s then Some (route_datagram sid payload s) else None)"
| "conn_step s ReaderError =
     (if reader_on s then Some (s\<lparr>routes := {}, reader_on := False\<rparr>) else None)"
| "conn_step s (Accepted sid req) =
     (if accepting s \<and> sid \<notin> seen s then Some (accept_request sid req s) else None)"
| "conn_step s Unresolved = (if accepting s then Some s else None)"
| "conn_step s (ReceiverDropped sid) =
     (if sid \<in> live s then Some (s\<lparr>live := live s - {sid}\<rparr>) else None)"
| "conn_step s (RouteRemoved sid) =
     (if sid \<in> seen s \<and> sid \<notin> live s then Some (s\<lparr>routes := routes s - {sid}\<rparr>) else None)"
| "conn_step s AcceptDone =
     (if accepting s then Some (s\<lparr>accepting := False, routes := {}\<rparr>) else None)"
| "conn_step s AcceptError =
     (if accepting s then Some (s\<lparr>accepting := False\<rparr>) else None)"

lemmas conn_ops = route_datagram_def accept_request_def

declare conn_ops [simp]

definition conn_init :: conn where
  "conn_init = \<lparr>routes = {}, live = {}, inbox = (\<lambda>_. []), seen = {}, refused = [], reader_on = True,
     accepting = True\<rparr>"

text \<open>Runs, the latest label last.\<close>

inductive conn_run :: "conn_label list \<Rightarrow> conn \<Rightarrow> bool" where
  init: "conn_run [] conn_init"
| step: "conn_run ls s \<Longrightarrow> conn_step s l = Some t \<Longrightarrow> conn_run (ls @ [l]) t"

section \<open>Delivery\<close>

text \<open>The datagrams for a stream that were read after its request was accepted.\<close>

fun deliverable :: "nat \<Rightarrow> bool \<Rightarrow> conn_label list \<Rightarrow> byte list list" where
  "deliverable sid open_now [] = []"
| "deliverable sid open_now (DatagramFor sid' payload # ls) =
     (if sid' = sid \<and> open_now then payload # deliverable sid open_now ls else deliverable sid open_now ls)"
| "deliverable sid open_now (Accepted sid' req # ls) =
     deliverable sid (open_now \<or> sid' = sid) ls"
| "deliverable sid open_now (_ # ls) = deliverable sid open_now ls"

text \<open>The same read off the run: all datagrams for a stream, and the part of a run that begins with the
  acceptance of its request. The datagrams before that part are dropped, there being no route yet.\<close>

definition datagrams_for :: "nat \<Rightarrow> conn_label list \<Rightarrow> byte list list" where
  "datagrams_for sid ls =
     List.map_filter (\<lambda>l. case l of DatagramFor sid' payload \<Rightarrow> if sid' = sid then Some payload else None | _ \<Rightarrow> None) ls"

definition since_accepted :: "nat \<Rightarrow> conn_label list \<Rightarrow> conn_label list" where
  "since_accepted sid ls = dropWhile (\<lambda>l. case l of Accepted sid' _ \<Rightarrow> sid' \<noteq> sid | _ \<Rightarrow> True) ls"

lemma deliverable_since:
  "deliverable sid open_now ls = datagrams_for sid (if open_now then ls else since_accepted sid ls)"
  by (induction sid open_now ls rule: deliverable.induct)
     (auto simp: datagrams_for_def since_accepted_def List.map_filter_simps)

lemma datagrams_for_before:
  "datagrams_for sid ls = datagrams_for sid (takeWhile (\<lambda>l. case l of Accepted sid' _ \<Rightarrow> sid' \<noteq> sid | _ \<Rightarrow> True) ls)
     @ datagrams_for sid (since_accepted sid ls)"
  unfolding since_accepted_def datagrams_for_def List.map_filter_def by (metis filter_append map_append takeWhile_dropWhile_id)

definition was_accepted :: "nat \<Rightarrow> conn_label list \<Rightarrow> bool" where
  "was_accepted sid ls = list_ex (\<lambda>l. case l of Accepted sid' _ \<Rightarrow> sid' = sid | _ \<Rightarrow> False) ls"

lemma deliverable_append:
  "deliverable sid b (ls @ ms) = deliverable sid b ls @ deliverable sid (b \<or> was_accepted sid ls) ms"
  by (induction sid b ls rule: deliverable.induct) (auto simp: was_accepted_def)

lemma was_accepted_simps [simp]:
  "was_accepted sid []= False"
  "was_accepted sid (ls @ [l]) = (was_accepted sid ls \<or> (\<exists>req. l = Accepted sid req))"
  by (auto simp: was_accepted_def split: conn_label.split)

text \<open>What holds of one stream after every run: its bookkeeping, and what its tunnel has been handed.\<close>

definition stream_inv :: "nat \<Rightarrow> conn_label list \<Rightarrow> conn \<Rightarrow> bool" where
  "stream_inv sid ls s \<longleftrightarrow>
     (sid \<in> routes s \<longrightarrow> sid \<in> seen s) \<and> (sid \<in> live s \<longrightarrow> sid \<in> seen s)
     \<and> was_accepted sid ls = (sid \<in> seen s)
     \<and> (sid \<notin> seen s \<longrightarrow> inbox s sid = [] \<and> deliverable sid False ls = [])
     \<and> prefix (inbox s sid) (deliverable sid False ls)
     \<and> (sid \<in> routes s \<and> sid \<in> live s \<longrightarrow> deliverable sid False ls = inbox s sid)"

definition quiet_label :: "conn_label \<Rightarrow> bool" where
  "quiet_label l = (case l of DatagramFor _ _ \<Rightarrow> False | Accepted _ _ \<Rightarrow> False | _ \<Rightarrow> True)"

lemma conn_step_shrinks:
  "conn_step s l = Some t \<Longrightarrow> quiet_label l \<Longrightarrow>
   inbox t = inbox s \<and> seen t = seen s \<and> routes t \<subseteq> routes s \<and> live t \<subseteq> live s"
  by (cases l) (auto simp: quiet_label_def split: if_splits)

lemma stream_inv_keep:
  assumes "stream_inv sid ls s" and "inbox t = inbox s" and "seen t = seen s"
    and "routes t \<subseteq> routes s" and "live t \<subseteq> live s"
    and "deliverable sid (was_accepted sid ls) [l] = []" and "\<forall>req. l \<noteq> Accepted sid req"
  shows "stream_inv sid (ls @ [l]) t"
proof -
  have "deliverable sid False (ls @ [l]) = deliverable sid False ls"
    using assms(6) by (simp add: deliverable_append)
  moreover have "was_accepted sid (ls @ [l]) = was_accepted sid ls" using assms(7) by simp
  ultimately show ?thesis using assms(1-5) unfolding stream_inv_def by (metis subsetD)
qed

lemma stream_inv_step:
  assumes "stream_inv sid ls s" and "conn_step s l = Some t"
  shows "stream_inv sid (ls @ [l]) t"
proof (cases l)
  case (DatagramFor sid' payload)
  show ?thesis
  proof (cases "sid' = sid \<and> sid \<in> routes s \<and> sid \<in> live s")
    case True
    with DatagramFor assms show ?thesis
      by (simp add: stream_inv_def deliverable_append split: if_splits) auto
  next
    case False
    then have "inbox t sid = inbox s sid" "seen t = seen s" "live t = live s"
      "sid \<in> routes t \<and> sid \<in> live t \<longrightarrow> sid' \<noteq> sid \<and> sid \<in> routes s" "sid \<in> routes t \<longrightarrow> sid \<in> routes s"
      using DatagramFor assms(2) by (auto split: if_splits)
    with DatagramFor assms(1) False show ?thesis
      by (auto simp: stream_inv_def deliverable_append)
  qed
next
  case (Accepted sid' req)
  have t: "inbox t = inbox s" "sid' \<notin> seen s" "seen t = insert sid' (seen s)"
    "routes t \<subseteq> insert sid' (routes s)" "live t \<subseteq> insert sid' (live s)"
    using assms(2) unfolding Accepted by (simp_all split: if_splits arm.splits) auto
  have d: "deliverable sid False (ls @ [l]) = deliverable sid False ls"
    by (simp add: deliverable_append Accepted)
  show ?thesis
  proof (cases "sid' = sid")
    case True
    with t assms(1) d show ?thesis by (simp add: stream_inv_def Accepted)
  next
    case False
    then have "sid \<in> routes t \<longrightarrow> sid \<in> routes s" "sid \<in> live t \<longrightarrow> sid \<in> live s"
      using t(4,5) by auto
    with False t(1,3) assms(1) d show ?thesis by (auto simp: stream_inv_def Accepted)
  qed
qed (rule stream_inv_keep [OF assms(1)]; use conn_step_shrinks [OF assms(2)] in \<open>simp add: quiet_label_def\<close>)+

lemma stream_inv_run: "conn_run ls s \<Longrightarrow> stream_inv sid ls s"
proof (induction rule: conn_run.induct)
  case init
  show ?case by (simp add: stream_inv_def conn_init_def)
next
  case (step ls s l t)
  from stream_inv_step [OF step(3,2)] show ?case .
qed

text \<open>Datagrams reach their own tunnel only, in order and without loss: at any moment of any
  interleaving a tunnel has been handed a prefix of the datagrams that were read for its stream after
  its request was accepted, and all of them as long as it runs and has its route.\<close>

theorem datagrams_delivered:
  assumes "conn_run ls s"
  shows "prefix (inbox s sid) (deliverable sid False ls)
    \<and> (sid \<in> routes s \<and> sid \<in> live s \<longrightarrow> inbox s sid = deliverable sid False ls)"
  using stream_inv_run [OF assms, of sid] by (auto simp: stream_inv_def)

definition udp_request :: request where
  "udp_request = \<lparr>rq_method = ascii ''CONNECT'', rq_protocol = Some ConnectUdp, rq_path = [],
     rq_authority = None, rq_headers = []\<rparr>"

lemma classify_udp: "classify udp_request = UdpTunnel"
  by (simp add: classify_def udp_request_def is_connect_def)

lemma conn_sample_run:
  "\<exists>s. conn_run [DatagramFor 0 [9], Accepted 0 udp_request, DatagramFor 0 [1], DatagramFor 4 [2]] s
     \<and> 0 \<in> routes s \<and> 0 \<in> live s"
proof -
  have "conn_run ([] @ [DatagramFor 0 [9]]) conn_init"
    by (rule conn_run.step [OF conn_run.init]) (simp add: conn_init_def)
  from conn_run.step [OF conn_run.step [OF conn_run.step [OF this, where l = "Accepted 0 udp_request"],
      where l = "DatagramFor 0 [1]"], where l = "DatagramFor 4 [2]"]
  show ?thesis by (fastforce simp: conn_init_def classify_udp needs_route_def)
qed

theorem datagrams_delivered_witness:
  "\<exists>s. conn_run [DatagramFor 0 [9], Accepted 0 udp_request, DatagramFor 0 [1], DatagramFor 4 [2]] s
     \<and> inbox s 0 = [[1]]"
  using conn_sample_run datagrams_delivered [where sid = 0] by fastforce

section \<open>The end of a connection\<close>

lemma no_accept_after_done:
  "conn_run ls s \<Longrightarrow> AcceptDone \<in> set ls \<Longrightarrow> routes s = {} \<and> \<not> accepting s"
proof (induction rule: conn_run.induct)
  case (step ls s l t)
  then show ?case by (cases l) (auto split: if_splits arm.splits)
qed simp

text \<open>
  When the accept loop ends normally the table is empty for good, so every tunnel sees its end. When
  \<open>accept\<close> fails the function returns before the table is cleared: a tunnel accepted after the reader
  has ended keeps its route.
\<close>

lemma route_left_after_accept_error:
  "\<exists>s. conn_run [ReaderError, Accepted 0 udp_request, AcceptError] s
     \<and> \<not> accepting s \<and> \<not> reader_on s \<and> routes s = {0} \<and> live s = {0}"
proof -
  have "conn_run ([] @ [ReaderError]) (conn_init\<lparr>routes := {}, reader_on := False\<rparr>)"
    by (rule conn_run.step [OF conn_run.init]) (simp add: conn_init_def)
  from conn_run.step [OF conn_run.step [OF this, where l = "Accepted 0 udp_request"], where l = AcceptError]
  show ?thesis by (fastforce simp: conn_init_def classify_udp needs_route_def)
qed

end
