(* ===== verification/MasqueTunnel.thy ===== *)
theory MasqueTunnel
  imports MasqueRequest Capsule ConnectService
begin

text \<open>
  The CONNECT-UDP, plain TCP and WebSocket tunnels of \<open>src/masque.rs\<close>. A handler yields the events it
  causes, in order, and an error or a value. What QUIC, the sockets and the resolver answer is the
  environment; a tunnel's inputs are the results of its \<open>select!\<close> (or of its two reading loops), in
  order.
\<close>

section \<open>Events and computations\<close>

datatype mevent =
    Net event
  | Response status "(str \<times> str) list"
  | UdpSocketBind sockaddr
  | UdpSocketConnect sockaddr
  | Datagram "byte list"
  | UdpSend "byte list"
  | StreamData "byte list"
  | UpWrite "byte list"
  | UpShutdown
  | TunWrite "byte list"
  | Finish

type_synonym 'a run = "(mevent, 'a) writer"

text \<open>One input of the CONNECT-UDP loop: a datagram of the target (or a receive error) together with the
  QUIC datagram limit of the moment and the fate of the datagram that is sent on; or a datagram of the
  client, \<open>None\<close> when the stream has been taken out of the routing table.\<close>

datatype udp_input =
    FromTarget "byte list option" "nat option" bool
  | FromClient "byte list option"

text \<open>The two directions of a byte pipe: what is received and whether passing it on succeeds.\<close>

datatype pipe_input = Chunk "byte list" bool | End | Broken

record masque_env =
  m_net :: env
  m_respond_ok :: "status \<Rightarrow> bool"
  m_udp_bind_ok :: bool
  m_udp_connect_ok :: bool
  m_udp_inputs :: "udp_input list"
  m_from_client :: "pipe_input list"
  m_from_upstream :: "pipe_input list"

definition respond :: "masque_env \<Rightarrow> status \<Rightarrow> (str \<times> str) list \<Rightarrow> unit run" where
  "respond env s headers =
     (if m_respond_ok env s then tell [Response s headers] else fail ''failed to send response'')"

definition send_status :: "masque_env \<Rightarrow> status \<Rightarrow> unit run" where
  "send_status env s = respond env s (status_headers s)"

definition resolve_target :: "masque_env \<Rightarrow> host \<Rightarrow> u16 \<Rightarrow> sockaddr run" where
  "resolve_target env h p = (map Net (lookups h), target_of (m_net env) h p)"

section \<open>CONNECT-UDP\<close>

definition DATAGRAM_OVERHEAD :: nat where
  "DATAGRAM_OVERHEAD = 8"

definition too_big :: "nat option \<Rightarrow> byte list \<Rightarrow> bool" where
  "too_big limit dgram =
     (case limit of Some max_len \<Rightarrow> length dgram + DATAGRAM_OVERHEAD > max_len | None \<Rightarrow> True)"

text \<open>The loop; \<open>Finish\<close> is the end of the control stream after a \<open>break\<close>. A datagram is received into a
  buffer of \<open>UDP_PACKET_MAX_LEN\<close> bytes.\<close>

fun udp_loop :: "udp_input list \<Rightarrow> mevent list" where
  "udp_loop [] = []"
| "udp_loop (FromTarget None _ _ # r) = [Finish]"
| "udp_loop (FromTarget (Some datagram) limit send_ok # r) =
     (let dgram = 0x00 # take UDP_PACKET_MAX_LEN datagram in
      if too_big limit dgram then udp_loop r
      else if send_ok then Datagram dgram # udp_loop r
      else [Finish])"
| "udp_loop (FromClient None # r) = [Finish]"
| "udp_loop (FromClient (Some dgram) # r) =
     (case strip_context_id dgram of
        Some payload \<Rightarrow> UdpSend payload # udp_loop r
      | None \<Rightarrow> udp_loop r)"

definition handle_stream ::
    "libs \<Rightarrow> masque_env \<Rightarrow> app_config \<Rightarrow> sockaddr \<Rightarrow> request \<Rightarrow> unit run" where
  "handle_stream l env config peer req =
     (case validate_connect_udp l req (auth_token config) of
        Inl status \<Rightarrow> send_status env status
      | Inr (host, port) \<Rightarrow>
          after (resolve_target env host port) (\<lambda>target.
          if block_special_addrs config \<and> is_rfc6890_special (sa_ip target) then
            after (send_status env FORBIDDEN) (\<lambda>_.
            fail ''CONNECT-UDP target is a special-purpose (RFC 6890) address'')
          else
            after (tell [Net (LogRequest peer host port ''udp'' target ''masque'')]) (\<lambda>_.
            let bind_addr = (case sa_ip target of V4 _ \<Rightarrow> unspecified_v4 | V6 _ \<Rightarrow> unspecified_v6) in
            if \<not> m_udp_bind_ok env then fail ''failed to bind UDP tunnel socket''
            else
              after (tell [UdpSocketBind bind_addr]) (\<lambda>_.
              if \<not> m_udp_connect_ok env then fail ''failed to connect UDP tunnel socket''
              else
                after (tell [UdpSocketConnect target]) (\<lambda>_.
                after (respond env OK [(ascii ''capsule-protocol'', ascii ''?1'')]) (\<lambda>_.
                tell (udp_loop (m_udp_inputs env))))))))"

section \<open>TCP and WebSocket\<close>

text \<open>Client to target, target to client. A direction yields its events and whether it has ended.\<close>

fun to_target :: "pipe_input list \<Rightarrow> mevent list \<times> bool" where
  "to_target [] = ([], False)"
| "to_target (Chunk data ok # r) =
     (if ok then (let (es, ended) = to_target r in (UpWrite data # es, ended)) else ([], True))"
| "to_target (End # r) = ([UpShutdown], True)"
| "to_target (Broken # r) = ([], True)"

text \<open>A chunk is what one \<open>read\<close> returned; an empty one is the end of the upstream.\<close>

fun to_client :: "pipe_input list \<Rightarrow> mevent list \<times> bool" where
  "to_client [] = ([], False)"
| "to_client (Chunk data ok # r) =
     (if data = [] then ([Finish], True)
      else if ok then (let (es, ended) = to_client r in (StreamData data # es, ended))
      else ([Finish], True))"
| "to_client (End # r) = ([Finish], True)"
| "to_client (Broken # r) = ([Finish], True)"

text \<open>The result of an established pipe: the events of each direction (they are joined, each in its own
  order) and whether both have ended, which is when the tunnel closes.\<close>

record pipe =
  up :: "mevent list"
  down :: "mevent list"
  closed :: bool

definition run_pipe :: "pipe_input list \<Rightarrow> pipe_input list \<Rightarrow> pipe" where
  "run_pipe from_client from_upstream =
     \<lparr>up = fst (to_target from_client), down = fst (to_client from_upstream),
      closed = (snd (to_target from_client) \<and> snd (to_client from_upstream))\<rparr>"

definition tcp_connect_tunnel ::
    "masque_env \<Rightarrow> app_config \<Rightarrow> sockaddr \<Rightarrow> host \<Rightarrow> u16 \<Rightarrow> string \<Rightarrow> pipe run" where
  "tcp_connect_tunnel env config peer host port transport =
     after (resolve_target env host port) (\<lambda>target.
     if block_special_addrs config \<and> is_rfc6890_special (sa_ip target) then
       after (send_status env FORBIDDEN) (\<lambda>_.
       fail ''CONNECT (TCP) target is a special-purpose (RFC 6890) address'')
     else
       after (tell [Net (LogRequest peer host port transport target ''masque-connect''),
                    Net (TcpConnect target)]) (\<lambda>_.
       case e_connect (m_net env) target of
         TimedOut \<Rightarrow> fail ''CONNECT (TCP) upstream connect timed out''
       | Failed \<Rightarrow>
           after (send_status env BAD_GATEWAY) (\<lambda>_. fail ''CONNECT (TCP) upstream connect failed'')
       | Done _ \<Rightarrow>
           after (respond env OK []) (\<lambda>_.
           return (run_pipe (m_from_client env) (m_from_upstream env)))))"

definition no_pipe :: "unit run \<Rightarrow> pipe option run" where
  "no_pipe m = after m (\<lambda>_. return None)"

definition handle_tcp_connect_stream ::
    "libs \<Rightarrow> masque_env \<Rightarrow> app_config \<Rightarrow> sockaddr \<Rightarrow> request \<Rightarrow> pipe option run" where
  "handle_tcp_connect_stream l env config peer req =
     (case validate_tcp_connect l req (auth_token config) of
        Inl status \<Rightarrow> no_pipe (send_status env status)
      | Inr (host, port) \<Rightarrow>
          after (tcp_connect_tunnel env config peer host port ''tcp'') (\<lambda>p. return (Some p)))"

definition handle_websocket_connect_stream ::
    "libs \<Rightarrow> masque_env \<Rightarrow> app_config \<Rightarrow> sockaddr \<Rightarrow> request \<Rightarrow> pipe option run" where
  "handle_websocket_connect_stream l env config peer req =
     (case validate_websocket_connect l req (auth_token config) of
        Inl status \<Rightarrow> no_pipe (send_status env status)
      | Inr (host, port) \<Rightarrow>
          after (tcp_connect_tunnel env config peer host port ''ws'') (\<lambda>p. return (Some p)))"

section \<open>Targets\<close>

definition mevent_allowed :: "app_config \<Rightarrow> mevent \<Rightarrow> bool" where
  "mevent_allowed config e =
     (case e of
        Net ev \<Rightarrow> target_allowed config [] ev
      | UdpSocketConnect a \<Rightarrow> \<not> (block_special_addrs config \<and> is_rfc6890_special (sa_ip a))
      | _ \<Rightarrow> True)"

definition yields :: "(mevent \<Rightarrow> bool) \<Rightarrow> 'a run \<Rightarrow> bool" where
  "yields P m = list_all P (fst m)"

lemma yields_simps [simp]:
  "yields P (return x)" "yields P (fail e)" "yields P (tell es) = list_all P es"
  by (simp_all add: yields_def return_def fail_def tell_def)

lemma yields_after [intro!]: "yields P m \<Longrightarrow> (\<And>x. yields P (f x)) \<Longrightarrow> yields P (after m f)"
  by (simp add: yields_def after_def split: sum.split)

lemma yields_respond [simp]:
  "mevent_allowed config (Response s h) \<Longrightarrow> yields (mevent_allowed config) (respond env s h)"
  by (simp add: respond_def)

lemma mevent_allowed_simps [simp]:
  "mevent_allowed config (Response s h)" "mevent_allowed config (UdpSocketBind a)"
  "mevent_allowed config (Datagram bs)" "mevent_allowed config (UdpSend bs)"
  "mevent_allowed config Finish" "mevent_allowed config (Net e) = target_allowed config [] e"
  "mevent_allowed config (UdpSocketConnect a)
     = (\<not> (block_special_addrs config \<and> is_rfc6890_special (sa_ip a)))"
  by (simp_all add: mevent_allowed_def)

lemma yields_send_status [simp]: "yields (mevent_allowed config) (send_status env s)"
  by (simp add: send_status_def)

lemma yields_resolve [simp]: "yields (mevent_allowed config) (resolve_target env h p)"
  by (auto simp: yields_def resolve_target_def lookups_def split: host.split)

lemma udp_loop_allowed: "list_all (mevent_allowed config) (udp_loop ins)"
  by (induction ins rule: udp_loop.induct) (auto simp: Let_def split: option.split)

lemma yields_tunnel: "yields (mevent_allowed config) (tcp_connect_tunnel env config peer h p tr)"
  unfolding tcp_connect_tunnel_def
  by (auto simp: Let_def split: outcome.split)

lemma yields_stream: "yields (mevent_allowed config) (handle_stream l env config peer req)"
  unfolding handle_stream_def
  by (auto simp: Let_def udp_loop_allowed split: sum.split prod.split)

lemma yields_no_pipe: "yields (mevent_allowed config) (no_pipe (send_status env s))"
  unfolding no_pipe_def by auto

text \<open>(C2) The HTTP/3 tunnels respect the filter: with it on, no CONNECT-UDP socket and no TCP or WebSocket
  upstream is connected to a special-purpose address, for any request and environment.\<close>

theorem h3_tunnels_respect_filter:
  assumes "block_special_addrs config"
    and "UdpSocketConnect a \<in> set (fst (handle_stream l env config peer req))
      \<or> Net (TcpConnect a) \<in> set (fst (handle_tcp_connect_stream l env config peer req))
      \<or> Net (TcpConnect a) \<in> set (fst (handle_websocket_connect_stream l env config peer req))"
  shows "\<not> is_rfc6890_special (sa_ip a)"
proof -
  have "yields (mevent_allowed config) (handle_tcp_connect_stream l env config peer req)"
    "yields (mevent_allowed config) (handle_websocket_connect_stream l env config peer req)"
    unfolding handle_tcp_connect_stream_def handle_websocket_connect_stream_def
    by (auto intro: yields_tunnel yields_no_pipe split: sum.split prod.split)
  with yields_stream [of config l env peer req] assms show ?thesis
    by (auto simp: yields_def list_all_iff)
qed

end
