(* ===== verification/MasqueSessions.thy ===== *)
theory MasqueSessions
  imports MasqueTunnel FrontEnds
begin

text \<open>
  Properties of the HTTP/3 tunnels of \<open>MasqueTunnel\<close>: what a CONNECT-UDP tunnel relays, that a plain
  CONNECT does what an HTTP CONNECT of the TCP listener does, and that the pipes pass bytes through
  unchanged.
\<close>

section \<open>CONNECT-UDP\<close>

text \<open>The inputs after which the loop goes on, and what each of them lets through in each direction.\<close>

fun goes_on :: "udp_input \<Rightarrow> bool" where
  "goes_on (FromTarget None _ _) = False"
| "goes_on (FromTarget (Some d) limit ok) = (too_big limit (0 # take UDP_PACKET_MAX_LEN d) \<or> ok)"
| "goes_on (FromClient None) = False"
| "goes_on (FromClient (Some _)) = True"

fun uplink :: "udp_input \<Rightarrow> byte list option" where
  "uplink (FromClient (Some d)) = strip_context_id d"
| "uplink _ = None"

fun downlink :: "udp_input \<Rightarrow> byte list option" where
  "downlink (FromTarget (Some d) limit True) =
     (if too_big limit (0 # take UDP_PACKET_MAX_LEN d) then None else Some (take UDP_PACKET_MAX_LEN d))"
| "downlink _ = None"

definition sent_up :: "mevent list \<Rightarrow> byte list list" where
  "sent_up es = List.map_filter (\<lambda>e. case e of UdpSend p \<Rightarrow> Some p | _ \<Rightarrow> None) es"

definition sent_down :: "mevent list \<Rightarrow> byte list list" where
  "sent_down es = List.map_filter (\<lambda>e. case e of Datagram d \<Rightarrow> Some d | _ \<Rightarrow> None) es"

lemma sent_simps [simp]:
  "sent_up [] = []" "sent_down [] = []"
  "sent_up (UdpSend p # es) = p # sent_up es" "sent_up (Datagram d # es) = sent_up es"
  "sent_up (Finish # es) = sent_up es"
  "sent_down (UdpSend p # es) = sent_down es" "sent_down (Datagram d # es) = d # sent_down es"
  "sent_down (Finish # es) = sent_down es"
  by (simp_all add: sent_up_def sent_down_def map_filter_simps)

lemma strip_context_id_zero: "strip_context_id (0 # d) = Some d"
proof -
  have "put_varint [] 0 = [0]" by (simp add: put_varint_def)
  then show ?thesis
    using get_put_varint_take_bit [of 0 d] by (simp add: strip_context_id_def)
qed

text \<open>(C22) Until its end, a CONNECT-UDP tunnel sends to the target exactly the payloads of the client's
  datagrams with Context ID 0, in order, and to the client exactly the target's datagrams that fit the
  QUIC limit, in order, each with Context ID 0, so that the client reads back the datagram; and it
  finishes the stream exactly when something ended the loop.\<close>

theorem udp_tunnel_relays:
  "sent_up (udp_loop ins) = List.map_filter uplink (takeWhile goes_on ins)
   \<and> map strip_context_id (sent_down (udp_loop ins))
       = map Some (List.map_filter downlink (takeWhile goes_on ins))
   \<and> (Finish \<in> set (udp_loop ins)) = (\<exists>i\<in>set ins. \<not> goes_on i)"
proof (induction ins rule: udp_loop.induct)
  case (3 datagram limit send_ok r)
  define d where "d = take UDP_PACKET_MAX_LEN datagram"
  have "strip_context_id (0 # d) = Some d" by (rule strip_context_id_zero)
  with 3 show ?case by (cases send_ok) (auto simp: Let_def map_filter_simps d_def)
next
  case (5 dgram r)
  then show ?case by (cases "strip_context_id dgram") (auto simp: map_filter_simps)
qed (auto simp: map_filter_simps)

section \<open>TCP and WebSocket\<close>

fun passes :: "pipe_input \<Rightarrow> bool" where
  "passes (Chunk data ok) = ok"
| "passes _ = False"

fun passes_down :: "pipe_input \<Rightarrow> bool" where
  "passes_down (Chunk data ok) = (ok \<and> data \<noteq> [])"
| "passes_down _ = False"

fun chunk_data :: "pipe_input \<Rightarrow> byte list" where
  "chunk_data (Chunk data _) = data"
| "chunk_data _ = []"

definition hd_opt :: "'a list \<Rightarrow> 'a option" where
  "hd_opt xs = (case xs of [] \<Rightarrow> None | x # _ \<Rightarrow> Some x)"

definition answers_delivered :: "masque_env \<Rightarrow> bool" where
  "answers_delivered env \<longleftrightarrow> (\<forall>s. m_respond_ok env s)"

definition result_pipe :: "pipe option run \<Rightarrow> pipe option" where
  "result_pipe m = (case snd m of Inr (Some pipe) \<Rightarrow> Some pipe | _ \<Rightarrow> None)"

text \<open>
  What a client and an administrator see of a CONNECT, in HTTP/1.1 on the TCP listener or in HTTP/3: the
  names looked up, the log line (but for the name of the proxy in it), the connection attempt, and the
  status of the answer. An HTTP/1.1 status is read in its three digits.
\<close>

datatype connect_step =
    Looked str
  | Logged sockaddr host u16 string sockaddr
  | Tried sockaddr
  | Answered "nat option"

fun http1_steps :: "event \<Rightarrow> connect_step list" where
  "http1_steps (Lookup n) = [Looked n]"
| "http1_steps (LogRequest source h p transport t _) = [Logged source h p transport t]"
| "http1_steps (TcpConnect t) = [Tried t]"
| "http1_steps (ClientWrite bs) = [Answered (parse_uint 1000 (take 3 (drop 9 bs)))]"
| "http1_steps _ = []"

fun status_code :: "status \<Rightarrow> nat option" where
  "status_code OK = Some 200"
| "status_code FORBIDDEN = Some 403"
| "status_code BAD_GATEWAY = Some 502"
| "status_code _ = None"

fun http3_steps :: "mevent \<Rightarrow> connect_step list" where
  "http3_steps (Net e) = http1_steps e"
| "http3_steps (Response s _) = [Answered (status_code s)]"
| "http3_steps _ = []"

fun unlogged :: "connect_step \<Rightarrow> bool" where
  "unlogged (Logged _ _ _ _ _) = False"
| "unlogged _ = True"

definition seen_http1 :: "event list \<Rightarrow> connect_step list" where
  "seen_http1 es = concat (map http1_steps es)"

definition seen_http3 :: "mevent list \<Rightarrow> connect_step list" where
  "seen_http3 es = concat (map http3_steps es)"

lemma http1_codes:
  "parse_uint 1000 (take 3 (drop 9 (r_blocked http_replies))) = Some 403"
  "parse_uint 1000 (take 3 (drop 9 (r_refused http_replies))) = Some 502"
  "r_ok http_replies l = Some ok \<Longrightarrow> parse_uint 1000 (take 3 (drop 9 ok)) = Some 200"
  by (auto simp: http_replies_def http_status_def parse_uint_def is_digit_def between_def)

lemma forwards_unseen: "forwards rest fwd \<Longrightarrow> seen_http1 fwd = []"
  by (auto simp: forwards_def seen_http1_def split: if_splits)

lemma seen_lookups: "seen_http3 (map Net es) = seen_http1 es"
  by (simp add: seen_http1_def seen_http3_def comp_def)

lemma seen_append:
  "seen_http1 (xs @ ys) = seen_http1 xs @ seen_http1 ys" "seen_http3 (us @ vs) = seen_http3 us @ seen_http3 vs"
  by (simp_all add: seen_http1_def seen_http3_def)


text \<open>A network as in \<open>sample_env\<close>; the client sends two chunks and ends, the upstream answers one.\<close>

definition sample_masque :: masque_env where
  "sample_masque = \<lparr>m_net = sample_env, m_respond_ok = (\<lambda>_. True), m_udp_bind_ok = True,
     m_udp_connect_ok = True, m_udp_inputs = [],
     m_from_client = [Chunk [1, 2] True, Chunk [3] True, End],
     m_from_upstream = [Chunk [9] True, End]\<rparr>"

definition sample_connect :: request where
  "sample_connect = \<lparr>rq_method = ascii ''CONNECT'', rq_protocol = None, rq_path = [],
     rq_authority = Some (ascii ''a.io:80''),
     rq_headers = [(ascii ''proxy-authorization'', ascii ''Bearer s3'')]\<rparr>"

definition token_config :: app_config where
  "token_config = default_config\<lparr>no_loopback := True, auth_token := Some (ascii ''s3'')\<rparr>"

lemma sample_connect_valid:
  "validate_tcp_connect plain_libs sample_connect (auth_token token_config) = Inr (Name (ascii ''a.io''), 80)"
proof -
  have "check_proxy_auth plain_libs sample_connect (Some (ascii ''s3''))"
    by (simp add: check_proxy_auth_def header_def sample_connect_def plain_libs_def trim_def
        trim_start.simps trim_end.simps ws_suffix_len_def between_def Let_def)
  moreover have "authority_target sample_connect = Inr (Name (ascii ''a.io''), 80)"
    using sample_authority by (simp add: authority_target_def sample_connect_def)
  ultimately show ?thesis
    by (simp add: validate_tcp_connect_def is_connect_def sample_connect_def token_config_def)
qed

lemma sample_delivered: "answers_delivered sample_masque"
  by (simp add: answers_delivered_def sample_masque_def)

lemma sample_tunnel:
  "Net (TcpConnect (SocketAddr (V4 0x08080808) 80))
     \<in> set (fst (handle_tcp_connect_stream plain_libs sample_masque token_config sample_peer sample_connect))"
proof -
  have "target_of sample_env (Name (ascii ''a.io'')) 80 = Inr (SocketAddr (V4 0x08080808) 80)"
    using sample_name by (simp add: target_of_def io_defs session_start_def sample_env_def del: ascii_simps)
  then show ?thesis
    using sample_connect_valid
    by (simp add: handle_tcp_connect_stream_def tcp_connect_tunnel_def resolve_target_def after_def tell_def
        sample_masque_def sample_env_def respond_def return_def del: ascii_simps is_rfc6890_special.simps)
qed

theorem h3_tunnels_respect_filter_witness:
  "Net (TcpConnect (SocketAddr (V4 0x08080808) 80))
     \<in> set (fst (handle_tcp_connect_stream plain_libs sample_masque token_config sample_peer sample_connect))
   \<and> \<not> is_rfc6890_special (sa_ip (SocketAddr (V4 0x08080808) 80))"
proof -
  have "block_special_addrs token_config" by (simp add: token_config_def block_special_addrs_def)
  from h3_tunnels_respect_filter [OF this disjI2 [OF disjI1 [OF sample_tunnel]]] sample_tunnel
  show ?thesis by blast
qed


text \<open>(C23) The pipe of an established tunnel changes no byte and no order. Towards the target it passes
  on the client's chunks until a write fails or the client stops, and shuts the target's side down
  exactly when the client ended its stream; towards the client it passes on the target's chunks until
  a send fails or the target stops, and finishes the stream whatever the reason was.\<close>

theorem pipe_transparent:
  "up (run_pipe cs us) = map (UpWrite \<circ> chunk_data) (takeWhile passes cs)
     @ (if hd_opt (dropWhile passes cs) = Some End then [UpShutdown] else [])
   \<and> down (run_pipe cs us) = map (StreamData \<circ> chunk_data) (takeWhile passes_down us)
     @ (if dropWhile passes_down us = [] then [] else [Finish])
   \<and> closed (run_pipe cs us) = (dropWhile passes cs \<noteq> [] \<and> dropWhile passes_down us \<noteq> [])"
proof -
  have "to_target cs = (map (UpWrite \<circ> chunk_data) (takeWhile passes cs)
      @ (if hd_opt (dropWhile passes cs) = Some End then [UpShutdown] else []), dropWhile passes cs \<noteq> [])"
    by (induction cs rule: to_target.induct) (auto simp: hd_opt_def Let_def split: prod.split)
  moreover have "to_client us = (map (StreamData \<circ> chunk_data) (takeWhile passes_down us)
      @ (if dropWhile passes_down us = [] then [] else [Finish]), dropWhile passes_down us \<noteq> [])"
    by (induction us rule: to_client.induct) (auto simp: Let_def split: prod.split)
  ultimately show ?thesis by (simp add: run_pipe_def)
qed

text \<open>
  A client stream that breaks off does not close the tunnel: the target's side is neither shut down nor
  dropped until the target itself ends.
\<close>

lemma broken_client_keeps_upstream:
  "run_pipe [Broken] [] = \<lparr>up = [], down = [], closed = False\<rparr>"
  by (simp add: run_pipe_def)

text \<open>A connection attempt that times out, and a target that cannot be resolved, end the handler without
  an answer; only a refused connection is answered, with 502.\<close>

lemma timeout_unanswered:
  assumes "target_of (m_net env) host port = Inr target" and "e_connect (m_net env) target = TimedOut"
    and "\<not> (block_special_addrs config \<and> is_rfc6890_special (sa_ip target))"
  shows "Response s hs \<notin> set (fst (tcp_connect_tunnel env config peer host port transport))"
  using assms by (auto simp: tcp_connect_tunnel_def resolve_target_def after_def tell_def fail_def lookups_def split: host.split)

lemma unresolved_unanswered:
  assumes "target_of (m_net env) host port = Inl e"
  shows "Response s hs \<notin> set (fst (tcp_connect_tunnel env config peer host port transport))"
  using assms by (auto simp: tcp_connect_tunnel_def resolve_target_def after_def)

end
