(* ===== verification/Tun.thy ===== *)
theory Tun
  imports RustStd "HOL-Library.Multiset"
begin

text \<open>
  \<open>src/tun.rs\<close>: the address pool of CONNECT-IP, the life of a \<open>tun\<close> device (the \<open>ip\<close> and \<open>iptables\<close>
  commands that set it up and take it down), and the counted IPv4 forwarding flag. The kernel and the
  external commands answer as the environment says; the host state records the commands that were
  run, the open tun descriptors and the flag. An \<open>IpNet\<close> (package \<open>ipnet\<close>) is represented by the values
  the code asks it for: the network and broadcast addresses, the prefix length.
\<close>

section \<open>Address pool\<close>

datatype ip_net =
    NetV4 (v4_network: u32) (v4_broadcast: u32)
  | NetV6 (v6_network: u128) (v6_prefix: nat)

record ip_pool =
  net :: ip_net
  v4_blocks :: u64
  v6_blocks :: u64

definition new_pool :: "(str \<Rightarrow> ip_net option) \<Rightarrow> str \<Rightarrow> string + ip_pool" where
  "new_pool parse_net cidr =
     (case parse_net cidr of
        None \<Rightarrow> Inl ''invalid --ip-pool CIDR''
      | Some n \<Rightarrow> Inr \<lparr>net = n, v4_blocks = 0, v6_blocks = 0\<rparr>)"

text \<open>Arithmetic on \<open>u32\<close> and \<open>u128\<close> wraps, as in a release build.\<close>

definition allocate :: "ip_pool \<Rightarrow> (string + (ipaddr \<times> ipaddr \<times> byte)) \<times> ip_pool" where
  "allocate pool =
     (case net pool of
        NetV4 network broadcast \<Rightarrow>
          let base_aligned = network AND NOT 3;
              block = v4_blocks pool;
              base = base_aligned + ucast block * 4 in
          if base + 3 > broadcast then (Inl ''IPv4 pool exhausted'', pool)
          else (Inr (V4 (base + 1), V4 (base + 2), 30), pool\<lparr>v4_blocks := block + 1\<rparr>)
      | NetV6 network prefix \<Rightarrow>
          if prefix > 64 then (Inl ''--ip-pool v6 prefix is smaller than the /64 allocated per client'', pool)
          else
            let n_blocks = push_bit (64 - prefix) 1; block = v6_blocks pool in
            if ucast block \<ge> (n_blocks :: u128) then (Inl ''IPv6 pool exhausted'', pool)
            else
              let base = network + push_bit 64 (ucast block) in
              (Inr (V6 (base + 1), V6 (base + 2), 64), pool\<lparr>v6_blocks := block + 1\<rparr>))"

section \<open>Devices\<close>

definition IP_BIN :: str where "IP_BIN = ascii ''/usr/sbin/ip''"
definition IPTABLES :: str where "IPTABLES = ascii ''/usr/sbin/iptables''"
definition IP6TABLES :: str where "IP6TABLES = ascii ''/usr/sbin/ip6tables''"
definition IFNAMSIZ :: nat where "IFNAMSIZ = 16"
definition IFF_TUN :: u16 where "IFF_TUN = 0x0001"
definition IFF_NO_PI :: u16 where "IFF_NO_PI = 0x1000"

text \<open>The argument of \<open>TUNSETIFF\<close>.\<close>

record ifreq =
  ifr_name :: "byte list"
  ifr_flags :: u16
  ifr_pad :: "byte list"

datatype family = Family4 | Family6

type_synonym command = "str \<times> str list"

record tun_device =
  d_name :: str
  d_family :: family
  d_nat_rules :: "str list list"
  d_managed_ip_forward :: bool

record host_state =
  ran :: "command list"
  open_fds :: nat
  fwd_refs :: nat
  fwd_orig :: nat
  fwd_file :: str

text \<open>\<open>t_ioctl\<close> is the name field that \<open>TUNSETIFF\<close> writes back for a request, or its failure.\<close>

record tun_env =
  t_open_ok :: bool
  t_ioctl :: "ifreq \<Rightarrow> byte list option"
  t_async_ok :: bool
  t_cmd_ok :: "command \<Rightarrow> bool"
  t_fwd_readable :: bool
  t_fwd_writable :: bool

definition run_cmd :: "tun_env \<Rightarrow> str \<Rightarrow> str list \<Rightarrow> host_state \<Rightarrow> (string + unit) \<times> host_state" where
  "run_cmd env prog args h =
     (if t_cmd_ok env (prog, args) then Inr () else Inl ''command failed'',
      h\<lparr>ran := ran h @ [(prog, args)]\<rparr>)"

definition cstr_to_string :: "byte list \<Rightarrow> str" where
  "cstr_to_string bytes =
     (let end_pos = (case position ((=) 0) bytes of Some i \<Rightarrow> i | None \<Rightarrow> length bytes) in
      from_utf8_lossy (take end_pos bytes))"

subsection \<open>The forwarding flag\<close>

definition read_ip_forward :: "tun_env \<Rightarrow> host_state \<Rightarrow> string + nat" where
  "read_ip_forward env h =
     (if \<not> t_fwd_readable env then Inl ''reading ip_forward''
      else (case parse_uint (2 ^ 8) (trim (fwd_file h)) of
              None \<Rightarrow> Inl ''parsing ip_forward''
            | Some v \<Rightarrow> Inr (min v 1)))"

definition set_ip_forward :: "tun_env \<Rightarrow> nat \<Rightarrow> host_state \<Rightarrow> (string + unit) \<times> host_state" where
  "set_ip_forward env v h =
     (if t_fwd_writable env then (Inr (), h\<lparr>fwd_file := dec v\<rparr>) else (Inl ''writing ip_forward'', h))"

definition ensure_ip_forward :: "tun_env \<Rightarrow> host_state \<Rightarrow> (string + bool) \<times> host_state" where
  "ensure_ip_forward env h =
     (case (if fwd_refs h = 0 then
              (case read_ip_forward env h of
                 Inl e \<Rightarrow> (Inl e, h)
               | Inr cur \<Rightarrow>
                   let h = h\<lparr>fwd_orig := cur\<rparr> in
                   if cur = 0 then set_ip_forward env 1 h else (Inr (), h))
            else (Inr (), h)) of
        (Inl e, h) \<Rightarrow> (Inl e, h)
      | (Inr _, h) \<Rightarrow> (Inr (fwd_orig h = 0), h\<lparr>fwd_refs := fwd_refs h + 1\<rparr>))"

definition release_ip_forward :: "tun_env \<Rightarrow> host_state \<Rightarrow> (string + unit) \<times> host_state" where
  "release_ip_forward env h =
     (if fwd_refs h = 0 then (Inr (), h)
      else
        let h = h\<lparr>fwd_refs := fwd_refs h - 1\<rparr> in
        if fwd_refs h = 0 \<and> fwd_orig h = 0 then set_ip_forward env 0 h else (Inr (), h))"

subsection \<open>Taking a device down\<close>

definition nat_prog :: "family \<Rightarrow> str" where
  "nat_prog f = (if f = Family4 then IPTABLES else IP6TABLES)"

definition undo_rule :: "str list \<Rightarrow> str list" where
  "undo_rule rule = map (\<lambda>tok. if tok = ascii ''-A'' then ascii ''-D'' else tok) rule"

fun remove_rules :: "tun_env \<Rightarrow> str \<Rightarrow> str list list \<Rightarrow> host_state \<Rightarrow> host_state" where
  "remove_rules env prog [] h = h"
| "remove_rules env prog (rule # rules) h =
     remove_rules env prog rules (snd (run_cmd env prog (undo_rule rule) h))"

definition drop_device :: "tun_env \<Rightarrow> tun_device \<Rightarrow> host_state \<Rightarrow> host_state" where
  "drop_device env dev h =
     (let h = remove_rules env (nat_prog (d_family dev)) (d_nat_rules dev) h;
          h = snd (run_cmd env IP_BIN [ascii ''link'', ascii ''del'', d_name dev] h);
          h = (if d_managed_ip_forward dev then snd (release_ip_forward env h) else h) in
      h\<lparr>open_fds := open_fds h - 1\<rparr>)"

subsection \<open>Setting a device up\<close>

text \<open>\<open>?\<close> in \<open>create\<close> once the device exists: on an error the device is dropped.\<close>

definition or_drop ::
    "tun_env \<Rightarrow> tun_device \<Rightarrow> (string + 'a) \<times> host_state \<Rightarrow>
     ('a \<Rightarrow> host_state \<Rightarrow> (string + tun_device) \<times> host_state) \<Rightarrow> (string + tun_device) \<times> host_state" where
  "or_drop env dev r k =
     (case r of (Inl e, h) \<Rightarrow> (Inl e, drop_device env dev h) | (Inr x, h) \<Rightarrow> k x h)"

definition add_nat_rule ::
    "tun_env \<Rightarrow> str list \<Rightarrow> tun_device \<Rightarrow> host_state \<Rightarrow>
     (tun_device \<Rightarrow> host_state \<Rightarrow> (string + tun_device) \<times> host_state) \<Rightarrow> (string + tun_device) \<times> host_state" where
  "add_nat_rule env args dev h k =
     or_drop env dev (run_cmd env (nat_prog (d_family dev)) args h)
       (\<lambda>_. k (dev\<lparr>d_nat_rules := d_nat_rules dev @ [args]\<rparr>))"

definition up_args :: "str \<Rightarrow> str list" where
  "up_args name = [ascii ''link'', ascii ''set'', name, ascii ''up'']"

definition mtu_args :: "str \<Rightarrow> nat \<Rightarrow> str list" where
  "mtu_args name mtu = [ascii ''link'', ascii ''set'', name, ascii ''mtu'', dec mtu]"

definition addr_args :: "family \<Rightarrow> str \<Rightarrow> ipaddr \<Rightarrow> ipaddr \<Rightarrow> byte \<Rightarrow> str list" where
  "addr_args f name proxy client prefix =
     (if f = Family4
      then [ascii ''addr'', ascii ''add'', display_ip proxy @ ascii ''/'' @ dec (unat prefix),
            ascii ''peer'', display_ip client, ascii ''dev'', name]
      else [ascii ''-6'', ascii ''addr'', ascii ''add'', display_ip proxy @ ascii ''/128'',
            ascii ''peer'', display_ip client @ ascii ''/128'', ascii ''dev'', name])"

definition masquerade_rule :: "ipaddr \<Rightarrow> str list" where
  "masquerade_rule client =
     [ascii ''-t'', ascii ''nat'', ascii ''-A'', ascii ''POSTROUTING'', ascii ''-s'', display_ip client,
      ascii ''-j'', ascii ''MASQUERADE'']"

definition forward_rule :: "string \<Rightarrow> ipaddr \<Rightarrow> str list" where
  "forward_rule direction client =
     [ascii ''-A'', ascii ''FORWARD'', ascii direction, display_ip client, ascii ''-j'', ascii ''ACCEPT'']"

text \<open>The name of the request is the hint, filled up with NULs.\<close>

definition tun_request :: "str \<Rightarrow> ifreq" where
  "tun_request hint =
     \<lparr>ifr_name = hint @ replicate (IFNAMSIZ - length hint) 0, ifr_flags = IFF_TUN OR IFF_NO_PI,
      ifr_pad = replicate 22 0\<rparr>"

definition create ::
    "tun_env \<Rightarrow> str \<Rightarrow> ipaddr \<Rightarrow> ipaddr \<Rightarrow> byte \<Rightarrow> nat option \<Rightarrow> host_state
     \<Rightarrow> (string + tun_device) \<times> host_state" where
  "create env name_hint proxy client prefix mtu h =
     (if is_ipv4 proxy \<noteq> is_ipv4 client
      then (Inl ''proxy and client addresses must be the same IP family'', h)
      else
        let family = (if is_ipv4 proxy then Family4 else Family6) in
        if \<not> t_open_ok env then (Inl ''opening /dev/net/tun'', h)
        else if length name_hint \<ge> IFNAMSIZ then (Inl ''tun name hint is too long'', h)
        else
          (case t_ioctl env (tun_request name_hint) of
             None \<Rightarrow> (Inl ''TUNSETIFF ioctl failed'', h)
           | Some answer \<Rightarrow>
               if \<not> t_async_ok env then (Inl ''wrapping tun fd in AsyncFd'', h)
               else
                 let h = h\<lparr>open_fds := open_fds h + 1\<rparr>;
                     dev = \<lparr>d_name = cstr_to_string answer, d_family = family, d_nat_rules = [],
                            d_managed_ip_forward = False\<rparr> in
                 or_drop env dev (run_cmd env IP_BIN (up_args (d_name dev)) h) (\<lambda>_ h.
                 or_drop env dev
                   (case mtu of Some m \<Rightarrow> run_cmd env IP_BIN (mtu_args (d_name dev) m) h | None \<Rightarrow> (Inr (), h))
                   (\<lambda>_ h.
                 or_drop env dev
                   (run_cmd env IP_BIN (addr_args family (d_name dev) proxy client prefix) h) (\<lambda>_ h.
                 or_drop env dev (ensure_ip_forward env h) (\<lambda>managed h.
                 let dev = dev\<lparr>d_managed_ip_forward := managed\<rparr> in
                 add_nat_rule env (masquerade_rule client) dev h (\<lambda>dev h.
                 add_nat_rule env (forward_rule ''-s'' client) dev h (\<lambda>dev h.
                 add_nat_rule env (forward_rule ''-d'' client) dev h (\<lambda>dev h.
                 (Inr dev, h))))))))))"

end
