(* ===== verification/MasqueIp.thy ===== *)
theory MasqueIp
  imports MasqueTunnel Tun
begin

text \<open>
  The CONNECT-IP tunnel of \<open>src/masque.rs\<close>: the reader of the client's capsules, the packet loop, and
  the handler that takes an address from the shared pool, sets the \<open>tun\<close> device up, signals address
  and route, relays, and takes the device down on every way out.
\<close>

section \<open>The capsule reader\<close>

text \<open>What one capsule of the client causes: a reply on the stream, nothing, or the end of the reader.\<close>

datatype capsule_action = Reply "byte list" | Ignore | Abort

definition assigned :: "ipaddr \<Rightarrow> byte \<Rightarrow> assigned_address \<Rightarrow> assigned_address" where
  "assigned client prefix r = \<lparr>request_id = request_id r, address = client, prefix_len = prefix\<rparr>"

definition capsule_action :: "ipaddr \<Rightarrow> byte \<Rightarrow> u64 \<Rightarrow> byte list \<Rightarrow> capsule_action" where
  "capsule_action client prefix typ value =
     (if typ = CAPSULE_ADDRESS_REQUEST then
        (case decode_address_value value of
           None \<Rightarrow> Abort
         | Some entries \<Rightarrow>
             if entries = [] then Abort
             else Reply (encode_address_assign (map (assigned client prefix) entries)))
      else Ignore)"

text \<open>
  \<open>while let Some(..) = split_capsule(&pending)\<close>. \<open>n\<close> counts the replies sent so far, \<open>send_ok\<close> tells which
  sends succeed. The result: replies, whether the reader goes on, and what is left to parse.
\<close>

function drain_capsules ::
    "(nat \<Rightarrow> bool) \<Rightarrow> ipaddr \<Rightarrow> byte \<Rightarrow> nat \<Rightarrow> byte list \<Rightarrow> byte list list \<times> bool \<times> byte list" where
  "drain_capsules send_ok client prefix n pending =
     (case split_capsule pending of
        None \<Rightarrow> ([], True, pending)
      | Some (typ, value, used) \<Rightarrow>
          (case capsule_action client prefix typ value of
             Abort \<Rightarrow> ([], False, drop used pending)
           | Ignore \<Rightarrow> drain_capsules send_ok client prefix n (drop used pending)
           | Reply r \<Rightarrow>
               if send_ok n then
                 (let (rs, go_on, rest) = drain_capsules send_ok client prefix (Suc n) (drop used pending) in
                  (r # rs, go_on, rest))
               else ([], False, drop used pending)))"
  by pat_completeness auto
termination
  by (relation "measure (\<lambda>(_, _, _, _, pending). length pending)")
     (auto dest: split_capsule_consumed)

declare drain_capsules.simps [simp del]

definition PENDING_LIMIT :: nat where
  "PENDING_LIMIT = 1048576"

text \<open>The reader task over what \<open>recv_data\<close> yields; the result is the replies, and whether it has ended
  (signalled teardown and finished the stream).\<close>

fun capsule_reader ::
    "(nat \<Rightarrow> bool) \<Rightarrow> ipaddr \<Rightarrow> byte \<Rightarrow> nat \<Rightarrow> byte list \<Rightarrow> pipe_input list \<Rightarrow> byte list list \<times> bool" where
  "capsule_reader send_ok client prefix n pending [] = ([], False)"
| "capsule_reader send_ok client prefix n pending (End # r) = ([], True)"
| "capsule_reader send_ok client prefix n pending (Broken # r) = ([], True)"
| "capsule_reader send_ok client prefix n pending (Chunk data ok # r) =
     (let pending = pending @ data in
      if length pending > PENDING_LIMIT then ([], True)
      else
        (case drain_capsules send_ok client prefix n pending of
           (rs, False, _) \<Rightarrow> (rs, True)
         | (rs, True, rest) \<Rightarrow>
             (let (rs', ended) = capsule_reader send_ok client prefix (n + length rs) rest r in
              (rs @ rs', ended))))"

section \<open>The packet loop\<close>

datatype ip_input =
    TunRead "byte list option" "nat option" bool
  | ClientPacket "byte list option"
  | Teardown

fun ip_loop :: "ip_input list \<Rightarrow> mevent list" where
  "ip_loop [] = []"
| "ip_loop (TunRead None _ _ # r) = []"
| "ip_loop (TunRead (Some packet) limit send_ok # r) =
     (let pkt = take 65535 packet; dgram = 0x00 # pkt in
      if pkt = [] then ip_loop r
      else if too_big limit dgram then ip_loop r
      else if send_ok then Datagram dgram # ip_loop r
      else [])"
| "ip_loop (ClientPacket None # r) = []"
| "ip_loop (ClientPacket (Some dgram) # r) =
     (case strip_context_id dgram of
        Some pkt \<Rightarrow> TunWrite pkt # ip_loop r
      | None \<Rightarrow> ip_loop r)"
| "ip_loop (Teardown # r) = []"

section \<open>The handler\<close>

definition default_route_range :: "ipaddr \<Rightarrow> ip_range" where
  "default_route_range addr =
     (case addr of
        V4 _ \<Rightarrow> \<lparr>range_start = V4 0, range_end = V4 0xFFFFFFFF, ip_protocol = 0\<rparr>
      | V6 _ \<Rightarrow> \<lparr>range_start = V6 0, range_end = V6 (- 1), ip_protocol = 0\<rparr>)"

definition tun_mtu :: "nat option \<Rightarrow> nat option" where
  "tun_mtu limit =
     (case map_option (\<lambda>max_len. max_len - (DATAGRAM_OVERHEAD + 40)) limit of
        Some m \<Rightarrow> if m > 0 then Some m else None
      | None \<Rightarrow> None)"

record ip_env =
  i_respond_ok :: "status \<Rightarrow> bool"
  i_limit :: "nat option"
  i_tun :: tun_env
  i_assign_ok :: bool
  i_route_ok :: bool
  i_chunks :: "pipe_input list"
  i_sig_send_ok :: "nat \<Rightarrow> bool"
  i_inputs :: "ip_input list"

record ip_world =
  pool :: ip_pool
  host :: host_state

text \<open>The events of the handler itself and those of the capsule reader, which run side by side: its replies,
  and the end of the stream when it has ended.\<close>

definition reader_events :: "byte list list \<times> bool \<Rightarrow> mevent list" where
  "reader_events r = map StreamData (fst r) @ (if snd r then [Finish] else [])"

record ip_session =
  main_events :: "mevent list"
  capsule_events :: "mevent list"

definition answer :: "ip_env \<Rightarrow> status \<Rightarrow> (str \<times> str) list \<Rightarrow> mevent list" where
  "answer env s headers = (if i_respond_ok env s then [Response s headers] else [])"

text \<open>The part that runs while the device exists.\<close>

definition ip_tunnel :: "ip_env \<Rightarrow> ipaddr \<Rightarrow> byte \<Rightarrow> ip_session \<times> (err + unit)" where
  "ip_tunnel env client prefix =
     (if \<not> i_respond_ok env OK
      then (\<lparr>main_events = [], capsule_events = []\<rparr>, Inl ''failed to send response'')
      else
        let ok_resp = Response OK [(ascii ''capsule-protocol'', ascii ''?1'')];
            assign = encode_address_assign [\<lparr>request_id = 0, address = client, prefix_len = prefix\<rparr>];
            route_adv = encode_route_advertisement [default_route_range client] in
        if \<not> i_assign_ok env
        then (\<lparr>main_events = [ok_resp, Finish], capsule_events = []\<rparr>, Inr ())
        else if \<not> i_route_ok env
        then (\<lparr>main_events = [ok_resp, StreamData assign, Finish], capsule_events = []\<rparr>, Inr ())
        else
          (\<lparr>main_events = [ok_resp, StreamData assign, StreamData route_adv] @ ip_loop (i_inputs env),
            capsule_events = reader_events (capsule_reader (i_sig_send_ok env) client prefix 0 [] (i_chunks env))\<rparr>,
           Inr ()))"

definition handle_ip_stream ::
    "libs \<Rightarrow> ip_env \<Rightarrow> app_config \<Rightarrow> request \<Rightarrow> ip_world \<Rightarrow> (ip_session \<times> (err + unit)) \<times> ip_world" where
  "handle_ip_stream l env config req w =
     (case validate_connect_ip l req (auth_token config) of
        Inl status \<Rightarrow>
          ((\<lparr>main_events = answer env status (status_headers status), capsule_events = []\<rparr>,
            if i_respond_ok env status then Inr () else Inl ''failed to send response''), w)
      | Inr _ \<Rightarrow>
          (case allocate (pool w) of
             (Inl e, pool') \<Rightarrow>
               ((\<lparr>main_events = answer env SERVICE_UNAVAILABLE [], capsule_events = []\<rparr>,
                 Inl ''ip pool exhausted''), w\<lparr>pool := pool'\<rparr>)
           | (Inr (proxy, client, prefix), pool') \<Rightarrow>
               (case create (i_tun env) (ascii ''auto%d'') proxy client prefix (tun_mtu (i_limit env)) (host w) of
                  (Inl e, h) \<Rightarrow>
                    ((\<lparr>main_events = answer env INTERNAL_SERVER_ERROR [], capsule_events = []\<rparr>,
                      Inl ''tun setup failed''), \<lparr>pool = pool', host = h\<rparr>)
                | (Inr dev, h) \<Rightarrow>
                    (ip_tunnel env client prefix,
                     \<lparr>pool = pool', host = drop_device (i_tun env) dev h\<rparr>))))"

end
