(* ===== verification/TunProps.thy ===== *)
theory TunProps
  imports Tun
begin

text \<open>
  Properties of \<open>Tun\<close>: the blocks the pool hands out, the forwarding flag over any history of sessions,
  and the locale \<open>device_steps\<close> for what holds of created and failed devices (its interpretations are in
  TunKernel and HostRuns).
\<close>

section \<open>The pool\<close>

fun after_allocations :: "nat \<Rightarrow> ip_pool \<Rightarrow> ip_pool" where
  "after_allocations 0 pool = pool"
| "after_allocations (Suc k) pool = snd (allocate (after_allocations k pool))"

lemma aligned: "n AND 3 = 0 \<Longrightarrow> (n :: u32) AND NOT 3 = n"
proof -
  assume a: "n AND 3 = 0"
  have "n = (n AND 3) OR (n AND NOT 3)" by (simp flip: bit.conj_disj_distrib)
  with a show ?thesis by simp
qed

lemma aligned_mod: "(n :: u32) AND 3 = 0 \<Longrightarrow> unat n mod 4 = 0"
proof -
  assume "n AND 3 = 0"
  moreover have "(3 :: u32) = mask 2" by (simp add: mask_eq_exp_minus_1)
  ultimately have "take_bit 2 n = 0" by (simp add: take_bit_eq_mask)
  then have "unat (take_bit 2 n) = 0" by simp
  then show ?thesis by (simp add: take_bit_eq_mod unat_mod)
qed

text \<open>A pool of \<open>blocks\<close> whole /30 blocks that does not reach the last address of all.\<close>

definition v4_range :: "u32 \<Rightarrow> u32 \<Rightarrow> nat \<Rightarrow> bool" where
  "v4_range network broadcast blocks \<longleftrightarrow>
     network AND 3 = 0 \<and> unat broadcast + 1 = unat network + 4 * blocks \<and> unat broadcast + 1 < 2 ^ 32"

definition v4_pool :: "u32 \<Rightarrow> u32 \<Rightarrow> u64 \<Rightarrow> ip_pool" where
  "v4_pool network broadcast block =
     \<lparr>net = NetV4 network broadcast, v4_blocks = block, v6_blocks = 0\<rparr>"

lemma block_base:
  assumes "v4_range network broadcast blocks" and "k \<le> blocks" and "j < 4"
  shows "unat (network + of_nat k * 4 + of_nat j) = unat network + 4 * k + j"
proof -
  have m: "unat network mod 4 = 0" using assms(1) aligned_mod by (simp add: v4_range_def)
  have b: "unat network + 4 * blocks < 2 ^ 32" using assms(1) by (simp add: v4_range_def)
  have "(unat network + 4 * blocks) mod 4 = 0" using m by simp
  moreover have "(2 ^ 32 :: nat) mod 4 = 0" by simp
  ultimately have "unat network + 4 * blocks + 4 \<le> 2 ^ 32" using b by presburger
  then have l: "unat network + 4 * k + j < 2 ^ 32" using assms(2,3) by linarith
  have "network + of_nat k * 4 + of_nat j = of_nat (unat network + 4 * k + j)"
    by (simp add: mult.commute)
  then have "unat (network + of_nat k * 4 + of_nat j) = (unat network + 4 * k + j) mod 2 ^ 32"
    by (simp only: unat_of_nat) simp
  with l show ?thesis by simp
qed

lemma allocate_v4:
  assumes r: "v4_range network broadcast blocks" and "k \<le> blocks"
  shows "allocate (v4_pool network broadcast (of_nat k))
    = (if k < blocks
       then (Inr (V4 (network + of_nat k * 4 + 1), V4 (network + of_nat k * 4 + 2), 30),
             v4_pool network broadcast (of_nat (Suc k)))
       else (Inl ''IPv4 pool exhausted'', v4_pool network broadcast (of_nat k)))"
proof -
  have k: "k < 2 ^ 32" using assms by (auto simp: v4_range_def)
  have block: "(ucast (of_nat k :: u64) :: u32) = of_nat k"
    using k by (intro word_unat_eq_iff [THEN iffD2]) (simp add: unat_of_nat unsigned_ucast_eq take_bit_eq_mod)
  have "(network + of_nat k * 4 + 3 > broadcast) = (unat network + 4 * k + 3 > unat broadcast)"
    using block_base [OF r assms(2), of 3] by (simp add: word_less_nat_alt)
  then have full: "(network + of_nat k * 4 + 3 > broadcast) = (\<not> k < blocks)"
    using r assms(2) by (auto simp: v4_range_def)
  have "network AND NOT 3 = network" using r aligned by (simp add: v4_range_def)
  then show ?thesis
    using full by (auto simp: allocate_def v4_pool_def block Let_def add.commute)
qed

lemma after_v4:
  assumes "v4_range network broadcast blocks"
  shows "after_allocations k (v4_pool network broadcast 0)
    = v4_pool network broadcast (of_nat (min k blocks))"
proof (induction k)
  case (Suc k)
  have "min k blocks \<le> blocks" by simp
  from allocate_v4 [OF assms this] Suc show ?case
    by (auto simp: min_def not_less le_Suc_eq)
qed simp

text \<open>(C33) An IPv4 pool that is aligned to /30 blocks, consists of whole blocks and does not end at
  255.255.255.255: the allocator hands out its blocks one after the other. The (k+1)-st call yields
  addresses 1 and 2 of block k, both inside the pool, so that no two sessions ever share a block; and
  after the last block every call fails. (A pool without a whole block and one that ends at the last
  address of all behave otherwise, see \<open>pool_31_leaves_its_range\<close> and \<open>pool_at_top_never_exhausted\<close>.)\<close>

theorem pool_hands_out_blocks:
  assumes "v4_range network broadcast blocks"
  shows "fst (allocate (after_allocations k (v4_pool network broadcast 0)))
    = (if k < blocks then Inr (V4 (network + of_nat k * 4 + 1), V4 (network + of_nat k * 4 + 2), 30)
       else Inl ''IPv4 pool exhausted'')
    \<and> (k < blocks \<longrightarrow>
        unat (network + of_nat k * 4 + 1) = unat network + 4 * k + 1
        \<and> unat (network + of_nat k * 4 + 2) = unat network + 4 * k + 2
        \<and> unat network + 4 * k + 3 \<le> unat broadcast)"
proof -
  have "min k blocks \<le> blocks" by simp
  note a = allocate_v4 [OF assms this]
  have "k < blocks \<longrightarrow> unat network + 4 * k + 3 \<le> unat broadcast"
    using assms by (auto simp: v4_range_def)
  with a block_base [OF assms, of k 1] block_base [OF assms, of k 2] show ?thesis
    by (auto simp: after_v4 [OF assms] min_def)
qed

theorem pool_hands_out_blocks_witness:
  "fst (allocate (after_allocations 3 (v4_pool 0xC6120000 0xC613FFFF 0)))
    = Inr (V4 0xC612000D, V4 0xC612000E, 30)"
proof -
  have "v4_range 0xC6120000 0xC613FFFF 32768" by (simp add: v4_range_def)
  from pool_hands_out_blocks [OF this, of 3] show ?thesis by simp
qed

text \<open>Pools without a whole block, and a pool that ends at the last address of all.\<close>

lemma pool_31_leaves_its_range:
  "fst (allocate (v4_pool 0x0A000006 0x0A000007 0)) = Inr (V4 0x0A000005, V4 0x0A000006, 30)"
  by (simp add: allocate_def v4_pool_def Let_def)

lemma pool_at_top_never_exhausted:
  "fst (allocate (after_allocations 1 (v4_pool 0xFFFFFFFC 0xFFFFFFFF 0))) = Inr (V4 1, V4 2, 30)"
  by (simp add: allocate_def v4_pool_def Let_def)

text \<open>The default pool has 32768 blocks.\<close>

lemma default_pool_size:
  "(case fst (allocate (after_allocations k (v4_pool 0xC6120000 0xC613FFFF 0))) of Inl _ \<Rightarrow> False | Inr _ \<Rightarrow> True)
    \<longleftrightarrow> k < 32768"
proof -
  have r: "v4_range 0xC6120000 0xC613FFFF 32768" by (simp add: v4_range_def)
  have "min k 32768 \<le> (32768 :: nat)" by simp
  from allocate_v4 [OF r this] show ?thesis by (auto simp: after_v4 [OF r] min_def)
qed

text \<open>An IPv6 pool smaller than a /64 is accepted at startup and refuses every session.\<close>

lemma small_v6_pool_accepted:
  assumes "parse_net cidr = Some (NetV6 network prefix)" and "64 < prefix"
  shows "\<exists>pool. new_pool parse_net cidr = Inr pool \<and> fst (allocate (after_allocations k pool)) =
    Inl ''--ip-pool v6 prefix is smaller than the /64 allocated per client''"
proof -
  let ?pool = "\<lparr>net = NetV6 network prefix, v4_blocks = 0, v6_blocks = 0\<rparr>"
  have a: "allocate ?pool = (Inl ''--ip-pool v6 prefix is smaller than the /64 allocated per client'', ?pool)"
    using assms(2) by (simp add: allocate_def)
  then have "after_allocations k ?pool = ?pool" by (induction k) simp_all
  with a assms(1) show ?thesis by (simp add: new_pool_def)
qed

section \<open>The forwarding flag\<close>

text \<open>
  Histories of sessions as the flag sees them: a session opens (its device keeps the answer of
  \<open>ensure_ip_forward\<close>), fails to open, or closes. The state is the host and the numbers of live devices
  that do and do not manage the flag.
\<close>

type_synonym fwd_state = "host_state \<times> nat \<times> nat"

inductive fwd_step :: "tun_env \<Rightarrow> fwd_state \<Rightarrow> fwd_state \<Rightarrow> bool" for env where
  opens: "ensure_ip_forward env h = (Inr managed, h') \<Longrightarrow>
    fwd_step env (h, m, u) (h', if managed then Suc m else m, if managed then u else Suc u)"
| open_fails: "ensure_ip_forward env h = (Inl e, h') \<Longrightarrow> fwd_step env (h, m, u) (h', m, u)"
| closes_managed: "release_ip_forward env h = (r, h') \<Longrightarrow> fwd_step env (h, Suc m, u) (h', m, u)"
| closes_other: "fwd_step env (h, m, Suc u) (h, m, u)"

inductive_cases fwd_step_cases: "fwd_step env (h, m, u) t"

inductive fwd_reachable :: "tun_env \<Rightarrow> host_state \<Rightarrow> fwd_state \<Rightarrow> bool" for env h0 where
  start: "fwd_refs h0 = 0 \<Longrightarrow> fwd_reachable env h0 (h0, 0, 0)"
| step: "fwd_reachable env h0 s \<Longrightarrow> fwd_step env s t \<Longrightarrow> fwd_reachable env h0 t"

lemma read_written:
  "t_fwd_readable env \<Longrightarrow> v \<le> 1 \<Longrightarrow> read_ip_forward env (h\<lparr>fwd_file := dec v\<rparr>) = Inr v"
  by (auto simp: read_ip_forward_def parse_uint_dec)

lemma read_fields [simp]:
  "read_ip_forward env (h\<lparr>fwd_refs := n\<rparr>) = read_ip_forward env h"
  "read_ip_forward env (h\<lparr>fwd_orig := v\<rparr>) = read_ip_forward env h"
  by (simp_all add: read_ip_forward_def)

text \<open>What holds in every reachable state, for a flag that was \<open>v\<close> before the first session.\<close>

definition fwd_inv :: "tun_env \<Rightarrow> nat \<Rightarrow> fwd_state \<Rightarrow> bool" where
  "fwd_inv env v s =
     (case s of (h, m, u) \<Rightarrow>
        (fwd_refs h \<noteq> 0 \<longrightarrow> fwd_orig h = v)
        \<and> (if v = 0 then u = 0 \<and> fwd_refs h = m \<and> read_ip_forward env h = Inr (if m = 0 then 0 else 1)
           else m = 0 \<and> u \<le> fwd_refs h \<and> read_ip_forward env h = Inr 1))"

lemma fwd_inv_step:
  assumes "t_fwd_readable env" and "t_fwd_writable env" and "v \<le> 1"
    and "fwd_inv env v s" and "fwd_step env s t"
  shows "fwd_inv env v t"
proof -
  obtain h m u where s: "s = (h, m, u)" by (cases s)
  show ?thesis using assms(5) unfolding s
    by (rule fwd_step_cases)
       (use assms s in \<open>auto simp: fwd_inv_def ensure_ip_forward_def release_ip_forward_def set_ip_forward_def
          Let_def read_written split: if_splits sum.splits\<close>)
qed

text \<open>(C14) Over any history of sessions, overlapping in any way, the forwarding flag is on while a session
  lives, and has the value it had before the first session whenever none does (reads and writes of
  the flag succeeding).\<close>

theorem forwarding_on_and_restored:
  assumes "fwd_reachable env h0 (h, m, u)"
    and "t_fwd_readable env" and "t_fwd_writable env" and "read_ip_forward env h0 = Inr v"
  shows "read_ip_forward env h = Inr (if m + u = 0 then v else 1)"
proof -
  have v: "v \<le> 1" using assms(4) by (auto simp: read_ip_forward_def split: if_splits option.splits)
  have "fwd_inv env v (h, m, u)"
    using assms(1)
  proof (induction "(h, m, u)" arbitrary: h m u rule: fwd_reachable.induct)
    case start
    then show ?case using assms(4) v by (auto simp: fwd_inv_def)
  next
    case (step s)
    then show ?case using fwd_inv_step [OF assms(2,3) v] by (cases s) blast
  qed
  then show ?thesis using v by (auto simp: fwd_inv_def split: if_splits)
qed

definition sample_tun_env :: tun_env where
  "sample_tun_env = \<lparr>t_open_ok = True, t_ioctl = (\<lambda>_. Some (ascii ''auto0'' @ replicate 11 0)), t_async_ok = True,
     t_cmd_ok = (\<lambda>_. True), t_fwd_readable = True, t_fwd_writable = True\<rparr>"

definition sample_host :: host_state where
  "sample_host = \<lparr>ran = [], open_fds = 0, fwd_refs = 0, fwd_orig = 1, fwd_file = dec 0\<rparr>"

lemma sample_host_off: "read_ip_forward sample_tun_env sample_host = Inr 0"
  by (simp add: read_ip_forward_def sample_tun_env_def sample_host_def parse_uint_dec)

text \<open>One session, open and then closed.\<close>

theorem forwarding_on_and_restored_witness:
  "\<exists>h h'. fwd_reachable sample_tun_env sample_host (h, 1, 0)
     \<and> fwd_reachable sample_tun_env sample_host (h', 0, 0)
     \<and> read_ip_forward sample_tun_env h = Inr 1 \<and> read_ip_forward sample_tun_env h' = Inr 0"
proof -
  have rw: "t_fwd_readable sample_tun_env" "t_fwd_writable sample_tun_env"
    by (simp_all add: sample_tun_env_def)
  obtain h where "ensure_ip_forward sample_tun_env sample_host = (Inr True, h)"
    using sample_host_off rw
    by (auto simp: ensure_ip_forward_def set_ip_forward_def sample_host_def Let_def)
  then have s: "fwd_step sample_tun_env (sample_host, 0, 0) (h, 1, 0)"
    using fwd_step.opens [of sample_tun_env sample_host True h 0 0] by simp
  obtain r h' where "release_ip_forward sample_tun_env h = (r, h')" by fastforce
  then have t: "fwd_step sample_tun_env (h, 1, 0) (h', 0, 0)"
    using fwd_step.closes_managed [of sample_tun_env h r h' 0 0] by simp
  have r1: "fwd_reachable sample_tun_env sample_host (h, 1, 0)"
    by (rule fwd_reachable.step [OF fwd_reachable.start s]) (simp add: sample_host_def)
  note r2 = fwd_reachable.step [OF r1 t]
  from forwarding_on_and_restored [OF r1 rw sample_host_off] r1 r2
    forwarding_on_and_restored [OF r2 rw sample_host_off]
  show ?thesis by auto
qed

text \<open>When the flag was on already, a device does not manage it and its reference is never given back.\<close>

lemma reference_kept:
  assumes "fwd_refs h = 0" and "read_ip_forward env h = Inr 1"
  shows "\<exists>h'. ensure_ip_forward env h = (Inr False, h') \<and> fwd_refs h' = 1"
  using assms by (simp add: ensure_ip_forward_def Let_def)

section \<open>The request to the kernel\<close>

text \<open>The request has the size of a \<open>struct ifreq\<close>, and the kernel reads the hint in it.\<close>

lemma tun_request_layout:
  assumes "length hint < IFNAMSIZ"
  shows "length (ifr_name (tun_request hint)) = IFNAMSIZ"
    and "length (ifr_name (tun_request hint)) + 2 + length (ifr_pad (tun_request hint)) = 40"
    and "0 \<notin> set hint \<Longrightarrow> cstr_to_string (ifr_name (tun_request hint)) = from_utf8_lossy hint"
proof -
  from assms obtain n where n: "IFNAMSIZ - length hint = Suc n" by (metis Suc_diff_Suc)
  have "0 \<notin> set hint \<Longrightarrow> position ((=) 0) (hint @ 0 # replicate n 0) = Some (length hint)"
    by (subst position_append) auto
  then show "0 \<notin> set hint \<Longrightarrow> cstr_to_string (ifr_name (tun_request hint)) = from_utf8_lossy hint"
    by (simp add: tun_request_def cstr_to_string_def n)
qed (use assms in \<open>simp_all add: tun_request_def IFNAMSIZ_def\<close>)

section \<open>A creation that succeeds\<close>

lemma create_succeeds:
  assumes "t_open_ok env" and "t_ioctl env (tun_request hint) = Some bytes" and "t_async_ok env" and "\<And>c. t_cmd_ok env c"
    and "t_fwd_writable env" and "read_ip_forward env h = Inr v" and "length hint < IFNAMSIZ"
    and "is_ipv4 proxy = is_ipv4 client"
  shows "\<exists>dev h'. create env hint proxy client prefix mtu h = (Inr dev, h')"
proof -
  have flag: "\<exists>m h3. ensure_ip_forward env h2 = (Inr m, h3)" if "fwd_file h2 = fwd_file h" for h2
  proof -
    have "read_ip_forward env h2 = Inr v" using assms(6) by (simp only: read_ip_forward_def that)
    then show ?thesis using assms(5) by (auto simp: ensure_ip_forward_def set_ip_forward_def Let_def)
  qed
  have run: "run_cmd env p args h = (Inr (), h\<lparr>ran := ran h @ [(p, args)]\<rparr>)" for p args h
    using assms(4) by (simp add: run_cmd_def)
  have mtu_run: "(case mtu of Some m \<Rightarrow> run_cmd env p (f m) h2 | None \<Rightarrow> (Inr (), h2))
      = (Inr (), h2\<lparr>ran := ran h2 @ (case mtu of Some m \<Rightarrow> [(p, f m)] | None \<Rightarrow> [])\<rparr>)" for p f h2
    by (simp add: run split: option.split)
  have rule: "add_nat_rule env r d h2 f
      = f (d\<lparr>d_nat_rules := d_nat_rules d @ [r]\<rparr>) (h2\<lparr>ran := ran h2 @ [(nat_prog (d_family d), r)]\<rparr>)" for r d h2 f
    by (simp add: add_nat_rule_def run or_drop_def)
  have flag_step: "\<exists>dev h'. or_drop env d (ensure_ip_forward env h2) (\<lambda>m h3. (Inr (f m h3), g m h3)) = (Inr dev, h')"
    if "fwd_file h2 = fwd_file h" for d h2 f g
    using flag [OF that] by (auto simp: or_drop_def)
  show ?thesis
    unfolding create_def Let_def
    using assms(1-3,7,8) by (simp add: run mtu_run or_drop_def [of _ _ "(Inr _, _)"] rule flag_step)
qed

section \<open>Firewall rules\<close>

lemma dec_no_dash: "45 \<notin> set (dec n)"
  using dec_digits by (fastforce simp: is_digit_def between_def)

lemma hex_no_dash: "45 \<notin> set (hex n)"
proof (induction n rule: hex.induct)
  case (1 n)
  have ne: "(45 :: byte) \<noteq> of_nat m" if "45 < m" "m < 256" for m
  proof
    assume "(45 :: byte) = of_nat m"
    then have "unat (45 :: byte) = unat (of_nat m :: byte)" by (rule arg_cong)
    with that show False by (simp add: unat_of_nat)
  qed
  have "(45 :: byte) \<noteq> of_nat (48 + n mod 16)" by (rule ne) auto
  moreover have "(45 :: byte) \<noteq> of_nat (87 + n mod 16)" by (rule ne) auto
  ultimately show ?case using 1 by (subst hex.simps) (auto simp: Let_def)
qed

lemma fmt_no_dash: "45 \<notin> set (fmt_subslice ss)"
  by (induction ss rule: fmt_subslice.induct) (auto simp: hex_no_dash)

lemma display_no_dash: "45 \<notin> set (display_ip ip)"
  by (cases ip) (auto simp: display_ip_def display_ipv4_def display_ipv6_def Let_def dec_no_dash
      fmt_no_dash split: prod.splits)

lemma display_not_option [simp]:
  "display_ip ip \<noteq> ascii ''-A''" "display_ip ip \<noteq> ascii ''-D''"
  using display_no_dash [of ip] by auto

text \<open>
  Every step of \<open>create\<close> after \<open>TUNSETIFF\<close> is a command, a change of the flag, or a rule to remember; an
  error drops the device. So a claim about created and failed devices needs a predicate on devices before
  the forwarding flag is taken, one on devices after it, which the steps keep, and one that the drop
  establishes from either.
\<close>

definition link_args :: "tun_device \<Rightarrow> str list set" where
  "link_args dev = {up_args (d_name dev)} \<union> range (mtu_args (d_name dev))
     \<union> {addr_args f (d_name dev) proxy client prefix | f proxy client prefix. True}"

definition client_rules :: "ipaddr \<Rightarrow> str list list" where
  "client_rules client = [masquerade_rule client, forward_rule ''-s'' client, forward_rule ''-d'' client]"

locale device_steps =
  fixes env :: tun_env
    and fresh :: "tun_device \<Rightarrow> host_state \<Rightarrow> bool"
    and building :: "tun_device \<Rightarrow> host_state \<Rightarrow> bool"
    and gone :: "host_state \<Rightarrow> bool"
  assumes fresh_dropped: "fresh dev h \<Longrightarrow> gone (drop_device env dev h)"
    and dropped: "building dev h \<Longrightarrow> gone (drop_device env dev h)"
    and link_command: "fresh dev h \<Longrightarrow> args \<in> link_args dev \<Longrightarrow> fresh dev (snd (run_cmd env IP_BIN args h))"
    and flag_taken: "fresh dev h \<Longrightarrow> ensure_ip_forward env h = (Inr managed, h') \<Longrightarrow>
      building (dev\<lparr>d_managed_ip_forward := managed\<rparr>) h'"
    and flag_refused: "fresh dev h \<Longrightarrow> ensure_ip_forward env h = (Inl e, h') \<Longrightarrow> gone (drop_device env dev h')"
    and rule_added: "building dev h \<Longrightarrow> r \<in> set (client_rules client) \<Longrightarrow> t_cmd_ok env (nat_prog (d_family dev), r) \<Longrightarrow>
      building (dev\<lparr>d_nat_rules := d_nat_rules dev @ [r]\<rparr>) (snd (run_cmd env (nat_prog (d_family dev)) r h))"
    and rule_refused: "building dev h \<Longrightarrow> r \<in> set (client_rules client) \<Longrightarrow> \<not> t_cmd_ok env (nat_prog (d_family dev), r) \<Longrightarrow>
      building dev (snd (run_cmd env (nat_prog (d_family dev)) r h))"
begin

definition ends_well :: "(string + tun_device) \<times> host_state \<Rightarrow> bool" where
  "ends_well r \<longleftrightarrow> (case r of (Inl _, h) \<Rightarrow> gone h | (Inr dev, h) \<Rightarrow> building dev h)"

lemma or_drop_ends:
  assumes "fresh dev (snd r)" and "\<And>x. fst r = Inr x \<Longrightarrow> ends_well (k x (snd r))"
  shows "ends_well (or_drop env dev r k)"
  using assms fresh_dropped by (cases r) (auto simp: or_drop_def ends_well_def split: sum.split)

lemma add_rule_ends:
  assumes "building dev h" and "r \<in> set (client_rules client)" and "\<And>dev h. building dev h \<Longrightarrow> ends_well (k dev h)"
  shows "ends_well (add_nat_rule env r dev h k)"
proof (cases "t_cmd_ok env (nat_prog (d_family dev), r)")
  case True
  with assms(3) [OF rule_added [OF assms(1,2) True]] show ?thesis
    by (simp add: add_nat_rule_def or_drop_def run_cmd_def)
next
  case False
  with dropped [OF rule_refused [OF assms(1,2) False]] show ?thesis
    by (simp add: add_nat_rule_def or_drop_def run_cmd_def ends_well_def)
qed

lemma nat_steps_end:
  assumes "fresh dev h"
  shows "ends_well (
      or_drop env dev (ensure_ip_forward env h) (\<lambda>managed h.
      add_nat_rule env (masquerade_rule client) (dev\<lparr>d_managed_ip_forward := managed\<rparr>) h (\<lambda>dev h.
      add_nat_rule env (forward_rule ''-s'' client) dev h (\<lambda>dev h.
      add_nat_rule env (forward_rule ''-d'' client) dev h (\<lambda>dev h. (Inr dev, h))))))"
proof -
  have r: "masquerade_rule client \<in> set (client_rules client)" "forward_rule ''-s'' client \<in> set (client_rules client)"
    "forward_rule ''-d'' client \<in> set (client_rules client)" by (simp_all add: client_rules_def)
  show ?thesis
  proof (cases "ensure_ip_forward env h")
    case (Pair a h')
    show ?thesis
    proof (cases a)
      case (Inl e)
      with flag_refused [OF assms] Pair show ?thesis by (simp add: or_drop_def ends_well_def)
    next
      case (Inr managed)
      with Pair flag_taken [OF assms] have b: "building (dev\<lparr>d_managed_ip_forward := managed\<rparr>) h'" by simp
      show ?thesis
        unfolding Pair Inr or_drop_def [of _ _ "(Inr _, _)"] prod.case sum.case
        by (rule add_rule_ends [OF b r(1)], rule add_rule_ends [OF _ r(2)], assumption,
            rule add_rule_ends [OF _ r(3)], assumption, simp add: ends_well_def)
    qed
  qed
qed

lemma link_steps_end:
  assumes "fresh dev start"
  shows "ends_well (
      or_drop env dev (run_cmd env IP_BIN (up_args (d_name dev)) start) (\<lambda>_ h.
      or_drop env dev
        (case mtu of Some m \<Rightarrow> run_cmd env IP_BIN (mtu_args (d_name dev) m) h | None \<Rightarrow> (Inr (), h)) (\<lambda>_ h.
      or_drop env dev (run_cmd env IP_BIN (addr_args family (d_name dev) proxy client prefix) h) (\<lambda>_ h.
      or_drop env dev (ensure_ip_forward env h) (\<lambda>managed h.
      add_nat_rule env (masquerade_rule client) (dev\<lparr>d_managed_ip_forward := managed\<rparr>) h (\<lambda>dev h.
      add_nat_rule env (forward_rule ''-s'' client) dev h (\<lambda>dev h.
      add_nat_rule env (forward_rule ''-d'' client) dev h (\<lambda>dev h. (Inr dev, h)))))))))"
proof -
  have args: "up_args (d_name dev) \<in> link_args dev" "mtu_args (d_name dev) m \<in> link_args dev"
    "addr_args family (d_name dev) proxy client prefix \<in> link_args dev" for m
    unfolding link_args_def by blast+
  note up = link_command [OF assms args(1)]
  have mtu: "fresh dev (snd (case mtu of Some m \<Rightarrow> run_cmd env IP_BIN (mtu_args (d_name dev) m) h
      | None \<Rightarrow> (Inr (), h)))" if "fresh dev h" for h
    using link_command [OF that args(2)] that by (auto split: option.split)
  note addr = link_command [OF mtu [OF up] args(3)]
  show ?thesis
    by (rule or_drop_ends [OF up], rule or_drop_ends [OF mtu [OF up]], rule or_drop_ends [OF addr],
        rule nat_steps_end [OF addr])
qed

text \<open>A creation ends with a device whose construction is complete, or with the device gone. Before
  \<open>TUNSETIFF\<close> nothing has happened.\<close>

lemma create_ends:
  assumes "gone h"
    and "\<And>bytes. t_ioctl env (tun_request hint) = Some bytes \<Longrightarrow>
      fresh \<lparr>d_name = cstr_to_string bytes, d_family = if is_ipv4 proxy then Family4 else Family6,
        d_nat_rules = [], d_managed_ip_forward = False\<rparr> (h\<lparr>open_fds := open_fds h + 1\<rparr>)"
  shows "ends_well (create env hint proxy client prefix mtu h)"
proof (cases "is_ipv4 proxy \<noteq> is_ipv4 client \<or> \<not> t_open_ok env \<or> length hint \<ge> IFNAMSIZ
    \<or> t_ioctl env (tun_request hint) = None \<or> \<not> t_async_ok env")
  case True
  with assms(1) show ?thesis by (auto simp: create_def ends_well_def Let_def split: option.split)
next
  case False
  then obtain bytes where b: "t_ioctl env (tun_request hint) = Some bytes" by auto
  define family where "family = (if is_ipv4 proxy then Family4 else Family6)"
  define start where "start = h\<lparr>open_fds := open_fds h + 1\<rparr>"
  define dev where "dev = \<lparr>d_name = cstr_to_string bytes, d_family = family, d_nat_rules = [],
    d_managed_ip_forward = False\<rparr>"
  have "fresh dev start" using assms(2) [OF b] by (simp add: dev_def family_def start_def)
  note steps = link_steps_end [OF this]
  have c: "(is_ipv4 proxy \<noteq> is_ipv4 client) = False" "(\<not> t_open_ok env) = False"
    "(length hint \<ge> IFNAMSIZ) = False" "(\<not> t_async_ok env) = False"
    using False by simp_all
  show ?thesis
    unfolding create_def Let_def c if_False b option.case family_def [symmetric] start_def [symmetric]
      dev_def [symmetric]
    by (rule steps)
qed

end

section \<open>The commands of a device that is dropped\<close>

definition new_commands :: "host_state \<Rightarrow> host_state \<Rightarrow> command list" where
  "new_commands h h' = drop (length (ran h)) (ran h')"

lemma flag_keeps [simp]:
  "ran (snd (ensure_ip_forward env h)) = ran h" "open_fds (snd (ensure_ip_forward env h)) = open_fds h"
  "ran (snd (release_ip_forward env h)) = ran h" "open_fds (snd (release_ip_forward env h)) = open_fds h"
  by (auto simp: ensure_ip_forward_def release_ip_forward_def set_ip_forward_def Let_def
      split: sum.split)

lemma remove_rules_ran:
  "ran (remove_rules env p rules h) = ran h @ map (\<lambda>r. (p, undo_rule r)) rules"
  "open_fds (remove_rules env p rules h) = open_fds h"
  by (induction rules arbitrary: h) (simp_all add: run_cmd_def)

lemma drop_device_ran:
  "ran (drop_device env dev h) = ran h
     @ map (\<lambda>r. (nat_prog (d_family dev), undo_rule r)) (d_nat_rules dev)
     @ [(IP_BIN, [ascii ''link'', ascii ''del'', d_name dev])]"
  "open_fds (drop_device env dev h) = open_fds h - 1"
  by (simp_all add: drop_device_def Let_def remove_rules_ran run_cmd_def)

text \<open>Removals of firewall rules succeed.\<close>

definition undo_succeeds :: "tun_env \<Rightarrow> bool" where
  "undo_succeeds env \<longleftrightarrow> (\<forall>c. ascii ''-D'' \<in> set (snd c) \<longrightarrow> t_cmd_ok env c)"

lemma undo_facts:
  "ascii ''-A'' \<notin> set (undo_rule r)" "ascii ''-A'' \<in> set r \<Longrightarrow> ascii ''-D'' \<in> set (undo_rule r)"
  by (auto simp: undo_rule_def image_iff simp del: ascii_simps) (simp_all)

lemma rules_added:
  "ascii ''-A'' \<in> set (masquerade_rule c)" "ascii ''-D'' \<notin> set (masquerade_rule c)"
  "ascii ''-A'' \<in> set (forward_rule d c)"
  "d = ''-s'' \<or> d = ''-d'' \<Longrightarrow> ascii ''-D'' \<notin> set (forward_rule d c)"
  using display_not_option [of c] by (auto simp: masquerade_rule_def forward_rule_def)

end
