(* ===== verification/MasqueIpProps.thy ===== *)
theory MasqueIpProps
  imports MasqueIp TunProps
begin

text \<open>
  Properties of the CONNECT-IP tunnel of \<open>MasqueIp\<close>.
\<close>

section \<open>The capsule reader does not depend on the chunks\<close>

lemma drain_None:
  "split_capsule b = None \<Longrightarrow> drain_capsules send_ok client prefix n b = ([], True, b)"
  by (simp add: drain_capsules.simps)

lemma drain_Some:
  assumes "split_capsule a = Some (t, v, u)"
  shows "drain_capsules send_ok client prefix n a =
    (case capsule_action client prefix t v of
       Abort \<Rightarrow> ([], False, drop u a)
     | Ignore \<Rightarrow> drain_capsules send_ok client prefix n (drop u a)
     | Reply r \<Rightarrow>
         if send_ok n then
           (let (rs, go_on, rest) = drain_capsules send_ok client prefix (Suc n) (drop u a) in (r # rs, go_on, rest))
         else ([], False, drop u a))"
  using assms by (subst drain_capsules.simps) simp

lemma drain_append:
  "drain_capsules send_ok client prefix n (a @ b) =
     (case drain_capsules send_ok client prefix n a of
        (rs, False, rest) \<Rightarrow> (rs, False, rest @ b)
      | (rs, True, rest) \<Rightarrow>
          (case drain_capsules send_ok client prefix (n + length rs) (rest @ b) of
             (rs', go_on, rest') \<Rightarrow> (rs @ rs', go_on, rest')))"
proof (induction send_ok client prefix n a rule: drain_capsules.induct)
  case (1 send_ok client prefix n a)
  show ?case
  proof (cases "split_capsule a" rule: option_triple_cases)
    case None
    then show ?thesis by (simp add: drain_None split: prod.split)
  next
    case (Some t v u)
    note ih = 1 [OF Some refl refl]
    have "drop u (a @ b) = drop u a @ b" using split_capsule_consumed [OF Some] by simp
    then show ?thesis
      unfolding drain_Some [OF Some] drain_Some [OF split_capsule_more [OF Some]]
      using ih by (auto simp: Let_def split: capsule_action.splits prod.splits bool.splits)
  qed
qed

lemma drain_rest:
  "drain_capsules send_ok client prefix n a = (rs, go_on, rest) \<Longrightarrow>
   length rest \<le> length a \<and> (go_on \<longrightarrow> split_capsule rest = None)"
proof (induction send_ok client prefix n a arbitrary: rs go_on rest rule: drain_capsules.induct)
  case (1 send_ok client prefix n a)
  show ?case
  proof (cases "split_capsule a" rule: option_triple_cases)
    case None
    with 1(3) show ?thesis by (simp add: drain_None)
  next
    case (Some t v u)
    note ih = 1(1,2) [OF Some refl refl]
    from 1(3) show ?thesis
      unfolding drain_Some [OF Some]
      by (auto simp: Let_def split: capsule_action.splits prod.splits if_splits dest!: ih)
  qed
qed

lemma reader_eq_drain:
  assumes "length (pending @ concat ds) \<le> PENDING_LIMIT" and "split_capsule pending = None"
  shows "capsule_reader send_ok client prefix n pending (map (\<lambda>d. Chunk d True) ds)
    = (case drain_capsules send_ok client prefix n (pending @ concat ds) of
         (rs, go_on, _) \<Rightarrow> (rs, \<not> go_on))"
  using assms
proof (induction ds arbitrary: pending n)
  case Nil
  then show ?case by (simp add: drain_None)
next
  case (Cons d ds)
  have l: "\<not> length (pending @ d) > PENDING_LIMIT" using Cons.prems(1) by simp
  obtain rs go_on rest where d: "drain_capsules send_ok client prefix n (pending @ d) = (rs, go_on, rest)"
    by (cases rule: prod_cases3)
  show ?case
  proof (cases go_on)
    case False
    then show ?thesis using l d drain_append [of send_ok client prefix n "pending @ d" "concat ds"]
      by (simp add: Let_def)
  next
    case True
    have "length (rest @ concat ds) \<le> PENDING_LIMIT"
      using drain_rest [OF d] Cons.prems(1) by simp
    moreover have "split_capsule rest = None" using drain_rest [OF d] True by simp
    ultimately show ?thesis
      using Cons.IH [of rest "n + length rs"] True l d
        drain_append [of send_ok client prefix n "pending @ d" "concat ds"]
      by (simp add: Let_def split: prod.splits)
  qed
qed

text \<open>(C24) How the client's signalling bytes are cut into chunks makes no difference: as long as they stay
  below the limit of the buffer, the reader sends the replies, and ends or goes on, as if they had come
  at once.\<close>

theorem capsule_reader_chunking:
  assumes "length (concat ds) \<le> PENDING_LIMIT"
  shows "capsule_reader send_ok client prefix 0 [] (map (\<lambda>d. Chunk d True) ds)
    = capsule_reader send_ok client prefix 0 [] [Chunk (concat ds) True]"
proof -
  have n: "split_capsule [] = None" by (simp add: split_capsule_def get_varint_def)
  show ?thesis
    using reader_eq_drain [of "[]" ds send_ok client prefix 0] assms n
      reader_eq_drain [of "[]" "[concat ds]" send_ok client prefix 0]
    by simp
qed

section \<open>Address requests\<close>

lemma varint_length: "1 \<le> length (put_varint [] v) \<and> length (put_varint [] v) \<le> 8"
  by (simp add: put_varint_def)

lemma address_value_length:
  "length es \<le> length (encode_address_value es) \<and> length (encode_address_value es) \<le> 26 * length es"
proof (induction es)
  case (Cons e es)
  then show ?case using varint_length [of "request_id e"] by (cases "address e") auto
qed simp

lemma capsule_length: "length value \<le> length (encode_capsule typ value)"
  by (simp add: encode_capsule_alt)

text \<open>(C25) A client's ADDRESS_REQUEST is answered by one ADDRESS_ASSIGN that the client can decode: for
  each requested entry, in order, its own Request ID with the session's address and prefix. The
  reader goes on.\<close>

theorem address_request_answered:
  assumes "entries \<noteq> []" and "list_all valid_assigned entries"
    and "length (encode_address_request entries) \<le> PENDING_LIMIT" and "send_ok 0"
    and "valid_assigned (assigned client prefix (hd entries))"
  shows "\<exists>reply. capsule_reader send_ok client prefix 0 [] [Chunk (encode_address_request entries) True]
      = ([reply], False)
    \<and> decode_address_assign reply = Some (map (assigned client prefix) entries)"
proof -
  let ?v = "encode_address_value entries"
  have v: "length ?v \<le> PENDING_LIMIT"
    using assms(3) capsule_length [of ?v CAPSULE_ADDRESS_REQUEST] by (simp add: encode_address_request_def)
  then have n: "length entries \<le> PENDING_LIMIT" using address_value_length [of entries] by linarith
  have small: "unat CAPSULE_ADDRESS_REQUEST < 2 ^ 62" "unat CAPSULE_ADDRESS_ASSIGN < 2 ^ 62"
    "length ?v < 2 ^ 62" "length (encode_address_value (map (assigned client prefix) entries)) < 2 ^ 62"
    using v n address_value_length [of "map (assigned client prefix) entries"]
    by (simp_all add: capsule_type_defs PENDING_LIMIT_def)
  have split: "split_capsule (encode_address_request entries)
      = Some (CAPSULE_ADDRESS_REQUEST, ?v, length (encode_address_request entries))"
    using split_encode_capsule [OF small(1,3), of "[]"] by (simp add: encode_address_request_def)
  have dec: "decode_address_value ?v = Some entries"
    using assms(2) addresses.decode_encode_iff [of entries] by (simp add: decode_address_value_def)
  have "list_all valid_assigned (map (assigned client prefix) entries)"
    using assms(2,5) by (cases client) (auto simp: list_all_iff valid_assigned_def assigned_def)
  then have decoded: "decode_address_assign (encode_address_assign (map (assigned client prefix) entries))
      = Some (map (assigned client prefix) entries)"
    using decode_encode_capsule [OF small(2,4)] addresses.decode_encode_iff [of "map (assigned client prefix) entries"]
    by (simp add: decode_address_assign_def encode_address_assign_def decode_address_value_def)
  have empty: "split_capsule [] = None" by (simp add: split_capsule_def get_varint_def)
  have "drain_capsules send_ok client prefix 0 (encode_address_request entries)
      = ([encode_address_assign (map (assigned client prefix) entries)], True, [])"
    by (simp add: drain_Some [OF split] capsule_action_def dec assms(1,4) drain_None [OF empty])
  then show ?thesis using assms(3) decoded by simp
qed

theorem address_request_answered_witness:
  "\<exists>reply. capsule_reader (\<lambda>_. True) (V4 0xC6120002) 30 0 []
      [Chunk (encode_address_request [\<lparr>request_id = 7, address = V4 0, prefix_len = 32\<rparr>]) True] = ([reply], False)
    \<and> decode_address_assign reply = Some [\<lparr>request_id = 7, address = V4 0xC6120002, prefix_len = 30\<rparr>]"
proof -
  let ?es = "[\<lparr>request_id = 7, address = V4 0, prefix_len = 32\<rparr>]"
  have "length (encode_address_request ?es) \<le> PENDING_LIMIT"
    by (simp add: encode_address_request_def encode_capsule_alt put_varint_def PENDING_LIMIT_def
        capsule_type_defs)
  then show ?thesis
    using address_request_answered [of ?es "\<lambda>_. True" "V4 0xC6120002" 30]
    by (simp add: valid_assigned_def assigned_def)
qed

theorem capsule_reader_chunking_witness:
  "capsule_reader (\<lambda>_. True) (V4 1) 30 0 [] (map (\<lambda>d. Chunk d True) [[2], [0]])
    = capsule_reader (\<lambda>_. True) (V4 1) 30 0 [] [Chunk (concat [[2], [0]]) True]"
  by (rule capsule_reader_chunking) (simp add: PENDING_LIMIT_def)

section \<open>Sessions\<close>

text \<open>The address filter of the configuration has no effect on CONNECT-IP: a session behaves the same
  with it on or off, so the packets of its client reach special-purpose addresses either way.\<close>

theorem ip_session_ignores_filter:
  "handle_ip_stream l env (config\<lparr>no_loopback := b, acl_no_rfc6890 := c\<rparr>) req w
    = handle_ip_stream l env config req w"
  by (simp add: handle_ip_stream_def)

text \<open>Sessions one after the other or overlapping: the pool only sees their admissions, in order.\<close>

type_synonym session_args = "libs \<times> ip_env \<times> app_config \<times> request"

definition admitted :: "session_args \<Rightarrow> bool" where
  "admitted a = (case a of (l, env, config, req) \<Rightarrow> validate_connect_ip l req (auth_token config) = Inr ())"

fun serve :: "session_args list \<Rightarrow> ip_world \<Rightarrow> ip_world" where
  "serve [] w = w"
| "serve ((l, env, config, req) # as) w = serve as (snd (handle_ip_stream l env config req w))"

lemma session_pool:
  "pool (snd (handle_ip_stream l env config req w))
    = (if admitted (l, env, config, req) then snd (allocate (pool w)) else pool w)"
  by (auto simp: handle_ip_stream_def admitted_def split: sum.split prod.split)

lemma after_allocations_Suc:
  "after_allocations (Suc k) p = after_allocations k (snd (allocate p))"
  by (induction k) simp_all

lemma serve_pool: "pool (serve as w) = after_allocations (length (filter admitted as)) (pool w)"
proof (induction as w rule: serve.induct)
  case (2 l env config req as w)
  then show ?case
    by (simp add: session_pool after_allocations_Suc del: after_allocations.simps(2))
qed simp

lemma ip_loop_no_stream_data: "StreamData bs \<notin> set (ip_loop ins)"
  by (induction ins rule: ip_loop.induct) (auto simp: Let_def split: option.split)

definition sample_ip_request :: request where
  "sample_ip_request = \<lparr>rq_method = ascii ''CONNECT'', rq_protocol = Some (Other (ascii ''connect-ip'')),
     rq_path = ascii ''/.well-known/masque/ip/'', rq_authority = Some (ascii ''p''),
     rq_headers = [(ascii ''capsule-protocol'', ascii ''?1''),
                   (ascii ''proxy-authorization'', ascii ''Bearer s3'')]\<rparr>"

definition sample_ip_env :: ip_env where
  "sample_ip_env = \<lparr>i_respond_ok = (\<lambda>_. True), i_limit = Some 1300, i_tun = sample_tun_env,
     i_assign_ok = True, i_route_ok = True, i_chunks = [], i_sig_send_ok = (\<lambda>_. True),
     i_inputs = [Teardown]\<rparr>"

definition sample_ip_config :: app_config where
  "sample_ip_config = default_config\<lparr>auth_token := Some (ascii ''s3'')\<rparr>"

lemma sample_admitted: "admitted (plain_libs, sample_ip_env, sample_ip_config, sample_ip_request)"
  by (simp add: admitted_def validate_connect_ip_def is_connect_def is_connect_ip_path_def starts_with_def
      header_def check_proxy_auth_def sample_ip_request_def sample_ip_config_def plain_libs_def trim_def
      trim_start.simps trim_end.simps ws_suffix_len_def between_def Let_def)

text \<open>When the client ends its signalling stream, or it breaks, the reader ends, and the stream is finished.\<close>

lemma reader_ends:
  "End \<in> set cs \<or> Broken \<in> set cs \<Longrightarrow> snd (capsule_reader send_ok client prefix n pending cs)"
  by (induction send_ok client prefix n pending cs rule: capsule_reader.induct)
     (auto simp: Let_def split: prod.split bool.split)

lemma stream_finished:
  assumes "i_respond_ok env OK" and "End \<in> set (i_chunks env) \<or> Broken \<in> set (i_chunks env)"
  shows "Finish \<in> set (main_events (fst (ip_tunnel env client prefix)))
    \<or> Finish \<in> set (capsule_events (fst (ip_tunnel env client prefix)))"
  using assms(1) reader_ends [OF assms(2)] by (simp add: ip_tunnel_def reader_events_def Let_def)

text \<open>The packet loop also ends when the device cannot be read or a datagram cannot be sent. The request
  stream belongs to the capsule reader and is not finished then: the reader goes on answering
  ADDRESS_REQUEST with an address whose device is gone, until the client ends the stream.\<close>

lemma dead_tunnel_still_answers:
  assumes "i_respond_ok env OK" and "i_assign_ok env" and "i_route_ok env"
    and "i_inputs env = TunRead None limit ok # ins"
  shows "Finish \<notin> set (main_events (fst (ip_tunnel env client prefix)))
    \<and> capsule_events (fst (ip_tunnel env client prefix))
        = reader_events (capsule_reader (i_sig_send_ok env) client prefix 0 [] (i_chunks env))"
  using assms by (simp add: ip_tunnel_def Let_def)

end
