(* ===== verification/MasqueEndToEnd.thy ===== *)
theory MasqueEndToEnd
  imports MasqueConnection MasqueSessions MasqueIpProps
begin

text \<open>
  A connection of \<open>MasqueConnection\<close> together with one of its datagram tunnels: \<open>handle_connection\<close> and
  \<open>handle_stream\<close> (or \<open>handle_ip_stream\<close>) of \<open>src/masque.rs\<close> as they run side by side, joined by the
  unbounded channel from the datagram reader to the tunnel. The other tunnels of the connection are
  part of the connection's own steps. The locale \<open>datagram_tunnel\<close> states what a tunnel's loop promises;
  what follows for the composition is proved once and holds for both kinds of tunnel.
\<close>

section \<open>The composition\<close>

text \<open>
  A tunnel kind: the input that \<open>rx.recv()\<close> gives to its loop, the datagram an input stands for, and
  after which inputs the loop goes on.
\<close>

record 'i tunnel_kind =
  recv_input :: "byte list option \<Rightarrow> 'i"
  received :: "'i \<Rightarrow> byte list option"
  proceeds :: "'i \<Rightarrow> bool"

definition taken :: "'i tunnel_kind \<Rightarrow> 'i list \<Rightarrow> byte list list" where
  "taken k ins = List.map_filter (received k) ins"

text \<open>What \<open>rx.recv()\<close> has for a tunnel that has taken \<open>ins\<close>: the next datagram handed to it; the end
  of the channel, once everything is taken and the entry that held the sender has left the table;
  otherwise nothing yet.\<close>

definition next_recv :: "'i tunnel_kind \<Rightarrow> nat \<Rightarrow> conn \<Rightarrow> 'i list \<Rightarrow> 'i option" where
  "next_recv k sid c ins =
     (if length (taken k ins) < length (inbox c sid)
      then Some (recv_input k (Some (inbox c sid ! length (taken k ins))))
      else if sid \<notin> routes c then Some (recv_input k None)
      else None)"

definition running :: "'i tunnel_kind \<Rightarrow> 'i list \<Rightarrow> bool" where
  "running k ins = list_all (proceeds k) ins"

text \<open>
  Runs of the connection and the tunnel of stream \<open>sid\<close>: the labels of the connection, its state, and
  the inputs that the tunnel's loop has taken. Inputs other than the client's may come at any time.
  The receiver is dropped when the handler returns, after its loop or before it.
\<close>

inductive tunnel_run :: "'i tunnel_kind \<Rightarrow> nat \<Rightarrow> conn_label list \<Rightarrow> conn \<Rightarrow> 'i list \<Rightarrow> bool"
  for k sid where
  init: "tunnel_run k sid [] conn_init []"
| connection: "tunnel_run k sid ls c ins \<Longrightarrow> conn_step c l = Some c' \<Longrightarrow> l \<noteq> ReceiverDropped sid \<Longrightarrow>
    tunnel_run k sid (ls @ [l]) c' ins"
| recv: "tunnel_run k sid ls c ins \<Longrightarrow> sid \<in> live c \<Longrightarrow> running k ins \<Longrightarrow> next_recv k sid c ins = Some i \<Longrightarrow>
    tunnel_run k sid ls c (ins @ [i])"
| other: "tunnel_run k sid ls c ins \<Longrightarrow> sid \<in> live c \<Longrightarrow> running k ins \<Longrightarrow>
    received k i = None \<Longrightarrow> i \<noteq> recv_input k None \<Longrightarrow> tunnel_run k sid ls c (ins @ [i])"
| returns: "tunnel_run k sid ls c ins \<Longrightarrow> conn_step c (ReceiverDropped sid) = Some c' \<Longrightarrow>
    ins = [] \<or> \<not> running k ins \<Longrightarrow> tunnel_run k sid (ls @ [ReceiverDropped sid]) c' ins"

text \<open>The tunnel taking up to \<open>n\<close> inputs from the channel, nothing else happening.\<close>

fun receives :: "'i tunnel_kind \<Rightarrow> nat \<Rightarrow> conn \<Rightarrow> nat \<Rightarrow> 'i list \<Rightarrow> 'i list" where
  "receives k sid c 0 ins = ins"
| "receives k sid c (Suc n) ins =
     (if running k ins
      then (case next_recv k sid c ins of Some i \<Rightarrow> receives k sid c n (ins @ [i]) | None \<Rightarrow> ins)
      else ins)"

lemma taken_simps [simp]:
  "taken k [] = []"
  "taken k (ins @ js) = taken k ins @ taken k js"
  "taken k [i] = (case received k i of None \<Rightarrow> [] | Some d \<Rightarrow> [d])"
  by (simp_all add: taken_def List.map_filter_def split: option.split)

lemma running_simps [simp]:
  "running k []"
  "running k (ins @ js) = (running k ins \<and> running k js)"
  "running k [i] = proceeds k i"
  by (simp_all add: running_def)

lemma tunnel_run_conn: "tunnel_run k sid ls c ins \<Longrightarrow> conn_run ls c"
  by (induction rule: tunnel_run.induct) (auto intro: conn_run.intros)

lemma prefix_full: "prefix xs ys \<Longrightarrow> length ys \<le> length xs \<Longrightarrow> xs = ys"
  by (auto simp: prefix_def)

lemma inbox_grows: "conn_step c l = Some c' \<Longrightarrow> prefix (inbox c sid) (inbox c' sid)"
  by (cases l) (auto split: if_splits arm.splits)

section \<open>The contract of a tunnel's loop\<close>

locale datagram_tunnel =
  fixes k :: "'i tunnel_kind"
    and loop :: "'i list \<Rightarrow> mevent list"
    and sends :: "'i \<Rightarrow> mevent list"
    and payload :: "mevent \<Rightarrow> byte list option"
  assumes loop_Nil: "loop [] = []"
    and loop_Cons: "loop (i # ins) = sends i @ (if proceeds k i then loop ins else [])"
    and received_client: "received k (recv_input k m) = m"
    and received_input: "received k i = Some d \<Longrightarrow> i = recv_input k (Some d)"
    and client_proceeds: "proceeds k (recv_input k m) = (m \<noteq> None)"
    and client_sends: "List.map_filter payload (sends i) =
       (case received k i of None \<Rightarrow> []
        | Some d \<Rightarrow> (case strip_context_id d of None \<Rightarrow> [] | Some p \<Rightarrow> [p]))"
begin

lemma loop_payloads:
  "running k (butlast ins) \<Longrightarrow>
   List.map_filter payload (loop ins) = List.map_filter strip_context_id (taken k ins)"
proof (induction ins)
  case (Cons i ins)
  have one: "List.map_filter strip_context_id (taken k [i]) = List.map_filter payload (sends i)"
    by (simp add: client_sends List.map_filter_simps split: option.split)
  have app: "List.map_filter f (xs @ ys) = List.map_filter f xs @ List.map_filter f ys" for f :: "'x \<Rightarrow> 'y option" and xs ys
    by (simp add: List.map_filter_def)
  show ?case
  proof (cases "ins = []")
    case True
    then show ?thesis using one by (simp add: loop_Cons loop_Nil del: taken_simps(3))
  next
    case False
    with Cons.prems have "proceeds k i" "running k (butlast ins)"
      using running_simps(2) [of k "[i]" "butlast ins"] by simp_all
    then have "List.map_filter payload (loop (i # ins))
        = List.map_filter strip_context_id (taken k [i]) @ List.map_filter strip_context_id (taken k ins)"
      by (simp only: loop_Cons if_True app Cons.IH one)
    also have "\<dots> = List.map_filter strip_context_id (taken k ([i] @ ins))"
      by (simp only: app taken_simps(2))
    finally show ?thesis by simp
  qed
qed (simp add: loop_Nil)

lemma run_inv:
  "tunnel_run k sid ls c ins \<Longrightarrow>
   prefix (taken k ins) (inbox c sid) \<and> running k (butlast ins)"
proof (induction rule: tunnel_run.induct)
  case (connection ls c ins l c')
  then show ?case using inbox_grows prefix_order.trans by blast
next
  case (recv ls c ins i)
  then show ?case
    by (auto simp: next_recv_def received_client append_one_prefix split: if_splits)
next
  case (returns ls c ins c')
  then show ?case using inbox_grows prefix_order.trans by blast
qed auto

text \<open>What the tunnel has passed on is a prefix of what the client has sent it, and all of it when it
  has its route and has emptied its channel.\<close>

lemma uplink:
  assumes "tunnel_run k sid ls c ins"
  shows "prefix (List.map_filter payload (loop ins))
      (List.map_filter strip_context_id (deliverable sid False ls))
    \<and> (sid \<in> live c \<and> running k ins \<and> next_recv k sid c ins = None
        \<longrightarrow> List.map_filter payload (loop ins)
              = List.map_filter strip_context_id (deliverable sid False ls))"
proof -
  from run_inv [OF assms] have p: "prefix (taken k ins) (inbox c sid)" and r: "running k (butlast ins)" by auto
  have i: "stream_inv sid ls c" by (rule stream_inv_run [OF tunnel_run_conn [OF assms]])
  have mono: "prefix (List.map_filter strip_context_id xs) (List.map_filter strip_context_id ys)"
    if "prefix xs ys" for xs ys
    using that by (auto simp: prefix_def List.map_filter_def)
  have "prefix (taken k ins) (deliverable sid False ls)"
    using p i prefix_order.trans by (auto simp: stream_inv_def)
  moreover have "taken k ins = deliverable sid False ls"
    if "sid \<in> live c" "next_recv k sid c ins = None"
  proof -
    from that(2) have "length (inbox c sid) \<le> length (taken k ins)" "sid \<in> routes c"
      by (auto simp: next_recv_def split: if_splits)
    with p have "taken k ins = inbox c sid" by (intro prefix_full) simp_all
    with i \<open>sid \<in> routes c\<close> that(1) show ?thesis by (auto simp: stream_inv_def)
  qed
  ultimately show ?thesis unfolding loop_payloads [OF r] using mono by auto
qed

lemma receives_run:
  "tunnel_run k sid ls c ins \<Longrightarrow> sid \<in> live c \<Longrightarrow> tunnel_run k sid ls c (receives k sid c n ins)"
proof (induction n arbitrary: ins)
  case (Suc n)
  then show ?case by (auto split: option.split intro: tunnel_run.recv)
qed simp

text \<open>A tunnel whose route is gone passes on what it still has and ends, by receiving alone.\<close>

lemma drains:
  assumes "running k ins" and "prefix (taken k ins) (inbox c sid)" and "sid \<notin> routes c"
    and "length (inbox c sid) - length (taken k ins) < n"
  shows "\<not> running k (receives k sid c n ins) \<and> taken k (receives k sid c n ins) = inbox c sid"
  using assms
proof (induction n arbitrary: ins)
  case (Suc n)
  show ?case
  proof (cases "length (taken k ins) < length (inbox c sid)")
    case True
    let ?i = "recv_input k (Some (inbox c sid ! length (taken k ins)))"
    have "next_recv k sid c ins = Some ?i" using True by (simp add: next_recv_def)
    moreover have "running k (ins @ [?i])" using Suc.prems(1) by (simp add: client_proceeds)
    moreover have "prefix (taken k (ins @ [?i])) (inbox c sid)"
      using Suc.prems(2) True by (simp add: received_client append_one_prefix)
    moreover have "length (inbox c sid) - length (taken k (ins @ [?i])) < n"
      using Suc.prems(4) True by (simp add: received_client)
    ultimately show ?thesis using Suc.IH [of "ins @ [?i]"] Suc.prems(1,3) by simp
  next
    case False
    then have "next_recv k sid c ins = Some (recv_input k None)" using Suc.prems(3) by (simp add: next_recv_def)
    moreover have "taken k ins = inbox c sid"
      using False Suc.prems(2) by (intro prefix_full) simp_all
    ultimately show ?thesis
      using Suc.prems(1) by (cases n) (auto simp: received_client client_proceeds)
  qed
qed simp

lemma teardown:
  assumes "tunnel_run k sid ls c ins" and "AcceptDone \<in> set ls" and "sid \<in> live c" and "running k ins"
    and "out = receives k sid c (Suc (length (inbox c sid))) ins"
  shows "tunnel_run k sid ls c out \<and> \<not> running k out
    \<and> List.map_filter payload (loop out) = List.map_filter strip_context_id (inbox c sid)"
proof -
  have "sid \<notin> routes c" using no_accept_after_done [OF tunnel_run_conn [OF assms(1)] assms(2)] by simp
  with drains [OF assms(4) _ this, of "Suc (length (inbox c sid))"] run_inv [OF assms(1)]
  have d: "\<not> running k out" "taken k out = inbox c sid" by (auto simp: assms(5))
  have r: "tunnel_run k sid ls c out" unfolding assms(5) by (rule receives_run [OF assms(1,3)])
  from loop_payloads [of out] run_inv [OF r] d show ?thesis using r by simp
qed

end

section \<open>CONNECT-UDP and CONNECT-IP keep the contract\<close>

fun received_udp :: "udp_input \<Rightarrow> byte list option" where
  "received_udp (FromClient d) = d"
| "received_udp (FromTarget _ _ _) = None"

definition udp_kind :: "udp_input tunnel_kind" where
  "udp_kind = \<lparr>recv_input = FromClient, received = received_udp, proceeds = goes_on\<rparr>"

fun udp_sends :: "udp_input \<Rightarrow> mevent list" where
  "udp_sends (FromTarget None _ _) = [Finish]"
| "udp_sends (FromTarget (Some d) limit ok) =
     (let dgram = 0 # take UDP_PACKET_MAX_LEN d in
      if too_big limit dgram then [] else if ok then [Datagram dgram] else [Finish])"
| "udp_sends (FromClient None) = [Finish]"
| "udp_sends (FromClient (Some d)) =
     (case strip_context_id d of Some p \<Rightarrow> [UdpSend p] | None \<Rightarrow> [])"

fun udp_payload :: "mevent \<Rightarrow> byte list option" where
  "udp_payload (UdpSend p) = Some p"
| "udp_payload _ = None"

interpretation udp: datagram_tunnel udp_kind udp_loop udp_sends udp_payload
proof unfold_locales
  show "udp_loop [] = []" by simp
  show "udp_loop (i # ins) = udp_sends i @ (if proceeds udp_kind i then udp_loop ins else [])" for i ins
    by (cases i rule: udp_sends.cases) (auto simp: udp_kind_def Let_def split: option.split)
  show "received udp_kind (recv_input udp_kind m) = m" for m by (simp add: udp_kind_def)
  show "i = recv_input udp_kind (Some d)" if "received udp_kind i = Some d" for i d
    using that by (cases i) (simp_all add: udp_kind_def)
  show "proceeds udp_kind (recv_input udp_kind m) = (m \<noteq> None)" for m
    by (cases m) (simp_all add: udp_kind_def)
  show "List.map_filter udp_payload (udp_sends i) = (case received udp_kind i of None \<Rightarrow> []
      | Some d \<Rightarrow> (case strip_context_id d of None \<Rightarrow> [] | Some p \<Rightarrow> [p]))" for i
    by (cases i rule: udp_sends.cases)
       (auto simp: udp_kind_def Let_def List.map_filter_simps split: option.split)
qed

fun received_ip :: "ip_input \<Rightarrow> byte list option" where
  "received_ip (ClientPacket d) = d"
| "received_ip _ = None"

fun ip_goes_on :: "ip_input \<Rightarrow> bool" where
  "ip_goes_on (TunRead None _ _) = False"
| "ip_goes_on (TunRead (Some packet) limit ok) =
     (take 65535 packet = [] \<or> too_big limit (0 # take 65535 packet) \<or> ok)"
| "ip_goes_on (ClientPacket d) = (d \<noteq> None)"
| "ip_goes_on Teardown = False"

definition ip_kind :: "ip_input tunnel_kind" where
  "ip_kind = \<lparr>recv_input = ClientPacket, received = received_ip, proceeds = ip_goes_on\<rparr>"

fun ip_sends :: "ip_input \<Rightarrow> mevent list" where
  "ip_sends (TunRead (Some packet) limit ok) =
     (let pkt = take 65535 packet in
      if pkt \<noteq> [] \<and> \<not> too_big limit (0 # pkt) \<and> ok then [Datagram (0 # pkt)] else [])"
| "ip_sends (ClientPacket (Some d)) =
     (case strip_context_id d of Some p \<Rightarrow> [TunWrite p] | None \<Rightarrow> [])"
| "ip_sends _ = []"

fun ip_payload :: "mevent \<Rightarrow> byte list option" where
  "ip_payload (TunWrite p) = Some p"
| "ip_payload _ = None"

interpretation ip: datagram_tunnel ip_kind ip_loop ip_sends ip_payload
proof unfold_locales
  show "ip_loop [] = []" by simp
  show "ip_loop (i # ins) = ip_sends i @ (if proceeds ip_kind i then ip_loop ins else [])" for i ins
    by (cases i rule: ip_sends.cases) (auto simp: ip_kind_def Let_def split: option.split)
  show "received ip_kind (recv_input ip_kind m) = m" for m by (simp add: ip_kind_def)
  show "i = recv_input ip_kind (Some d)" if "received ip_kind i = Some d" for i d
    using that by (cases i) (simp_all add: ip_kind_def)
  show "proceeds ip_kind (recv_input ip_kind m) = (m \<noteq> None)" for m by (simp add: ip_kind_def)
  show "List.map_filter ip_payload (ip_sends i) = (case received ip_kind i of None \<Rightarrow> []
      | Some d \<Rightarrow> (case strip_context_id d of None \<Rightarrow> [] | Some p \<Rightarrow> [p]))" for i
    by (cases i rule: ip_sends.cases)
       (auto simp: ip_kind_def Let_def List.map_filter_simps split: option.split)
qed

section \<open>End to end\<close>

definition tun_writes :: "mevent list \<Rightarrow> byte list list" where
  "tun_writes es = List.map_filter ip_payload es"

lemma udp_loop_finishes: "(Finish \<in> set (udp_loop ins)) = (\<exists>i\<in>set ins. \<not> goes_on i)"
  by (induction ins rule: udp_loop.induct) (auto simp: Let_def split: option.split)

lemma sent_up_payload: "sent_up es = List.map_filter udp_payload es"
proof -
  have "(\<lambda>e. case e of UdpSend p \<Rightarrow> Some p | _ \<Rightarrow> None) = udp_payload"
    by (rule ext, rename_tac e, case_tac e) simp_all
  then show ?thesis by (simp add: sent_up_def)
qed

lemma part_of_sent:
  assumes "prefix xs (List.map_filter strip_context_id (deliverable sid False ls))"
  shows "subseq xs (List.map_filter strip_context_id (datagrams_for sid ls))"
proof -
  have "List.map_filter f (us @ vs) = List.map_filter f us @ List.map_filter f vs" for f :: "byte list \<Rightarrow> byte list option" and us vs
    by (simp add: List.map_filter_def)
  with assms show ?thesis
    using datagrams_for_before [of sid ls] deliverable_since [of sid False ls]
    by (auto simp: prefix_def intro: list_emb_append2)
qed

text \<open>(C4) A CONNECT-UDP tunnel within its connection, in every interleaving of the accept loop, the datagram
  reader, the other tunnels and its own loop. Nothing is invented, repeated or reordered: what the tunnel
  has sent to its target is a subsequence of the payloads (Context ID 0) of the client's datagrams for its
  stream. Datagrams that are read before the request is accepted are dropped; of those read since, the
  tunnel has sent a prefix, without a gap, and all of them whenever it is still routed and has nothing
  left to receive.\<close>

theorem udp_end_to_end:
  assumes "tunnel_run udp_kind sid ls c ins"
  shows "subseq (sent_up (udp_loop ins)) (List.map_filter strip_context_id (datagrams_for sid ls))
    \<and> prefix (sent_up (udp_loop ins))
        (List.map_filter strip_context_id (datagrams_for sid (since_accepted sid ls)))
    \<and> (sid \<in> live c \<and> running udp_kind ins \<and> next_recv udp_kind sid c ins = None
        \<longrightarrow> sent_up (udp_loop ins)
              = List.map_filter strip_context_id (datagrams_for sid (since_accepted sid ls)))"
  using udp.uplink [OF assms] part_of_sent deliverable_since [of sid False ls]
  unfolding sent_up_payload by auto

text \<open>(C20) A CONNECT-IP tunnel, in every interleaving: the packets it has written to its device are a
  subsequence of the payloads (Context ID 0) of the client's datagrams for its stream; of those read
  since its request was accepted (earlier ones are dropped) they are a prefix, without a gap, and all of
  them whenever the tunnel is still routed and has nothing left to receive.\<close>

theorem ip_end_to_end:
  assumes "tunnel_run ip_kind sid ls c ins"
  shows "subseq (tun_writes (ip_loop ins)) (List.map_filter strip_context_id (datagrams_for sid ls))
    \<and> prefix (tun_writes (ip_loop ins))
        (List.map_filter strip_context_id (datagrams_for sid (since_accepted sid ls)))
    \<and> (sid \<in> live c \<and> running ip_kind ins \<and> next_recv ip_kind sid c ins = None
        \<longrightarrow> tun_writes (ip_loop ins)
              = List.map_filter strip_context_id (datagrams_for sid (since_accepted sid ls)))"
  using ip.uplink [OF assms] part_of_sent deliverable_since [of sid False ls]
  unfolding tun_writes_def by auto

text \<open>(C21) Tunnels end with their connection. Once the accept loop has ended, a datagram tunnel that still runs
  ends by receiving alone, after at most one more step than datagrams were handed to it; nothing that
  was handed to it is lost; a CONNECT-UDP tunnel then finishes its stream.
\<close>

theorem udp_tunnel_torn_down:
  assumes "tunnel_run udp_kind sid ls c ins" and "AcceptDone \<in> set ls" and "sid \<in> live c"
    and "running udp_kind ins"
  shows "\<exists>out. out = receives udp_kind sid c (Suc (length (inbox c sid))) ins
    \<and> tunnel_run udp_kind sid ls c out \<and> \<not> running udp_kind out \<and> Finish \<in> set (udp_loop out)
    \<and> sent_up (udp_loop out) = List.map_filter strip_context_id (inbox c sid)"
proof -
  note t = udp.teardown [OF assms refl]
  then have "Finish \<in> set (udp_loop (receives udp_kind sid c (Suc (length (inbox c sid))) ins))"
    by (simp add: udp_loop_finishes running_def list_all_iff udp_kind_def)
  with t show ?thesis unfolding sent_up_payload by blast
qed

theorem ip_tunnel_torn_down:
  assumes "tunnel_run ip_kind sid ls c ins" and "AcceptDone \<in> set ls" and "sid \<in> live c"
    and "running ip_kind ins"
  shows "\<exists>out. out = receives ip_kind sid c (Suc (length (inbox c sid))) ins
    \<and> tunnel_run ip_kind sid ls c out \<and> \<not> running ip_kind out
    \<and> tun_writes (ip_loop out) = List.map_filter strip_context_id (inbox c sid)"
  using ip.teardown [OF assms refl] unfolding tun_writes_def by blast

text \<open>One datagram each way of being handled: before the request, with Context ID 0, with another.\<close>

lemma tunnel_run_accepted:
  assumes "classify req = UdpTunnel \<or> classify req = IpTunnel"
  shows "\<exists>c. tunnel_run k 0 [DatagramFor 0 [0, 9], Accepted 0 req] c [] \<and> accepting c \<and> reader_on c
    \<and> routes c = {0} \<and> live c = {0} \<and> inbox c 0 = []"
proof -
  have "tunnel_run k 0 ([] @ [DatagramFor 0 [0, 9]]) conn_init []"
    by (rule tunnel_run.connection [OF tunnel_run.init]) (simp_all add: conn_init_def)
  from tunnel_run.connection [OF this, of "Accepted 0 req"] assms show ?thesis
    by (fastforce simp: conn_init_def needs_route_def)
qed

lemma tunnel_run_datagrams:
  assumes "classify req = UdpTunnel \<or> classify req = IpTunnel"
  shows "\<exists>c. tunnel_run k 0 [DatagramFor 0 [0, 9], Accepted 0 req, DatagramFor 0 [0, 7], DatagramFor 0 [1, 8]] c []
    \<and> accepting c \<and> routes c = {0} \<and> live c = {0} \<and> inbox c 0 = [[0, 7], [1, 8]]"
proof -
  from tunnel_run_accepted [OF assms, of k] obtain c where
    c: "tunnel_run k 0 [DatagramFor 0 [0, 9], Accepted 0 req] c []" and f: "accepting c" "reader_on c"
      "routes c = {0}" "live c = {0}" "inbox c 0 = []" by blast
  from tunnel_run.connection [OF c, of "DatagramFor 0 [0, 7]"] f
  have d: "tunnel_run k 0 [DatagramFor 0 [0, 9], Accepted 0 req, DatagramFor 0 [0, 7]]
      (c\<lparr>inbox := (inbox c)(0 := [[0, 7]])\<rparr>) []" by simp
  from tunnel_run.connection [OF d, of "DatagramFor 0 [1, 8]"] f show ?thesis by fastforce
qed

lemma strip_one: "strip_context_id [1, 8] = None"
  by (simp add: strip_context_id_def get_varint_def)

theorem udp_end_to_end_witness:
  "\<exists>c. tunnel_run udp_kind 0
      [DatagramFor 0 [0, 9], Accepted 0 udp_request, DatagramFor 0 [0, 7], DatagramFor 0 [1, 8]] c
      [FromClient (Some [0, 7]), FromClient (Some [1, 8])]
    \<and> sent_up (udp_loop [FromClient (Some [0, 7]), FromClient (Some [1, 8])]) = [[7]]"
proof -
  let ?ls = "[DatagramFor 0 [0, 9], Accepted 0 udp_request, DatagramFor 0 [0, 7], DatagramFor 0 [1, 8]]"
  from tunnel_run_datagrams [OF disjI1 [OF classify_udp], of udp_kind] obtain c where
    r: "tunnel_run udp_kind 0 ?ls c []" and f: "routes c = {0}" "live c = {0}" "inbox c 0 = [[0, 7], [1, 8]]"
    by blast
  from tunnel_run.recv [OF r, of "FromClient (Some [0, 7])"] f
  have "tunnel_run udp_kind 0 ?ls c [FromClient (Some [0, 7])]"
    by (simp add: next_recv_def taken_def udp_kind_def List.map_filter_simps)
  from tunnel_run.recv [OF this, of "FromClient (Some [1, 8])"] f
  have r2: "tunnel_run udp_kind 0 ?ls c [FromClient (Some [0, 7]), FromClient (Some [1, 8])]"
    by (simp add: next_recv_def taken_def udp_kind_def running_def List.map_filter_simps)
  have "next_recv udp_kind 0 c [FromClient (Some [0, 7]), FromClient (Some [1, 8])] = None"
    using f by (simp add: next_recv_def taken_def udp_kind_def List.map_filter_simps)
  with udp_end_to_end [OF r2] f r2 show ?thesis
    by (auto simp: running_def udp_kind_def datagrams_for_def since_accepted_def List.map_filter_simps
        strip_context_id_zero strip_one)
qed

lemma classify_ip: "classify sample_ip_request = IpTunnel"
  by (simp add: classify_def sample_ip_request_def is_connect_def as_str_def from_utf8_def Let_def)

theorem ip_end_to_end_witness:
  "\<exists>c. tunnel_run ip_kind 0
      [DatagramFor 0 [0, 9], Accepted 0 sample_ip_request, DatagramFor 0 [0, 7], DatagramFor 0 [1, 8]] c
      [ClientPacket (Some [0, 7]), ClientPacket (Some [1, 8])]
    \<and> tun_writes (ip_loop [ClientPacket (Some [0, 7]), ClientPacket (Some [1, 8])]) = [[7]]"
proof -
  let ?ls = "[DatagramFor 0 [0, 9], Accepted 0 sample_ip_request, DatagramFor 0 [0, 7], DatagramFor 0 [1, 8]]"
  from tunnel_run_datagrams [OF disjI2 [OF classify_ip], of ip_kind] obtain c where
    r: "tunnel_run ip_kind 0 ?ls c []" and f: "routes c = {0}" "live c = {0}" "inbox c 0 = [[0, 7], [1, 8]]"
    by blast
  from tunnel_run.recv [OF r, of "ClientPacket (Some [0, 7])"] f
  have "tunnel_run ip_kind 0 ?ls c [ClientPacket (Some [0, 7])]"
    by (simp add: next_recv_def taken_def ip_kind_def List.map_filter_simps)
  from tunnel_run.recv [OF this, of "ClientPacket (Some [1, 8])"] f
  have r2: "tunnel_run ip_kind 0 ?ls c [ClientPacket (Some [0, 7]), ClientPacket (Some [1, 8])]"
    by (simp add: next_recv_def taken_def ip_kind_def running_def List.map_filter_simps)
  have "next_recv ip_kind 0 c [ClientPacket (Some [0, 7]), ClientPacket (Some [1, 8])] = None"
    using f by (simp add: next_recv_def taken_def ip_kind_def List.map_filter_simps)
  with ip_end_to_end [OF r2] f r2 show ?thesis
    by (auto simp: running_def ip_kind_def datagrams_for_def since_accepted_def List.map_filter_simps
        strip_context_id_zero strip_one)
qed

lemma tunnel_run_done:
  assumes "classify req = UdpTunnel \<or> classify req = IpTunnel"
  shows "\<exists>c. tunnel_run k 0
      [DatagramFor 0 [0, 9], Accepted 0 req, DatagramFor 0 [0, 7], DatagramFor 0 [1, 8], AcceptDone] c []
    \<and> live c = {0} \<and> inbox c 0 = [[0, 7], [1, 8]]"
proof -
  from tunnel_run_datagrams [OF assms, of k] obtain c where
    r: "tunnel_run k 0 [DatagramFor 0 [0, 9], Accepted 0 req, DatagramFor 0 [0, 7], DatagramFor 0 [1, 8]] c []"
    and f: "accepting c" "live c = {0}" "inbox c 0 = [[0, 7], [1, 8]]" by blast
  from tunnel_run.connection [OF r, of AcceptDone] f show ?thesis by fastforce
qed

theorem udp_tunnel_torn_down_witness:
  "\<exists>c out. tunnel_run udp_kind 0
      [DatagramFor 0 [0, 9], Accepted 0 udp_request, DatagramFor 0 [0, 7], DatagramFor 0 [1, 8], AcceptDone] c out
    \<and> Finish \<in> set (udp_loop out) \<and> sent_up (udp_loop out) = [[7]]"
proof -
  from tunnel_run_done [OF disjI1 [OF classify_udp], of udp_kind] obtain c where
    r: "tunnel_run udp_kind 0
      [DatagramFor 0 [0, 9], Accepted 0 udp_request, DatagramFor 0 [0, 7], DatagramFor 0 [1, 8], AcceptDone] c []"
    and f: "live c = {0}" "inbox c 0 = [[0, 7], [1, 8]]" by blast
  from udp_tunnel_torn_down [OF r] f show ?thesis
    by (simp add: List.map_filter_simps strip_context_id_zero strip_one) blast
qed

theorem ip_tunnel_torn_down_witness:
  "\<exists>c out. tunnel_run ip_kind 0
      [DatagramFor 0 [0, 9], Accepted 0 sample_ip_request, DatagramFor 0 [0, 7], DatagramFor 0 [1, 8], AcceptDone] c out
    \<and> \<not> running ip_kind out \<and> tun_writes (ip_loop out) = [[7]]"
proof -
  from tunnel_run_done [OF disjI2 [OF classify_ip], of ip_kind] obtain c where
    r: "tunnel_run ip_kind 0
      [DatagramFor 0 [0, 9], Accepted 0 sample_ip_request, DatagramFor 0 [0, 7], DatagramFor 0 [1, 8], AcceptDone] c []"
    and f: "live c = {0}" "inbox c 0 = [[0, 7], [1, 8]]" by blast
  from ip_tunnel_torn_down [OF r] f show ?thesis
    by (simp add: List.map_filter_simps strip_context_id_zero strip_one) blast
qed

end
