(* ===== verification/MasqueDispatch.thy ===== *)
theory MasqueDispatch
  imports MasqueEndToEnd
begin

text \<open>
  A request of an HTTP/3 connection from its acceptance to the end of its tunnel: the dispatch of
  \<open>handle_connection\<close> in \<open>src/masque.rs\<close> applied to the handlers of \<open>MasqueTunnel\<close> and \<open>MasqueIp\<close>. An error
  of a handler is only logged.
\<close>

section \<open>Dispatch\<close>

text \<open>What a request has caused: the events of its handler, an established byte pipe, the events
  of the reader of its signalling stream.\<close>

record served_request =
  sr_events :: "mevent list"
  sr_pipe :: "pipe option"
  sr_reader :: "mevent list"

definition serve_request ::
    "libs \<Rightarrow> masque_env \<Rightarrow> ip_env \<Rightarrow> app_config \<Rightarrow> sockaddr \<Rightarrow> request \<Rightarrow> ip_world
     \<Rightarrow> served_request \<times> ip_world" where
  "serve_request l env ienv config peer req w =
     (case classify req of
        Refuse status \<Rightarrow> (\<lparr>sr_events = fst (send_status env status), sr_pipe = None, sr_reader = []\<rparr>, w)
      | UdpTunnel \<Rightarrow>
          (\<lparr>sr_events = fst (handle_stream l env config peer req), sr_pipe = None, sr_reader = []\<rparr>, w)
      | IpTunnel \<Rightarrow>
          (case handle_ip_stream l ienv config req w of
             ((session, _), w') \<Rightarrow>
               (\<lparr>sr_events = main_events session, sr_pipe = None, sr_reader = capsule_events session\<rparr>, w'))
      | WebSocketTunnel \<Rightarrow>
          (let r = handle_websocket_connect_stream l env config peer req in
           (\<lparr>sr_events = fst r, sr_pipe = result_pipe r, sr_reader = []\<rparr>, w))
      | TcpTunnel \<Rightarrow>
          (let r = handle_tcp_connect_stream l env config peer req in
           (\<lparr>sr_events = fst r, sr_pipe = result_pipe r, sr_reader = []\<rparr>, w)))"

text \<open>A request that causes nothing but (at most) its status.\<close>

definition only_status :: "status \<Rightarrow> served_request \<Rightarrow> bool" where
  "only_status s r \<longleftrightarrow> sr_events r \<in> {[], [Response s (status_headers s)]} \<and> sr_pipe r = None \<and> sr_reader r = []"

lemma send_status_events:
  "fst (send_status env s) = (if m_respond_ok env s then [Response s (status_headers s)] else [])"
  by (simp add: send_status_def respond_def tell_def fail_def)

lemma no_pipe_status:
  "fst (no_pipe (send_status env s)) = fst (send_status env s)" "result_pipe (no_pipe (send_status env s)) = None"
  by (simp_all add: no_pipe_def send_status_def respond_def tell_def fail_def after_def return_def result_pipe_def)

text \<open>(C3) Nothing happens for a stranger. A request that is not a CONNECT presenting the configured token gets
  at most an error status, on every arm of the dispatch: no name is looked up, no socket opened, no
  address taken from the pool, no command run on the host, nothing sent to the stream but the status.
\<close>

theorem stranger_causes_nothing:
  assumes "\<not> (is_connect req \<and> check_proxy_auth l req (auth_token config))"
  shows "\<exists>s. s \<noteq> OK \<and> only_status s (fst (serve_request l env ienv config peer req w))
    \<and> snd (serve_request l env ienv config peer req w) = w"
proof (cases "classify req")
  case (Refuse s)
  then have "s \<noteq> OK" by (auto simp: classify_def Let_def split: if_splits)
  with Refuse show ?thesis by (intro exI [of _ s]) (simp add: serve_request_def only_status_def send_status_events)
next
  case UdpTunnel
  have "\<exists>s. validate_connect_udp l req (auth_token config) = Inl s \<and> s \<noteq> OK"
    using assms by (auto simp: validate_connect_udp_def split: option.split)
  then obtain s where s: "validate_connect_udp l req (auth_token config) = Inl s" "s \<noteq> OK" by blast
  with UdpTunnel show ?thesis
    by (intro exI [of _ s]) (simp add: serve_request_def handle_stream_def only_status_def send_status_events)
next
  case IpTunnel
  have "\<exists>s. validate_connect_ip l req (auth_token config) = Inl s \<and> s \<noteq> OK"
    using assms by (auto simp: validate_connect_ip_def split: option.split)
  then obtain s where s: "validate_connect_ip l req (auth_token config) = Inl s" "s \<noteq> OK" by blast
  with IpTunnel show ?thesis
    by (intro exI [of _ s]) (simp add: serve_request_def handle_ip_stream_def only_status_def answer_def)
next
  case WebSocketTunnel
  have "\<exists>s. validate_websocket_connect l req (auth_token config) = Inl s \<and> s \<noteq> OK"
    using assms by (auto simp: validate_websocket_connect_def split: option.split)
  then obtain s where s: "validate_websocket_connect l req (auth_token config) = Inl s" "s \<noteq> OK" by blast
  with WebSocketTunnel show ?thesis
    by (intro exI [of _ s]) (simp add: serve_request_def handle_websocket_connect_stream_def only_status_def
        no_pipe_status send_status_events Let_def)
next
  case TcpTunnel
  have "\<exists>s. validate_tcp_connect l req (auth_token config) = Inl s \<and> s \<noteq> OK"
    using assms by (auto simp: validate_tcp_connect_def split: option.split)
  then obtain s where s: "validate_tcp_connect l req (auth_token config) = Inl s" "s \<noteq> OK" by blast
  with TcpTunnel show ?thesis
    by (intro exI [of _ s]) (simp add: serve_request_def handle_tcp_connect_stream_def only_status_def
        no_pipe_status send_status_events Let_def)
qed

text \<open>A CONNECT-IP request with a wrong token: nothing is taken from the pool, no device is created.\<close>

theorem stranger_causes_nothing_witness:
  "\<exists>s. s \<noteq> OK \<and> only_status s (fst (serve_request plain_libs sample_masque sample_ip_env default_config sample_peer
      sample_ip_request \<lparr>pool = v4_pool 0xC6120000 0xC613FFFF 0, host = sample_host\<rparr>))
    \<and> snd (serve_request plain_libs sample_masque sample_ip_env default_config sample_peer
      sample_ip_request \<lparr>pool = v4_pool 0xC6120000 0xC613FFFF 0, host = sample_host\<rparr>)
      = \<lparr>pool = v4_pool 0xC6120000 0xC613FFFF 0, host = sample_host\<rparr>"
  by (rule stranger_causes_nothing) (simp add: check_proxy_auth_def default_config_def)

section \<open>One answer, before any data\<close>

text \<open>The shape of a request's events: before the answer only look-ups, log lines, connection attempts
  and sockets of the proxy; an error status ends it; after 200 there is no second answer.\<close>

definition is_answer :: "mevent \<Rightarrow> bool" where
  "is_answer e = (case e of Response _ _ \<Rightarrow> True | _ \<Rightarrow> False)"

fun answered_first :: "mevent list \<Rightarrow> bool" where
  "answered_first [] = True"
| "answered_first (Response s hs # es) = (if s = OK then \<not> list_ex is_answer es else es = [])"
| "answered_first (Net e # es) = answered_first es"
| "answered_first (UdpSocketBind a # es) = answered_first es"
| "answered_first (UdpSocketConnect a # es) = answered_first es"
| "answered_first (e # es) = False"

lemma is_answer_simps [simp]:
  "is_answer (Response s h)" "\<not> is_answer (Net e)" "\<not> is_answer (Datagram d)" "\<not> is_answer (UdpSend d)"
  "\<not> is_answer (StreamData d)" "\<not> is_answer (TunWrite d)" "\<not> is_answer Finish"
  by (simp_all add: is_answer_def)

lemma answered_first_net:
  "answered_first (map Net es @ ms) = answered_first ms" "answered_first (map Net es)"
  by (induction es) simp_all

lemma loops_answer_nothing: "\<not> list_ex is_answer (udp_loop us)" "\<not> list_ex is_answer (ip_loop ps)"
proof -
  show "\<not> list_ex is_answer (udp_loop us)"
    by (induction us rule: udp_loop.induct) (simp_all add: Let_def split: option.split)
  show "\<not> list_ex is_answer (ip_loop ps)"
    by (induction ps rule: ip_loop.induct) (simp_all add: Let_def split: option.split)
qed

lemma refusals_are_errors:
  "validate_connect_udp l req t = Inl s \<Longrightarrow> s \<noteq> OK" "validate_connect_ip l req t = Inl s \<Longrightarrow> s \<noteq> OK"
  "validate_websocket_connect l req t = Inl s \<Longrightarrow> s \<noteq> OK" "validate_tcp_connect l req t = Inl s \<Longrightarrow> s \<noteq> OK"
  by (auto simp: validate_connect_udp_def validate_connect_ip_def validate_websocket_connect_def
      validate_tcp_connect_def authority_target_def split: if_splits option.splits sum.splits)

lemma handle_stream_answer: "answered_first (fst (handle_stream l env config peer req))"
  using refusals_are_errors(1) [of l req "auth_token config"]
  by (simp add: handle_stream_def after_def resolve_target_def send_status_def respond_def tell_def fail_def
      return_def answered_first_net loops_answer_nothing Let_def split: sum.split option.split)

lemma tcp_tunnel_answer:
  "answered_first (fst (tcp_connect_tunnel env config peer h p tr))"
  "snd (tcp_connect_tunnel env config peer h p tr) = Inr pipe \<Longrightarrow>
   Response OK [] \<in> set (fst (tcp_connect_tunnel env config peer h p tr))"
proof -
  show "answered_first (fst (tcp_connect_tunnel env config peer h p tr))"
    by (simp add: tcp_connect_tunnel_def after_def resolve_target_def send_status_def respond_def tell_def
        fail_def return_def answered_first_net Let_def split: sum.split outcome.split)
  assume "snd (tcp_connect_tunnel env config peer h p tr) = Inr pipe"
  then show "Response OK [] \<in> set (fst (tcp_connect_tunnel env config peer h p tr))"
    by (auto simp: tcp_connect_tunnel_def after_def resolve_target_def send_status_def respond_def tell_def
        fail_def return_def Let_def split: sum.splits outcome.splits if_splits)
qed

lemma pipe_of_tunnel:
  assumes "r = after (tcp_connect_tunnel env config peer h p tr) (\<lambda>p. return (Some p))"
  shows "fst r = fst (tcp_connect_tunnel env config peer h p tr)
    \<and> result_pipe r = (case snd (tcp_connect_tunnel env config peer h p tr) of Inr q \<Rightarrow> Some q | Inl _ \<Rightarrow> None)"
  by (simp add: assms after_def return_def result_pipe_def split: sum.split)

lemma handle_tcp_answer:
  "answered_first (fst (handle_tcp_connect_stream l env config peer req))
   \<and> (result_pipe (handle_tcp_connect_stream l env config peer req) \<noteq> None
      \<longrightarrow> Response OK [] \<in> set (fst (handle_tcp_connect_stream l env config peer req)))"
proof (cases "validate_tcp_connect l req (auth_token config)")
  case (Inl s)
  then show ?thesis using refusals_are_errors(4) [OF Inl]
    by (simp add: handle_tcp_connect_stream_def no_pipe_status send_status_events)
next
  case (Inr t)
  obtain h p where "t = (h, p)" by fastforce
  with Inr pipe_of_tunnel [OF refl, of env config peer h p "''tcp''"] tcp_tunnel_answer show ?thesis
    by (auto simp: handle_tcp_connect_stream_def split: sum.splits)
qed

lemma handle_websocket_answer:
  "answered_first (fst (handle_websocket_connect_stream l env config peer req))
   \<and> (result_pipe (handle_websocket_connect_stream l env config peer req) \<noteq> None
      \<longrightarrow> Response OK [] \<in> set (fst (handle_websocket_connect_stream l env config peer req)))"
proof (cases "validate_websocket_connect l req (auth_token config)")
  case (Inl s)
  then show ?thesis using refusals_are_errors(3) [OF Inl]
    by (simp add: handle_websocket_connect_stream_def no_pipe_status send_status_events)
next
  case (Inr t)
  obtain h p where "t = (h, p)" by fastforce
  with Inr pipe_of_tunnel [OF refl, of env config peer h p "''ws''"] tcp_tunnel_answer show ?thesis
    by (auto simp: handle_websocket_connect_stream_def split: sum.splits)
qed

lemma ip_session_answer:
  "answered_first (main_events (fst (fst (handle_ip_stream l ienv config req w))))"
  using refusals_are_errors(2) [of l req "auth_token config"]
  by (auto simp: handle_ip_stream_def ip_tunnel_def answer_def loops_answer_nothing Let_def
      split: sum.split prod.split)

lemma ip_session_replies:
  "capsule_events (fst (fst (handle_ip_stream l ienv config req w))) \<noteq> [] \<Longrightarrow>
   Response OK [(ascii ''capsule-protocol'', ascii ''?1'')] \<in> set (main_events (fst (fst (handle_ip_stream l ienv config req w))))"
  by (auto simp: handle_ip_stream_def ip_tunnel_def Let_def split: sum.splits prod.splits if_splits)

text \<open>(C10) Every request is answered at most once, whatever the network, the host and the client do; an error
  status is the end of its session; and no byte or datagram passes in either direction before the
  client has been sent 200.
\<close>

theorem answered_before_data:
  "answered_first (sr_events (fst (serve_request l env ienv config peer req w)))
   \<and> (sr_pipe (fst (serve_request l env ienv config peer req w)) = None
       \<and> sr_reader (fst (serve_request l env ienv config peer req w)) = []
     \<or> (\<exists>hs. Response OK hs \<in> set (sr_events (fst (serve_request l env ienv config peer req w)))))"
proof (cases "classify req")
  case (Refuse s)
  then have "s \<noteq> OK" by (auto simp: classify_def Let_def split: if_splits)
  with Refuse show ?thesis by (simp add: serve_request_def send_status_events)
next
  case UdpTunnel
  then show ?thesis by (simp add: serve_request_def handle_stream_answer)
next
  case IpTunnel
  obtain session r w' where h: "handle_ip_stream l ienv config req w = ((session, r), w')"
    by (cases "handle_ip_stream l ienv config req w") auto
  with IpTunnel ip_session_answer [of l ienv config req w] ip_session_replies [of l ienv config req w]
  show ?thesis by (auto simp: serve_request_def)
next
  case WebSocketTunnel
  with handle_websocket_answer [of l env config peer req] show ?thesis
    by (auto simp: serve_request_def Let_def)
next
  case TcpTunnel
  with handle_tcp_answer [of l env config peer req] show ?thesis
    by (auto simp: serve_request_def Let_def)
qed

end
