(* ===== verification/Upgrade.thy ===== *)
theory Upgrade
  imports RustStd "HOL-Library.List_Lexorder" "HOL-Library.Product_Lexorder"
begin

text \<open>
  The auto-upgrade of \<open>src/upgrade.rs\<close>: the interval of the command line, version comparison, the
  choice of the release asset, the replacement of the running binary, the systemd restart, and the
  loop. GitHub, the download, the gzip and tar crates, the file system and \<open>systemctl\<close> answer as the
  environment of a check says; what the code does with their answers is modelled step by step.
\<close>

section \<open>The interval\<close>

text \<open>The last character of a UTF-8 string and what stands before it.\<close>

definition split_last_char :: "str \<Rightarrow> str \<times> str" where
  "split_last_char s =
     (let n = Suc (length (takeWhile cont (rev s))) in
      (take (length s - n) s, drop (length s - n) s))"

text \<open>Seconds. The multiplications are \<open>u64\<close> arithmetic, which wraps in a release build.\<close>

definition parse_interval :: "str \<Rightarrow> string + u64" where
  "parse_interval s0 =
     (let s = trim s0 in
      if s = [] then Inl ''empty interval''
      else
        let (val_str, last_char) = split_last_char s in
        (case parse_uint (2 ^ 64) val_str of
           None \<Rightarrow> Inl ''invalid number''
         | Some v \<Rightarrow>
             let val = (of_nat v :: u64) in
             (case
                (if last_char = ascii ''h'' then Some (val * 3600)
                 else if last_char = ascii ''d'' then Some (val * 86400)
                 else if last_char = ascii ''w'' then Some (val * 7 * 86400)
                 else if last_char = ascii ''m'' then Some (val * 30 * 86400)
                 else None) of
                None \<Rightarrow> Inl ''unknown time unit''
              | Some duration \<Rightarrow>
                  if duration < 3600 then Inl ''minimum auto-upgrade interval is 1h''
                  else Inr duration)))"

section \<open>Versions\<close>

definition trim_start_matches :: "byte \<Rightarrow> str \<Rightarrow> str" where
  "trim_start_matches c s = dropWhile ((=) c) s"

definition split_version :: "str \<Rightarrow> str \<times> str option" where
  "split_version v0 =
     (let v = trim_start_matches 118 v0 in
      case position ((=) 45) v of
        Some idx \<Rightarrow> (take idx v, Some (drop (idx + 1) v))
      | None \<Rightarrow> (v, None))"

text \<open>\<open>parts.get(i).and_then(parse::<u32>().ok()).unwrap_or(0)\<close>\<close>

definition part_val :: "str list \<Rightarrow> nat \<Rightarrow> nat" where
  "part_val parts i =
     (if i < length parts then (case parse_uint (2 ^ 32) (parts ! i) of Some v \<Rightarrow> v | None \<Rightarrow> 0) else 0)"

text \<open>The loop over the numeric parts: the first difference decides.\<close>

fun newer_parts :: "str list \<Rightarrow> str list \<Rightarrow> nat list \<Rightarrow> bool option" where
  "newer_parts cur lat [] = None"
| "newer_parts cur lat (i # is) =
     (if part_val lat i > part_val cur i then Some True
      else if part_val lat i < part_val cur i then Some False
      else newer_parts cur lat is)"

definition is_newer_version :: "str \<Rightarrow> str \<Rightarrow> bool" where
  "is_newer_version current latest =
     (let (cur_main, cur_pre) = split_version current;
          (lat_main, lat_pre) = split_version latest;
          cur_parts = split_char 46 cur_main;
          lat_parts = split_char 46 lat_main in
      case newer_parts cur_parts lat_parts [0..<max (length cur_parts) (length lat_parts)] of
        Some b \<Rightarrow> b
      | None \<Rightarrow>
          (case (cur_pre, lat_pre) of
             (None, None) \<Rightarrow> False
           | (Some _, None) \<Rightarrow> True
           | (None, Some _) \<Rightarrow> False
           | (Some p1, Some p2) \<Rightarrow> p2 > p1))"

section \<open>Artifact names\<close>

datatype target_os = Linux | MacOs | Windows | OtherOs
datatype target_arch = X86_64 | Aarch64 | OtherArch
datatype target_env = Gnu | Musl | Msvc | OtherEnv

fun get_target_artifact_name :: "target_os \<Rightarrow> target_arch \<Rightarrow> target_env \<Rightarrow> str option" where
  "get_target_artifact_name os arch tenv =
     (if os = Linux \<and> arch = X86_64 \<and> tenv = Gnu then Some (ascii ''auto-server-linux-x86_64-unknown-linux-gnu'')
      else if os = Linux \<and> arch = X86_64 \<and> tenv = Musl then Some (ascii ''auto-server-linux-x86_64-unknown-linux-musl'')
      else if os = Linux \<and> arch = Aarch64 \<and> tenv = Gnu then Some (ascii ''auto-server-linux-aarch64-unknown-linux-gnu'')
      else if os = Linux \<and> arch = Aarch64 \<and> tenv = Musl then Some (ascii ''auto-server-linux-aarch64-unknown-linux-musl'')
      else if os = MacOs \<and> arch = Aarch64 then Some (ascii ''auto-server-macos-aarch64-apple-darwin'')
      else if os = Windows \<and> arch = X86_64 then Some (ascii ''auto-server-windows-x86_64-pc-windows-msvc'')
      else None)"

section \<open>Restart through systemd\<close>

text \<open>The scan of \<open>/proc/self/cgroup\<close>: the first line that mentions a service decides, whatever it
  yields.\<close>

fun find_unit :: "str list \<Rightarrow> str option \<times> bool" where
  "find_unit [] = (None, False)"
| "find_unit (line # rest) =
     (if contains (ascii ''.service'') line then
        ((case filter (ends_with (ascii ''.service'')) (split_char 47 line) of
            [] \<Rightarrow> None | ss \<Rightarrow> Some (last ss)),
         contains (ascii ''/user.slice/'') line)
      else find_unit rest)"

definition systemctl_command :: "str \<Rightarrow> bool \<Rightarrow> str list" where
  "systemctl_command unit_name is_user_service =
     ascii ''systemctl'' # (if is_user_service then [ascii ''--user''] else [])
       @ [ascii ''restart'', ascii ''--no-block'', unit_name]"

section \<open>Checking and upgrading\<close>

record asset =
  asset_name :: str
  browser_download_url :: str

record release =
  tag_name :: str
  assets :: "asset list"

text \<open>A tar entry: broken, or the UTF-8 file name of its path (when it has one) and its content
  (\<open>None\<close> when reading it fails).\<close>

datatype entry = BadEntry | Entry "str option" "byte list option"

record upgrade_env =
  u_os :: target_os
  u_arch :: target_arch
  u_tenv :: target_env
  u_client_ok :: bool
  u_releases :: "release list option"
  u_latest :: "release option"
  u_download :: "str \<Rightarrow> byte list option"
  u_entries :: "byte list \<Rightarrow> entry list option"
  u_current_exe_ok :: bool
  u_temp_ok :: bool
  u_temp_write_ok :: bool
  u_chmod_ok :: bool
  u_keep_ok :: bool
  u_rename_ok :: bool
  u_remove_ok :: bool
  u_cgroup :: "str option"
  u_systemctl :: "str list \<Rightarrow> bool option"

text \<open>What a check can change: the file of the running program and its mode, the temporary file
  beside it, the commands that were run.\<close>

record machine =
  exe :: "byte list \<times> nat"
  temp :: "(byte list \<times> nat) option"
  commands :: "str list list"

text \<open>The loop over the archive: the first entry with the right file name, if its content can be
  read; an entry that is broken before it ends the search.\<close>

fun find_binary :: "str \<Rightarrow> entry list \<Rightarrow> string + byte list option" where
  "find_binary name [] = Inr None"
| "find_binary name (BadEntry # es) = Inl ''archive entry''"
| "find_binary name (Entry fname content # es) =
     (if fname = Some name then
        (case content of None \<Rightarrow> Inl ''reading archive entry'' | Some bs \<Rightarrow> Inr (Some bs))
      else find_binary name es)"

definition restart_via_systemd :: "upgrade_env \<Rightarrow> machine \<Rightarrow> (string + unit) \<times> machine" where
  "restart_via_systemd env w =
     (case find_unit (lines (case u_cgroup env of Some c \<Rightarrow> c | None \<Rightarrow> [])) of
        (None, _) \<Rightarrow> (Inl ''Not running under systemd or unit name not found in cgroup'', w)
      | (Some unit_name, is_user) \<Rightarrow>
          let cmd = systemctl_command unit_name is_user; w' = w\<lparr>commands := commands w @ [cmd]\<rparr> in
          (case u_systemctl env cmd of
             None \<Rightarrow> (Inl ''systemctl could not be run'', w)
           | Some True \<Rightarrow> (Inr (), w')
           | Some False \<Rightarrow> (Inl ''systemctl restart failed'', w')))"

text \<open>
  The last part of \<open>check_and_perform_upgrade\<close>: the temporary file in the program's directory, its
  mode (493 is 0o755), the rename over the program. A temporary file that is not kept is deleted when it goes out of
  scope.
\<close>

definition replace_binary ::
    "upgrade_env \<Rightarrow> byte list \<Rightarrow> machine \<Rightarrow> (string + bool) \<times> machine" where
  "replace_binary env binary w =
     (if \<not> u_current_exe_ok env then (Inl ''current exe'', w)
      else if \<not> u_temp_ok env then (Inl ''temporary file'', w)
      else if \<not> u_temp_write_ok env then (Inl ''temporary file write'', w)
      else if \<not> u_chmod_ok env then (Inl ''set permissions'', w)
      else if \<not> u_keep_ok env then (Inl ''keep'', w)
      else
        let w = w\<lparr>temp := Some (binary, 493)\<rparr> in
        if \<not> u_rename_ok env then 
          (Inl ''rename'', if u_remove_ok env then w\<lparr>temp := None\<rparr> else w)
        else
          let w = w\<lparr>exe := (binary, 493), temp := None\<rparr> in
          (case restart_via_systemd env w of (_, w') \<Rightarrow> (Inr True, w')))"

definition check_and_perform_upgrade ::
    "str \<Rightarrow> upgrade_env \<Rightarrow> bool \<Rightarrow> machine \<Rightarrow> (string + bool) \<times> machine" where
  "check_and_perform_upgrade current_version env pre_release w =
     (case get_target_artifact_name (u_os env) (u_arch env) (u_tenv env) of
        None \<Rightarrow> (Inl ''Current platform architecture is not supported for auto-upgrade'', w)
      | Some target_artifact_name \<Rightarrow>
          if \<not> u_client_ok env then (Inl ''http client'', w)
          else
            (case (if pre_release
                   then (case u_releases env of
                           None \<Rightarrow> Inl ''releases''
                         | Some [] \<Rightarrow> Inl ''No releases found on GitHub''
                         | Some (r # _) \<Rightarrow> Inr r)
                   else (case u_latest env of None \<Rightarrow> Inl ''latest release'' | Some r \<Rightarrow> Inr r)) of
               Inl e \<Rightarrow> (Inl e, w)
             | Inr release \<Rightarrow>
                 if \<not> is_newer_version current_version (tag_name release) then (Inr False, w)
                 else
                   let expected_asset_name = target_artifact_name @ ascii ''.tar.gz'' in
                   (case find (\<lambda>a. asset_name a = expected_asset_name) (assets release) of
                      None \<Rightarrow> (Inl ''Could not find expected release asset'', w)
                    | Some asset \<Rightarrow>
                        (case u_download env (browser_download_url asset) of
                           None \<Rightarrow> (Inl ''download'', w)
                         | Some response_bytes \<Rightarrow>
                             (case u_entries env response_bytes of
                                None \<Rightarrow> (Inl ''archive'', w)
                              | Some entries \<Rightarrow>
                                  (case find_binary target_artifact_name entries of
                                     Inl e \<Rightarrow> (Inl e, w)
                                   | Inr None \<Rightarrow> (Inl ''Binary file not found in downloaded archive'', w)
                                   | Inr (Some binary_bytes) \<Rightarrow> replace_binary env binary_bytes w))))))"

text \<open>The loop, one environment per tick: it goes on after an error and after "up to date", and ends
  the process (exit code 0) after an upgrade. The result says whether the process ended.\<close>

fun run_upgrade_loop :: "str \<Rightarrow> bool \<Rightarrow> upgrade_env list \<Rightarrow> machine \<Rightarrow> bool \<times> machine" where
  "run_upgrade_loop current_version pre_release [] w = (False, w)"
| "run_upgrade_loop current_version pre_release (env # envs) w =
     (case check_and_perform_upgrade current_version env pre_release w of
        (Inr True, w') \<Rightarrow> (True, w')
      | (Inr False, w') \<Rightarrow> run_upgrade_loop current_version pre_release envs w'
      | (Inl _, w') \<Rightarrow> run_upgrade_loop current_version pre_release envs w')"

section \<open>Versions are compared by a key\<close>

text \<open>The numeric parts without trailing zeros, then the pre-release, which a stable version exceeds.\<close>

fun strip_zeros :: "nat list \<Rightarrow> nat list" where
  "strip_zeros [] = []"
| "strip_zeros (x # xs) = (let r = strip_zeros xs in if x = 0 \<and> r = [] then [] else x # r)"

definition version_key :: "str \<Rightarrow> nat list \<times> bool \<times> str" where
  "version_key v =
     (let (main, pre) = split_version v; parts = split_char 46 main in
      (strip_zeros (map (part_val parts) [0..<length parts]),
       (case pre of None \<Rightarrow> (True, []) | Some p \<Rightarrow> (False, p))))"

lemma strip_zeros_append: "strip_zeros (xs @ replicate k 0) = strip_zeros xs"
proof (induction xs)
  case Nil
  show ?case by (induction k) (simp_all add: Let_def)
qed (simp add: Let_def)

lemma strip_zeros_less:
  "length xs = length ys \<Longrightarrow> (strip_zeros xs < strip_zeros ys) = (xs < ys)"
proof (induction xs ys rule: list_induct2)
  case (Cons x xs y ys)
  then show ?case
    by (cases "strip_zeros xs"; cases "strip_zeros ys"; cases "x = 0"; cases "y = 0")
       (auto simp: Let_def)
qed simp

lemma strip_zeros_eq:
  "length xs = length ys \<Longrightarrow> (strip_zeros xs = strip_zeros ys) = (xs = ys)"
  by (induction xs ys rule: list_induct2) (auto simp: Let_def)

lemma newer_parts_lex:
  "newer_parts cur lat is =
     (if map (part_val cur) is = map (part_val lat) is then None
      else Some (map (part_val cur) is < map (part_val lat) is))"
  by (induction "is") auto

lemma padded:
  assumes "length parts \<le> n"
  shows "strip_zeros (map (part_val parts) [0..<n]) = strip_zeros (map (part_val parts) [0..<length parts])"
proof -
  have "map (part_val parts) [0..<n]
      = map (part_val parts) [0..<length parts] @ map (part_val parts) [length parts..<n]"
    using assms by (simp add: upt_add_eq_append [symmetric] le_Suc_ex flip: map_append)
       (metis le_add_diff_inverse upt_add_eq_append zero_le)
  also have "map (part_val parts) [length parts..<n] = replicate (n - length parts) 0"
    by (rule nth_equalityI) (simp_all add: part_val_def)
  finally show ?thesis by (simp add: strip_zeros_append)
qed

lemma newer_parts_keys:
  fixes cur lat :: "str list"
  defines "n \<equiv> max (length cur) (length lat)"
    and "k \<equiv> (\<lambda>parts. strip_zeros (map (part_val parts) [0..<length parts]))"
  shows "newer_parts cur lat [0..<n] = (if k cur = k lat then None else Some (k cur < k lat))"
proof -
  have p: "k cur = strip_zeros (map (part_val cur) [0..<n])" "k lat = strip_zeros (map (part_val lat) [0..<n])"
    using padded [of cur n] padded [of lat n] by (simp_all add: n_def k_def)
  have l: "length (map (part_val cur) [0..<n]) = length (map (part_val lat) [0..<n])" by simp
  show ?thesis unfolding newer_parts_lex p strip_zeros_less [OF l] strip_zeros_eq [OF l] ..
qed

text \<open>(C37) Version comparison is the strict order of a key: the numeric parts with missing ones read
  as 0, then pre-releases below the stable version and compared alphabetically. So it is a strict
  linear order on versions up to equality of keys: never both ways, transitive, and no version is
  newer than itself.\<close>

theorem is_newer_version_key:
  "is_newer_version current latest = (version_key current < version_key latest)"
proof -
  obtain cm cp lm lp where v: "split_version current = (cm, cp)" "split_version latest = (lm, lp)"
    by fastforce
  show ?thesis
    by (simp add: is_newer_version_def version_key_def v newer_parts_keys less_prod_def Let_def
        split: option.split) (auto simp: Let_def)
qed

section \<open>Intervals\<close>

lemma split_last_char_ascii: "c < 0x80 \<Longrightarrow> split_last_char (s @ [c]) = (s, [c])"
proof -
  assume "c < 0x80"
  then have "\<not> cont c" by (simp add: cont_def between_def not_le)
  then show ?thesis by (simp add: split_last_char_def Let_def)
qed

definition unit_seconds :: "(byte \<times> nat) list" where
  "unit_seconds = [(104, 3600), (100, 86400), (119, 604800), (109, 2592000)]"

text \<open>(C38) A decimal number and one of the four units is the number times the unit's seconds, modulo
  2^64; less than an hour is refused. (In particular the value is exact when the product fits.)\<close>

theorem parse_interval_value:
  assumes "n < 2 ^ 64" and "(c, k) \<in> set unit_seconds"
  shows "parse_interval (dec n @ [c]) =
    (let d = n * k mod 2 ^ 64 in
     if d < 3600 then Inl ''minimum auto-upgrade interval is 1h'' else Inr (of_nat d))"
proof -
  have c: "c \<in> {104, 100, 119, 109}" using assms(2) by (auto simp: unit_seconds_def)
  have t: "trim (dec n @ [c]) = dec n @ [c]"
    using c dec_no_space [of _ n] by (intro trim_ascii) (auto simp: between_def)
  have l: "split_last_char (dec n @ [c]) = (dec n, [c])"
    using c by (intro split_last_char_ascii) auto
  have wrap: "(of_nat m :: u64) = of_nat (m mod 2 ^ 64)" for m
    by (rule word_unat_eq_iff [THEN iffD2]) (simp add: unat_of_nat)
  have less: "(of_nat m :: u64) < 3600 \<longleftrightarrow> m < 3600" if "m < 2 ^ 64" for m
    using that by (simp add: word_less_nat_alt unat_of_nat)
  have m: "(of_nat n * of_nat k :: u64) = of_nat (n * k mod 2 ^ 64)"
    using wrap [of "n * k"] by simp
  have k: "c = 104 \<and> k = 3600 \<or> c = 100 \<and> k = 86400 \<or> c = 119 \<and> k = 7 * 86400
      \<or> c = 109 \<and> k = 30 * 86400"
    using assms(2) by (auto simp: unit_seconds_def)
  have p: "parse_interval (dec n @ [c]) = (let d = (of_nat n * of_nat k :: u64) in
      if d < 3600 then Inl ''minimum auto-upgrade interval is 1h'' else Inr d)"
    using k parse_uint_dec [OF assms(1)]
    unfolding parse_interval_def t l Let_def by (elim disjE) (simp_all add: mult.assoc)
  have "n * k mod 2 ^ 64 < 2 ^ 64" by simp
  from less [OF this] show ?thesis unfolding p m Let_def by simp
qed

text \<open>An ordinary interval, and one whose product does not fit: the check then runs every two hours.\<close>

theorem parse_interval_value_witness:
  "parse_interval (dec 3 @ [100]) = Inr 259200
   \<and> parse_interval (dec 5124095576030433 @ [104]) = Inr 7184"
  using parse_interval_value [of 3 100 86400] parse_interval_value [of 5124095576030433 104 3600]
  by (simp add: unit_seconds_def)

text \<open>Numeric pre-release identifiers are compared as text.\<close>

lemma beta_ten_not_newer: "\<not> is_newer_version (ascii ''1.0.0-beta.2'') (ascii ''1.0.0-beta.10'')"
  by (simp add: is_newer_version_def split_version_def trim_start_matches_def Let_def)

section \<open>Upgrading\<close>

lemma restart_keeps_files:
  "exe (snd (restart_via_systemd env w)) = exe w \<and> temp (snd (restart_via_systemd env w)) = temp w"
  by (simp add: restart_via_systemd_def Let_def split: prod.split option.split bool.split)

lemma replace_binary_cases:
  assumes "replace_binary env binary w = (r, w')" and "temp w = None" and "u_remove_ok env"
  shows "temp w' = None \<and>
    (if r = Inr True then exe w' = (binary, 493) else exe w' = exe w \<and> commands w' = commands w)"
  using assms restart_keeps_files [of env "w\<lparr>exe := (binary, 493), temp := None\<rparr>"]
  by (auto simp: replace_binary_def Let_def split: if_splits prod.splits)

lemma check_cases:
  assumes "check_and_perform_upgrade current env pre_release w = (r, w')"
  obtains (kept) "r \<noteq> Inr True" "w' = w"
    | (replaced) name bytes entries binary
      where "get_target_artifact_name (u_os env) (u_arch env) (u_tenv env) = Some name"
        "u_entries env bytes = Some entries" "find_binary name entries = Inr (Some binary)"
        "replace_binary env binary w = (r, w')"
  using assms
  by (auto simp: check_and_perform_upgrade_def Let_def
      split: option.splits if_splits sum.splits list.splits simp del: get_target_artifact_name.simps)

text \<open>(C17) Whatever fails, the program's file is either untouched or replaced as a whole by the first
  archive entry of the right name, executable, and then the check says so; and no temporary file is
  left behind when it can be removed.\<close>

theorem upgrade_all_or_nothing:
  assumes "check_and_perform_upgrade current env pre_release w = (r, w')"
    and "temp w = None" and "u_remove_ok env"
  shows "temp w' = None \<and>
    (if r = Inr True
     then (\<exists>name bytes entries binary. get_target_artifact_name (u_os env) (u_arch env) (u_tenv env) = Some name
             \<and> u_entries env bytes = Some entries \<and> find_binary name entries = Inr (Some binary)
             \<and> exe w' = (binary, 493))
     else exe w' = exe w \<and> commands w' = commands w)"
  using assms(1)
proof (cases rule: check_cases)
  case kept
  with assms(2) show ?thesis by simp
next
  case (replaced name bytes entries binary)
  from replace_binary_cases [OF replaced(4) assms(2,3)] replaced(1-3) show ?thesis
    by (auto simp del: get_target_artifact_name.simps)
qed

text \<open>A release that is newer, complete, and replaces the program; systemd refuses the restart.\<close>

definition sample_upgrade :: upgrade_env where
  "sample_upgrade = \<lparr>u_os = Linux, u_arch = X86_64, u_tenv = Gnu, u_client_ok = True,
     u_releases = None,
     u_latest = Some \<lparr>tag_name = ascii ''v1.0'',
       assets = [\<lparr>asset_name = ascii ''auto-server-linux-x86_64-unknown-linux-gnu.tar.gz'',
                  browser_download_url = ascii ''u''\<rparr>]\<rparr>,
     u_download = (\<lambda>_. Some [1]),
     u_entries = (\<lambda>_. Some [Entry (Some (ascii ''README'')) (Some []),
        Entry (Some (ascii ''auto-server-linux-x86_64-unknown-linux-gnu'')) (Some [7, 7])]),
     u_current_exe_ok = True, u_temp_ok = True, u_temp_write_ok = True, u_chmod_ok = True,
     u_keep_ok = True, u_rename_ok = True, u_remove_ok = True,
     u_cgroup = Some (ascii ''0::/system.slice/auto-server.service''),
     u_systemctl = (\<lambda>_. Some False)\<rparr>"

lemma sample_unit:
  "find_unit (lines (ascii ''0::/system.slice/auto-server.service''))
    = (Some (ascii ''auto-server.service''), False)"
  by (simp add: lines_def starts_with_def ends_with_def strip_suffix_def Let_def)

lemma sample_newer: "is_newer_version (ascii ''0.5.0'') (ascii ''v1.0'')"
  by (simp add: is_newer_version_def split_version_def trim_start_matches_def part_val_def
      parse_uint_def is_digit_def between_def Let_def upt_rec)

lemma sample_check:
  "check_and_perform_upgrade (ascii ''0.5.0'') sample_upgrade False \<lparr>exe = ([1], 493), temp = None, commands = []\<rparr>
   = (Inr True, \<lparr>exe = ([7, 7], 493), temp = None,
        commands = [[ascii ''systemctl'', ascii ''restart'', ascii ''--no-block'', ascii ''auto-server.service'']]\<rparr>)"
  using sample_unit sample_newer
  by (simp add: check_and_perform_upgrade_def sample_upgrade_def replace_binary_def
      restart_via_systemd_def systemctl_command_def Let_def)

theorem upgrade_all_or_nothing_witness:
  "\<exists>w'. check_and_perform_upgrade (ascii ''0.5.0'') sample_upgrade False
      \<lparr>exe = ([1], 493), temp = None, commands = []\<rparr> = (Inr True, w')
    \<and> temp w' = None \<and> (\<exists>binary. exe w' = (binary, 493))"
  using sample_check upgrade_all_or_nothing [OF sample_check]
  by (auto simp: sample_upgrade_def)

text \<open>
  After an upgrade the process ends with exit code 0 even when systemd refused the restart. The unit
  that \<open>service install\<close> writes has \<open>Restart=on-failure\<close>, for which an exit with code 0 is no failure.
\<close>

lemma upgrade_exits_without_restart:
  "fst (restart_via_systemd sample_upgrade w) = Inl ''systemctl restart failed''
   \<and> fst (run_upgrade_loop (ascii ''0.5.0'') False [sample_upgrade]
        \<lparr>exe = ([1], 493), temp = None, commands = []\<rparr>)"
  using sample_unit sample_check
  by (simp add: restart_via_systemd_def sample_upgrade_def Let_def)

end
