(* ===== verification/ServerTests.thy ===== *)
theory ServerTests
  imports SocksWire Config Upgrade
begin

text \<open>
  The unit tests of \<open>src/server.rs\<close>, \<open>src/config.rs\<close> and \<open>src/upgrade.rs\<close>, read on the model: each test
  function is the conjunction of its assertions, and the lemma of its name shows that the model
  satisfies it.
\<close>

section \<open>Wire formats of \<open>server.rs\<close>\<close>

definition detects_protocol_by_first_bytes :: bool where
  "detects_protocol_by_first_bytes \<longleftrightarrow>
     detect_protocol [0x05, 0x01] = Some Socks5
     \<and> detect_protocol [0x04, 0x01] = Some Socks4
     \<and> detect_protocol (ascii ''CONNECT example.com:443 HTTP/1.1'' @ [13, 10]) = Some HttpConnect
     \<and> detect_protocol (ascii ''GET / HTTP/1.1'' @ [13, 10]) = None"

definition parses_connect_authority :: bool where
  "parses_connect_authority \<longleftrightarrow>
     parse_authority (ascii ''127.0.0.1:8080'') = Inr (Ip (V4 (v4 127 0 0 1)), 8080)
     \<and> parse_authority (ascii ''[::1]:443'') = Inr (Ip (V6 1), 443)
     \<and> (case parse_authority (ascii ''example.com:8443'') of
          Inr (_, port) \<Rightarrow> port = 8443 | Inl _ \<Rightarrow> False)"

definition parses_and_builds_socks5_udp_packets :: bool where
  "parses_and_builds_socks5_udp_packets \<longleftrightarrow>
     parse_socks5_udp_request
       ([0x00, 0x00, 0x00, 0x03, 0x0b] @ ascii ''example.com'' @ [0x01, 0xbb, 0xde, 0xad, 0xbe, 0xef])
       = Inr (Name (ascii ''example.com''), 443, [0xde, 0xad, 0xbe, 0xef], 0)
     \<and> (case parse_ip (ascii ''1.2.3.4'') of
          None \<Rightarrow> False
        | Some ip \<Rightarrow>
            let response = build_socks5_udp_response (SocketAddr ip 5300) [0xaa, 0xbb] in
            take 4 response = [0x00, 0x00, 0x00, 0x01]
            \<and> take 4 (drop 4 response) = [1, 2, 3, 4]
            \<and> take 2 (drop 8 response) = be_bytes 2 (5300 :: u16)
            \<and> drop 10 response = [0xaa, 0xbb])"

definition blocked_samples :: "ipaddr list" where
  "blocked_samples =
     [V4 (v4 0 0 0 0), V4 (v4 0 1 2 3), V4 (v4 10 0 0 1), V4 (v4 100 64 0 1), V4 (v4 100 127 255 255),
      V4 (v4 127 0 0 1), V4 (v4 169 254 1 1), V4 (v4 172 16 0 1), V4 (v4 192 0 0 0), V4 (v4 192 0 0 170),
      V4 (v4 192 0 2 1), V4 (v4 192 168 1 1), V4 (v4 198 18 0 1), V4 (v4 198 51 100 1), V4 (v4 203 0 113 1),
      V4 (v4 224 0 0 1), V4 (v4 240 0 0 1), V4 (v4 255 255 255 255),
      V6 1, V6 0,
      V6 0xfc000000000000000000000000000001, V6 0xfe800000000000000000000000000001,
      V6 0xff020000000000000000000000000001, V6 0x20010db8000000000000000000000001]"

definition allowed_samples :: "ipaddr list" where
  "allowed_samples =
     [V4 (v4 8 8 8 8), V4 (v4 1 1 1 1), V4 (v4 100 63 255 255), V4 (v4 100 128 0 0), V4 (v4 192 1 2 3),
      V6 0x26064700000000000000000000000001]"

definition test_is_rfc6890_special :: bool where
  "test_is_rfc6890_special \<longleftrightarrow>
     list_all is_rfc6890_special blocked_samples
     \<and> list_all (\<lambda>ip. \<not> is_rfc6890_special ip) allowed_samples"

lemma detects_protocol_by_first_bytes: detects_protocol_by_first_bytes
  by (simp add: detects_protocol_by_first_bytes_def detect_protocol_def starts_with_def)

lemma dec_ports: "dec 443 = ascii ''443''" "dec 8080 = ascii ''8080''" "dec 8443 = ascii ''8443''"
  by (simp_all add: dec.simps)

text \<open>Authorities of the tests, shared with the tests of \<open>masque.rs\<close>.\<close>

lemma sample_addresses:
  "parse_ip (ascii ''127.0.0.1'') = Some (V4 (v4 127 0 0 1))"
  "parse_ip (ascii ''::1'') = Some (V6 1)"
  "parse_ip (ascii ''1.2.3.4'') = Some (V4 (v4 1 2 3 4))"
  "parse_ip (ascii ''example.com'') = None"
  by (simp_all add: ip_parser_defs parse_simps v4_def upt_rec)

lemma sample_authorities:
  "parse_authority (ascii ''127.0.0.1:8080'') = Inr (Ip (V4 (v4 127 0 0 1)), 8080)"
  "parse_authority (ascii ''127.0.0.1:8443'') = Inr (Ip (V4 (v4 127 0 0 1)), 8443)"
  "parse_authority (ascii ''[::1]:443'') = Inr (Ip (V6 1), 443)"
  "parse_authority (ascii ''example.com:8443'') = Inr (Name (ascii ''example.com''), 8443)"
  using parse_authority_unbracketed [of "ascii ''127.0.0.1''" 8080]
    parse_authority_unbracketed [of "ascii ''127.0.0.1''" 8443]
    parse_authority_bracketed [of "ascii ''::1''" "V6 1" 443]
    parse_authority_unbracketed [of "ascii ''example.com''" 8443]
    sample_addresses
  by (simp_all add: starts_with_def dec_ports)

lemma parses_connect_authority: parses_connect_authority
  unfolding parses_connect_authority_def sample_authorities by simp

lemma parses_and_builds_socks5_udp_packets: parses_and_builds_socks5_udp_packets
  using sample_addresses(3)
  by (simp add: parses_and_builds_socks5_udp_packets_def build_socks5_udp_response_def v4_def
      parse_socks5_udp_request_def parse_socks5_host_from_bytes_def get_range_def get_from_def
      octets4_def be_bytes_def be_val_def upt_rec from_utf8_def)

lemma test_is_rfc6890_special: test_is_rfc6890_special
  by (simp add: test_is_rfc6890_special_def blocked_samples_def allowed_samples_def v4_def be_val_def
      is_rfc6890_special_v4_def is_rfc6890_special_v6_def octets4_nth is_loopback_v4_def is_private_v4_def
      is_link_local_v4_def is_multicast_v4_def is_documentation_v4_def is_unique_local_v6_def
      is_unicast_link_local_v6_def is_multicast_v6_def segment6_def octets6_def be_bytes_def upt_rec Let_def)
    (simp add: word_le_nat_alt)

section \<open>Configuration\<close>

text \<open>What the argument lists of the tests of \<open>config.rs\<close> stand for: no arguments are the defaults,
  \<open>H3_ARGS\<close> and \<open>--disable http\<close> set the options they name.\<close>

definition h3_args :: "app_config \<Rightarrow> app_config" where
  "h3_args c = c\<lparr>enable := Some H3, key := Some (ascii ''key.pem''),
     cert_chain := Some (ascii ''cert.pem''), auth_token := Some (ascii ''s3cr3t'')\<rparr>"

definition disable_http :: "app_config \<Rightarrow> app_config" where
  "disable_http c = c\<lparr>disable := Some Http\<rparr>"

definition tcp_proxy_runs_unless_disabled :: bool where
  "tcp_proxy_runs_unless_disabled \<longleftrightarrow>
     run_tcp_proxy default_config \<and> run_tcp_proxy (h3_args default_config)
     \<and> \<not> run_tcp_proxy (disable_http default_config)"

definition validate_rejects_disable_http_without_enable_h3 :: bool where
  "validate_rejects_disable_http_without_enable_h3 \<longleftrightarrow>
     (case validate (disable_http default_config) of
        Inl message \<Rightarrow> contains (ascii ''--enable h3'') (ascii message) | Inr _ \<Rightarrow> False)"

definition validate_accepts_disable_http_with_enable_h3 :: bool where
  "validate_accepts_disable_http_with_enable_h3 \<longleftrightarrow>
     validate (disable_http (h3_args default_config)) = Inr ()"

definition validate_accepts_configs_that_listen_on_something :: bool where
  "validate_accepts_configs_that_listen_on_something \<longleftrightarrow>
     validate default_config = Inr () \<and> validate (h3_args default_config) = Inr ()"

lemmas config_defs = default_config_def h3_args_def disable_http_def run_tcp_proxy_def validate_def

lemma tcp_proxy_runs_unless_disabled: tcp_proxy_runs_unless_disabled
  by (simp add: tcp_proxy_runs_unless_disabled_def config_defs)

lemma validate_rejects_disable_http_without_enable_h3: validate_rejects_disable_http_without_enable_h3
  by (simp add: validate_rejects_disable_http_without_enable_h3_def config_defs contains_def
      starts_with_def)

lemma validate_accepts_disable_http_with_enable_h3: validate_accepts_disable_http_with_enable_h3
  by (simp add: validate_accepts_disable_http_with_enable_h3_def config_defs)

lemma validate_accepts_configs_that_listen_on_something: validate_accepts_configs_that_listen_on_something
  by (simp add: validate_accepts_configs_that_listen_on_something_def config_defs)

section \<open>Intervals and versions\<close>

definition test_parse_interval :: bool where
  "test_parse_interval \<longleftrightarrow>
     parse_interval (ascii ''1h'') = Inr 3600
     \<and> parse_interval (ascii ''24h'') = Inr (24 * 3600)
     \<and> parse_interval (ascii ''3d'') = Inr (3 * 86400)
     \<and> parse_interval (ascii ''1w'') = Inr (7 * 86400)
     \<and> parse_interval (ascii ''1m'') = Inr (30 * 86400)
     \<and> parse_interval (ascii ''2m'') = Inr (60 * 86400)
     \<and> parse_interval (ascii ''30m'') = Inr (30 * 30 * 86400)
     \<and> (case parse_interval (ascii ''0h'') of Inl _ \<Rightarrow> True | Inr _ \<Rightarrow> False)"

definition test_is_newer_version :: bool where
  "test_is_newer_version \<longleftrightarrow>
     is_newer_version (ascii ''0.1.0'') (ascii ''0.1.1'')
     \<and> is_newer_version (ascii ''0.1.0'') (ascii ''1.0.0'')
     \<and> is_newer_version (ascii ''v0.1.0'') (ascii ''v0.2.0'')
     \<and> is_newer_version (ascii ''v0.1.0'') (ascii ''0.1.1'')
     \<and> \<not> is_newer_version (ascii ''0.1.1'') (ascii ''0.1.1'')
     \<and> \<not> is_newer_version (ascii ''0.1.1'') (ascii ''0.1.0'')
     \<and> \<not> is_newer_version (ascii ''v1.0.0'') (ascii ''v0.9.9'')
     \<and> is_newer_version (ascii ''0.1.0-beta1'') (ascii ''0.1.0-rc1'')
     \<and> is_newer_version (ascii ''0.1.0-beta1'') (ascii ''0.1.0'')
     \<and> \<not> is_newer_version (ascii ''0.1.0'') (ascii ''0.1.0-beta1'')
     \<and> is_newer_version (ascii ''0.1.0-rc1'') (ascii ''0.1.1-beta1'')
     \<and> \<not> is_newer_version (ascii ''0.1.1-beta1'') (ascii ''0.1.0-rc1'')"

lemmas interval_defs = parse_interval_def trim_def trim_start.simps trim_end.simps ws_suffix_len_def
  between_def split_last_char_def cont_def parse_uint_def is_digit_def Let_def

lemma test_parse_interval: test_parse_interval
  unfolding test_parse_interval_def
  by (intro conjI) (simp_all add: interval_defs)

lemmas version_defs = is_newer_version_def split_version_def trim_start_matches_def part_val_def
  parse_uint_def is_digit_def between_def upt_rec Let_def

lemma test_is_newer_version: test_is_newer_version
  unfolding test_is_newer_version_def
  by (intro conjI) (simp_all add: version_defs parse_simps)

end
