(* ===== verification/MasqueTests.thy ===== *)
theory MasqueTests
  imports MasqueRequest ServerTests
begin

text \<open>
  The unit tests of \<open>src/masque.rs\<close>, read on the model: each test function is the conjunction of its
  assertions, and the lemma of its name shows that the model satisfies it. A URI of a test is given by
  its authority and its path, as the \<open>http\<close> package splits it; percent-decoding, header text and base64
  are the package functions of \<open>libs\<close>, and what the tests rely on of them is \<open>reads_samples\<close>.
\<close>

section \<open>Requests of the tests\<close>

definition PROXY :: str where
  "PROXY = ascii ''proxy.example.com:443''"

definition udp_path :: "str \<Rightarrow> str \<Rightarrow> str \<times> str" where
  "udp_path host port =
     (PROXY, ascii ''/.well-known/masque/udp/'' @ host @ ascii ''/'' @ port @ ascii ''/'')"

definition test_headers :: "bool \<Rightarrow> str option \<Rightarrow> (str \<times> byte list) list" where
  "test_headers with_capsule auth =
     (if with_capsule then [(ascii ''capsule-protocol'', ascii ''?1'')] else [])
     @ (case auth of Some a \<Rightarrow> [(ascii ''proxy-authorization'', a)] | None \<Rightarrow> [])"

definition connect_udp_request :: "str \<times> str \<Rightarrow> bool \<Rightarrow> str option \<Rightarrow> request" where
  "connect_udp_request uri with_capsule auth =
     \<lparr>rq_method = ascii ''CONNECT'', rq_protocol = Some ConnectUdp, rq_path = snd uri,
      rq_authority = Some (fst uri), rq_headers = test_headers with_capsule auth\<rparr>"

definition connect_ip_request :: "str \<times> str \<Rightarrow> bool \<Rightarrow> str option \<Rightarrow> request" where
  "connect_ip_request uri with_capsule auth =
     \<lparr>rq_method = ascii ''CONNECT'', rq_protocol = None, rq_path = snd uri,
      rq_authority = Some (fst uri), rq_headers = test_headers with_capsule auth\<rparr>"

definition tcp_connect_request :: "str \<Rightarrow> str option \<Rightarrow> request" where
  "tcp_connect_request authority auth =
     \<lparr>rq_method = ascii ''CONNECT'', rq_protocol = None, rq_path = ascii ''/'',
      rq_authority = Some authority, rq_headers = test_headers False auth\<rparr>"

definition bearer :: "str option" where
  "bearer = Some (ascii ''Bearer s3cr3t'')"

definition token :: "str option" where
  "token = Some (ascii ''s3cr3t'')"

text \<open>\<open>encode\<close> is the standard base64 encoder.\<close>

definition basic :: "(byte list \<Rightarrow> str) \<Rightarrow> string \<Rightarrow> str option" where
  "basic encode credential = Some (ascii ''Basic '' @ encode (ascii credential))"

definition reads_samples :: "libs \<Rightarrow> (byte list \<Rightarrow> str) \<Rightarrow> bool" where
  "reads_samples l encode \<longleftrightarrow>
     (\<forall>s. (\<forall>b\<in>set s. 32 \<le> b \<and> b \<le> 126) \<longrightarrow> to_str l s = Some s)
     \<and> (\<forall>s. base64_decode l (encode s) = Some s \<and> (\<forall>b\<in>set (encode s). 33 \<le> b \<and> b \<le> 126))
     \<and> (\<forall>s. 37 \<notin> set s \<longrightarrow> utf8_valid s \<longrightarrow> percent_decode_utf8 l s = Some s)
     \<and> percent_decode_utf8 l (ascii ''2001%3Adb8%3A%3A1'') = Some (ascii ''2001:db8::1'')"

section \<open>The target of a path\<close>

definition parse_target_domain_ipv4_and_ipv6 :: "libs \<Rightarrow> bool" where
  "parse_target_domain_ipv4_and_ipv6 l \<longleftrightarrow>
     parse_target l (connect_udp_request (udp_path (ascii ''example.com'') (ascii ''8443'')) True None)
       = Some (Name (ascii ''example.com''), 8443)
     \<and> parse_target l (connect_udp_request (udp_path (ascii ''192.0.2.6'') (ascii ''443'')) True None)
       = map_option (\<lambda>ip. (Ip ip, 443)) (parse_ip (ascii ''192.0.2.6''))
     \<and> parse_target l (connect_udp_request (udp_path (ascii ''2001%3Adb8%3A%3A1'') (ascii ''443'')) True None)
       = map_option (\<lambda>ip. (Ip ip, 443)) (parse_ip (ascii ''2001:db8::1''))
     \<and> parse_target l (connect_udp_request (udp_path (ascii ''2001:db8::1'') (ascii ''443'')) True None)
       = map_option (\<lambda>ip. (Ip ip, 443)) (parse_ip (ascii ''2001:db8::1''))
     \<and> parse_target l (connect_udp_request (udp_path (ascii ''[2001:db8::1]'') (ascii ''443'')) True None)
       = map_option (\<lambda>ip. (Ip ip, 443)) (parse_ip (ascii ''2001:db8::1''))
     \<and> parse_ip (ascii ''192.0.2.6'') \<noteq> None \<and> parse_ip (ascii ''2001:db8::1'') \<noteq> None"

definition parse_target_rejects_bad_prefix :: "libs \<Rightarrow> bool" where
  "parse_target_rejects_bad_prefix l \<longleftrightarrow>
     list_all (\<lambda>bad. parse_target l (connect_udp_request (PROXY, bad) True None) = None)
       [ascii ''/.well-known/masque/udp'', ascii ''/.well-known/masque/tcp/example.com/443/'',
        ascii ''/masque/udp/example.com/443/'', ascii ''/.well-known/masque/udpx/example.com/443/'',
        ascii ''/'', ascii '''']"

definition parse_target_rejects_bad_or_missing_port :: "libs \<Rightarrow> bool" where
  "parse_target_rejects_bad_or_missing_port l \<longleftrightarrow>
     list_all (\<lambda>uri. parse_target l (connect_udp_request uri True None) = None)
       [udp_path (ascii ''example.com'') (ascii ''https''),
        udp_path (ascii ''example.com'') (ascii ''65536''),
        (PROXY, ascii ''/.well-known/masque/udp/example.com''),
        (PROXY, ascii ''/.well-known/masque/udp/example.com/''),
        udp_path [] (ascii ''443'')]"

definition parse_target_tolerates_trailing_slash_variants :: "libs \<Rightarrow> bool" where
  "parse_target_tolerates_trailing_slash_variants l \<longleftrightarrow>
     list_all (\<lambda>path. parse_target l (connect_udp_request (PROXY, path) True None)
         = Some (Name (ascii ''example.com''), 8443))
       [ascii ''/.well-known/masque/udp/example.com/8443/'', ascii ''/.well-known/masque/udp/example.com/8443'']"

definition parse_target_ignores_authority :: "libs \<Rightarrow> bool" where
  "parse_target_ignores_authority l \<longleftrightarrow>
     parse_target l (connect_udp_request
         (ascii ''192.0.2.6:443'', ascii ''/.well-known/masque/udp/example.com/8443/'') True None)
       = Some (Name (ascii ''example.com''), 8443)
     \<and> parse_target l (connect_udp_request (ascii ''example.com:8443'', ascii ''/'') True None) = None"

text \<open>The segments of the template paths of the tests, which all go through the library's decoder.\<close>

lemma sample_ips: "parse_ip (ascii ''192.0.2.6'') = Some (V4 0xC0000206)"
  "parse_ip (ascii ''2001:db8::1'') = Some (V6 0x20010db8000000000000000000000001)"
  by (simp_all add: ip_parser_defs parse_simps upt_rec)

lemma decoded_segments:
  assumes "reads_samples l encode"
  shows "percent_decode_utf8 l (ascii ''example.com'') = Some (ascii ''example.com'')"
    "percent_decode_utf8 l (ascii ''192.0.2.6'') = Some (ascii ''192.0.2.6'')"
    "percent_decode_utf8 l (ascii ''2001:db8::1'') = Some (ascii ''2001:db8::1'')"
    "percent_decode_utf8 l (ascii ''[2001:db8::1]'') = Some (ascii ''[2001:db8::1]'')"
    "percent_decode_utf8 l (ascii ''2001%3Adb8%3A%3A1'') = Some (ascii ''2001:db8::1'')"
  using assms utf8_valid_ascii
  by (simp_all add: reads_samples_def)

lemmas target_defs = parse_target_def parse_target_host_def connect_udp_request_def udp_path_def
  MASQUE_UDP_PATH_PREFIX_def parse_u16_def parse_uint_def is_digit_def between_def strip_suffix_def

lemma parse_target_domain_ipv4_and_ipv6:
  "reads_samples l encode \<Longrightarrow> parse_target_domain_ipv4_and_ipv6 l"
  using decoded_segments [of l encode] sample_ips sample_addresses(4)
  by (simp add: parse_target_domain_ipv4_and_ipv6_def target_defs)

lemma parse_target_rejects_bad_prefix: "parse_target_rejects_bad_prefix l"
  by (simp add: parse_target_rejects_bad_prefix_def target_defs)

lemma parse_target_rejects_bad_or_missing_port: "parse_target_rejects_bad_or_missing_port l"
  by (simp add: parse_target_rejects_bad_or_missing_port_def target_defs)

lemma parse_target_tolerates_trailing_slash_variants:
  "reads_samples l encode \<Longrightarrow> parse_target_tolerates_trailing_slash_variants l"
  using decoded_segments [of l encode] sample_addresses(4)
  by (simp add: parse_target_tolerates_trailing_slash_variants_def target_defs)

lemma parse_target_ignores_authority: "reads_samples l encode \<Longrightarrow> parse_target_ignores_authority l"
  using decoded_segments [of l encode] sample_addresses(4)
  by (simp add: parse_target_ignores_authority_def target_defs)

section \<open>Authorisation\<close>

definition auth_header_accepts_bearer_and_basic :: "libs \<Rightarrow> (byte list \<Rightarrow> str) \<Rightarrow> bool" where
  "auth_header_accepts_bearer_and_basic l encode \<longleftrightarrow>
     list_all (\<lambda>auth. check_proxy_auth l
         (connect_udp_request (udp_path (ascii ''example.com'') (ascii ''443'')) True auth) token)
       [bearer, basic encode ''user:s3cr3t'', basic encode ''s3cr3t'']"

definition auth_header_rejects_wrong_or_missing :: "libs \<Rightarrow> (byte list \<Rightarrow> str) \<Rightarrow> bool" where
  "auth_header_rejects_wrong_or_missing l encode \<longleftrightarrow>
     list_all (\<lambda>(auth, configured). \<not> check_proxy_auth l
         (connect_udp_request (udp_path (ascii ''example.com'') (ascii ''443'')) True auth) configured)
       [(Some (ascii ''Bearer wrong''), token), (basic encode ''user:nope'', token), (None, token),
        (Some (ascii ''Bearer x''), None)]"

lemma trim_word: "\<forall>b\<in>set w. 33 \<le> b \<and> b \<le> (126 :: byte) \<Longrightarrow> trim w = w"
  by (rule trim_ascii) (auto simp: between_def word_le_nat_alt word_less_nat_alt)

lemma sample_header:
  "header ''proxy-authorization'' (connect_udp_request uri c auth) = auth"
  "header ''proxy-authorization'' (connect_ip_request uri c auth) = auth"
  "header ''proxy-authorization'' (tcp_connect_request a auth) = auth"
  "header ''capsule-protocol'' (connect_udp_request uri c auth) = (if c then Some (ascii ''?1'') else None)"
  "header ''capsule-protocol'' (connect_ip_request uri c auth) = (if c then Some (ascii ''?1'') else None)"
  by (auto simp: header_def connect_udp_request_def connect_ip_request_def tcp_connect_request_def
      test_headers_def split: option.split)

lemma bearer_credentials:
  assumes "reads_samples l encode" and "header ''proxy-authorization'' req = Some (ascii ''Bearer '' @ t')"
    and "\<forall>b\<in>set t'. 33 \<le> b \<and> b \<le> 126"
  shows "check_proxy_auth l req (Some t) = (t' = t)"
proof -
  have "33 \<le> b \<Longrightarrow> 32 \<le> b" for b :: byte by (simp add: word_le_nat_alt)
  then have "\<forall>b\<in>set (ascii ''Bearer '' @ t'). 32 \<le> b \<and> b \<le> 126" using assms(3) by auto
  then have "to_str l (ascii ''Bearer '' @ t') = Some (ascii ''Bearer '' @ t')"
    using assms(1) unfolding reads_samples_def by blast
  with assms(2) trim_word [OF assms(3)] show ?thesis
    by (simp add: check_proxy_auth_def del: ascii_simps)
qed

lemma basic_credentials:
  assumes "reads_samples l encode" and "header ''proxy-authorization'' req = basic encode cred"
    and "\<forall>b\<in>set (ascii cred). b < 0x80"
  shows "check_proxy_auth l req (Some t) =
    (case split_once 58 (ascii cred) of Some (_, pass) \<Rightarrow> pass = t | None \<Rightarrow> ascii cred = t)"
proof -
  let ?e = "encode (ascii cred)"
  have e: "\<forall>b\<in>set ?e. 33 \<le> b \<and> b \<le> 126" and d: "base64_decode l ?e = Some (ascii cred)"
    using assms(1) unfolding reads_samples_def by blast+
  have "33 \<le> b \<Longrightarrow> 32 \<le> b" for b :: byte by (simp add: word_le_nat_alt)
  then have "\<forall>b\<in>set (ascii ''Basic '' @ ?e). 32 \<le> b \<and> b \<le> 126" using e by auto
  then have "to_str l (ascii ''Basic '' @ ?e) = Some (ascii ''Basic '' @ ?e)"
    using assms(1) unfolding reads_samples_def by blast
  moreover have "strip_prefix (ascii ''Bearer '') (ascii ''Basic '' @ ?e) = None" by simp
  ultimately show ?thesis using assms(2) trim_word [OF e] d utf8_valid_ascii [OF assms(3)]
    by (simp add: check_proxy_auth_def basic_def from_utf8_def del: ascii_simps)
qed

lemma no_credentials: "header ''proxy-authorization'' req = None \<Longrightarrow> \<not> check_proxy_auth l req t"
  by (simp add: check_proxy_auth_def split: option.split)

lemma bearer_accepted:
  assumes "reads_samples l encode" and "header ''proxy-authorization'' req = bearer"
  shows "check_proxy_auth l req token"
  using bearer_credentials [OF assms(1), of req "ascii ''s3cr3t''" "ascii ''s3cr3t''"] assms(2)
  by (simp add: bearer_def token_def)

lemma bearer_refused:
  assumes "reads_samples l encode" and "header ''proxy-authorization'' req = Some (ascii ''Bearer '' @ w)"
    and "\<forall>b\<in>set w. 33 \<le> b \<and> b \<le> 126" and "w \<noteq> ascii ''s3cr3t''"
  shows "\<not> check_proxy_auth l req token"
  using bearer_credentials [OF assms(1-3)] assms(4) by (simp add: token_def del: ascii_simps)

lemma auth_header_accepts_bearer_and_basic:
  assumes "reads_samples l encode"
  shows "auth_header_accepts_bearer_and_basic l encode"
  unfolding auth_header_accepts_bearer_and_basic_def list_all_iff
  using bearer_accepted [OF assms] basic_credentials [OF assms]
  by (simp add: sample_header token_def split_once_def)

lemma auth_header_rejects_wrong_or_missing:
  assumes "reads_samples l encode"
  shows "auth_header_rejects_wrong_or_missing l encode"
proof -
  let ?req = "connect_udp_request (udp_path (ascii ''example.com'') (ascii ''443'')) True"
  have "\<not> check_proxy_auth l (?req (Some (ascii ''Bearer wrong''))) token"
    by (rule bearer_refused [OF assms, where w = "ascii ''wrong''"]) (simp_all add: sample_header)
  moreover have "\<not> check_proxy_auth l (?req (basic encode ''user:nope'')) token"
    unfolding token_def
    by (subst basic_credentials [OF assms, where cred = "''user:nope''"])
       (simp_all add: sample_header split_once_def)
  moreover have "\<not> check_proxy_auth l (?req None) token"
    by (rule no_credentials) (simp add: sample_header)
  moreover have "\<not> check_proxy_auth l (?req (Some (ascii ''Bearer x''))) None"
    by (simp add: check_proxy_auth_def)
  ultimately show ?thesis by (simp only: auth_header_rejects_wrong_or_missing_def) simp
qed

section \<open>Validation\<close>

definition with_get :: "request \<Rightarrow> request" where
  "with_get req = req\<lparr>rq_method := ascii ''GET''\<rparr>"

definition validate_connect_udp_accepts_and_rejects :: "libs \<Rightarrow> bool" where
  "validate_connect_udp_accepts_and_rejects l \<longleftrightarrow>
     (let uri = udp_path (ascii ''example.com'') (ascii ''443'');
          req = connect_udp_request uri True bearer in
      validate_connect_udp l req token = Inr (Name (ascii ''example.com''), 443)
      \<and> validate_connect_udp l (with_get req) token = Inl METHOD_NOT_ALLOWED
      \<and> validate_connect_udp l (connect_udp_request uri False bearer) token = Inl BAD_REQUEST
      \<and> validate_connect_udp l
           (connect_udp_request (udp_path (ascii ''example.com'') (ascii ''http'')) True bearer) token
         = Inl BAD_REQUEST
      \<and> validate_connect_udp l (connect_udp_request uri True None) token = Inl PROXY_AUTHENTICATION_REQUIRED
      \<and> validate_connect_udp l (req\<lparr>rq_protocol := None\<rparr>) token = Inl NOT_IMPLEMENTED)"

definition connect_ip_path_detection :: bool where
  "connect_ip_path_detection \<longleftrightarrow>
     is_connect_ip_path (ascii ''/.well-known/masque/ip/'')
     \<and> is_connect_ip_path (ascii ''/.well-known/masque/ip'')
     \<and> is_connect_ip_path (ascii ''/.well-known/masque/ip/foo'')
     \<and> \<not> is_connect_ip_path (ascii ''/.well-known/masque/udp/1.2.3.4/53/'')
     \<and> \<not> is_connect_ip_path (ascii ''/.well-known/masque/ipx/'')"

definition validate_connect_ip_accepts_and_rejects :: "libs \<Rightarrow> bool" where
  "validate_connect_ip_accepts_and_rejects l \<longleftrightarrow>
     (let uri = (PROXY, ascii ''/.well-known/masque/ip/'');
          req = connect_ip_request uri True bearer in
      validate_connect_ip l req token = Inr ()
      \<and> validate_connect_ip l (with_get req) token = Inl METHOD_NOT_ALLOWED
      \<and> validate_connect_ip l (connect_ip_request uri False bearer) token = Inl BAD_REQUEST
      \<and> validate_connect_ip l
           (connect_ip_request (PROXY, ascii ''/.well-known/masque/udp/1.2.3.4/53/'') True bearer) token
         = Inl BAD_REQUEST
      \<and> validate_connect_ip l (connect_ip_request uri True None) token = Inl PROXY_AUTHENTICATION_REQUIRED
      \<and> validate_connect_ip l (connect_ip_request uri True (Some (ascii ''Bearer nope''))) token
         = Inl PROXY_AUTHENTICATION_REQUIRED
      \<and> validate_connect_ip l (req\<lparr>rq_protocol := Some ConnectUdp\<rparr>) token = Inl NOT_IMPLEMENTED)"

definition h3_accepts_arbitrary_protocols_connect_ip_and_websocket :: bool where
  "h3_accepts_arbitrary_protocols_connect_ip_and_websocket \<longleftrightarrow>
     list_all (\<lambda>s. protocol_from_str (ascii s) \<noteq> None)
       [''connect-ip'', ''websocket'', ''webtransport'', ''connect-udp'']
     \<and> map_option as_str (protocol_from_str (ascii ''connect-ip'')) = Some (ascii ''connect-ip'')
     \<and> map_option as_str (protocol_from_str (ascii ''websocket'')) = Some (ascii ''websocket'')
     \<and> protocol_from_str [] = None"

definition connect_ip_protocol_extension_reaches_validation :: "libs \<Rightarrow> bool" where
  "connect_ip_protocol_extension_reaches_validation l \<longleftrightarrow>
     (let req = connect_ip_request (PROXY, ascii ''/.well-known/masque/ip/'') True bearer in
      case protocol_from_str (ascii ''connect-ip'') of
        None \<Rightarrow> False
      | Some proto \<Rightarrow> validate_connect_ip l (req\<lparr>rq_protocol := Some proto\<rparr>) token = Inr ())"

definition validate_tcp_connect_accepts_plain_connect :: "libs \<Rightarrow> bool" where
  "validate_tcp_connect_accepts_plain_connect l \<longleftrightarrow>
     map_option (\<lambda>ip. Inr (Ip ip, 8443)) (parse_ip (ascii ''127.0.0.1''))
       = Some (validate_tcp_connect l (tcp_connect_request (ascii ''127.0.0.1:8443'') bearer) token)
     \<and> validate_tcp_connect l (tcp_connect_request (ascii ''example.com:8443'') bearer) token
       = Inr (Name (ascii ''example.com''), 8443)"

definition validate_tcp_connect_target_parsing_ipv4_ipv6_hostname :: "libs \<Rightarrow> bool" where
  "validate_tcp_connect_target_parsing_ipv4_ipv6_hostname l \<longleftrightarrow>
     map_option (\<lambda>ip. Inr (Ip ip, 443)) (parse_ip (ascii ''::1''))
       = Some (validate_tcp_connect l (tcp_connect_request (ascii ''[::1]:443'') bearer) token)
     \<and> map_option (\<lambda>ip. Inr (Ip ip, 443)) (parse_ip (ascii ''::1''))
       = Some (parse_authority (ascii ''::1:443''))"

definition validate_tcp_connect_missing_port_rejected_400 :: "libs \<Rightarrow> bool" where
  "validate_tcp_connect_missing_port_rejected_400 l \<longleftrightarrow>
     list_all (\<lambda>a. validate_tcp_connect l (tcp_connect_request a bearer) token = Inl BAD_REQUEST)
       [ascii ''example.com'', ascii ''example.com:https'']"

definition validate_tcp_connect_bad_auth_rejected_407 :: "libs \<Rightarrow> bool" where
  "validate_tcp_connect_bad_auth_rejected_407 l \<longleftrightarrow>
     list_all (\<lambda>auth. validate_tcp_connect l (tcp_connect_request (ascii ''127.0.0.1:8443'') auth) token
         = Inl PROXY_AUTHENTICATION_REQUIRED)
       [None, Some (ascii ''Bearer nope'')]"

definition validate_tcp_connect_rejects_any_protocol :: "libs \<Rightarrow> bool" where
  "validate_tcp_connect_rejects_any_protocol l \<longleftrightarrow>
     (let req = tcp_connect_request (ascii ''127.0.0.1:8443'') bearer in
      validate_tcp_connect l (req\<lparr>rq_protocol := Some ConnectUdp\<rparr>) token = Inl NOT_IMPLEMENTED
      \<and> validate_tcp_connect l (req\<lparr>rq_protocol := Some WebTransport\<rparr>) token = Inl NOT_IMPLEMENTED
      \<and> validate_tcp_connect l (with_get req) token = Inl METHOD_NOT_ALLOWED)"

definition parse_authority_round_trips_for_tcp_connect :: bool where
  "parse_authority_round_trips_for_tcp_connect \<longleftrightarrow>
     map_option (\<lambda>ip. Inr (Ip ip, 8080)) (parse_ip (ascii ''127.0.0.1''))
       = Some (parse_authority (ascii ''127.0.0.1:8080''))
     \<and> map_option (\<lambda>ip. Inr (Ip ip, 443)) (parse_ip (ascii ''::1''))
       = Some (parse_authority (ascii ''[::1]:443''))
     \<and> parse_authority (ascii ''example.com:8443'') = Inr (Name (ascii ''example.com''), 8443)
     \<and> (case parse_authority (ascii ''example.com'') of Inl _ \<Rightarrow> True | Inr _ \<Rightarrow> False)
     \<and> (case parse_authority [] of Inl _ \<Rightarrow> True | Inr _ \<Rightarrow> False)"

lemma sample_methods [simp]:
  "is_connect (connect_udp_request uri c auth)" "is_connect (connect_ip_request uri c auth)"
  "is_connect (tcp_connect_request a auth)" "\<not> is_connect (with_get req)"
  "is_connect (req\<lparr>rq_protocol := p\<rparr>) = is_connect req"
  by (simp_all add: is_connect_def connect_udp_request_def connect_ip_request_def
      tcp_connect_request_def with_get_def)

lemma sample_protocols [simp]:
  "rq_protocol (connect_udp_request uri c auth) = Some ConnectUdp"
  "rq_protocol (connect_ip_request uri c auth) = None" "rq_protocol (tcp_connect_request a auth) = None"
  "rq_path (connect_ip_request uri c auth) = snd uri"
  "rq_authority (tcp_connect_request a auth) = Some a"
  "header name (req\<lparr>rq_protocol := p\<rparr>) = header name req"
  by (simp_all add: connect_udp_request_def connect_ip_request_def tcp_connect_request_def header_def)

lemma auth_ignores_protocol [simp]:
  "check_proxy_auth l (req\<lparr>rq_protocol := p\<rparr>) t = check_proxy_auth l req t"
  by (cases t) (simp_all add: check_proxy_auth_def)

lemma nope_refused:
  assumes "reads_samples l encode" and "header ''proxy-authorization'' req = Some (ascii ''Bearer nope'')"
  shows "\<not> check_proxy_auth l req token"
  by (rule bearer_refused [OF assms(1), where w = "ascii ''nope''"]) (simp_all add: assms(2))

lemma validate_connect_udp_accepts_and_rejects:
  assumes "reads_samples l encode"
  shows "validate_connect_udp_accepts_and_rejects l"
proof -
  have "parse_target l (connect_udp_request (udp_path (ascii ''example.com'') (ascii ''443'')) True bearer)
      = Some (Name (ascii ''example.com''), 443)"
    "parse_target l (connect_udp_request (udp_path (ascii ''example.com'') (ascii ''http'')) True bearer) = None"
    using decoded_segments [OF assms] sample_addresses(4) by (simp_all add: target_defs)
  moreover have "\<not> check_proxy_auth l (connect_udp_request uri True None) token" for uri
    by (rule no_credentials) (simp add: sample_header)
  ultimately show ?thesis
    using bearer_accepted [OF assms]
    by (simp add: validate_connect_udp_accepts_and_rejects_def validate_connect_udp_def sample_header Let_def
        del: ascii_simps)
qed

lemma connect_ip_path_detection: connect_ip_path_detection
  by (simp add: connect_ip_path_detection_def is_connect_ip_path_def MASQUE_IP_PATH_def starts_with_def)

lemma validate_connect_ip_accepts_and_rejects:
  assumes "reads_samples l encode"
  shows "validate_connect_ip_accepts_and_rejects l"
proof -
  have "\<not> check_proxy_auth l (connect_ip_request uri True None) token"
    "\<not> check_proxy_auth l (connect_ip_request uri True (Some (ascii ''Bearer nope''))) token" for uri
    by (rule no_credentials, simp add: sample_header) (rule nope_refused [OF assms], simp only: sample_header)
  then show ?thesis
    using bearer_accepted [OF assms] connect_ip_path_detection
    by (simp add: validate_connect_ip_accepts_and_rejects_def validate_connect_ip_def sample_header Let_def
        connect_ip_path_detection_def del: ascii_simps)
qed

lemma h3_accepts_arbitrary_protocols_connect_ip_and_websocket:
  h3_accepts_arbitrary_protocols_connect_ip_and_websocket
  by (simp add: h3_accepts_arbitrary_protocols_connect_ip_and_websocket_def protocol_from_str_def
      as_str_def from_utf8_def)

lemma connect_ip_protocol_extension_reaches_validation:
  assumes "reads_samples l encode"
  shows "connect_ip_protocol_extension_reaches_validation l"
proof -
  have "protocol_from_str (ascii ''connect-ip'') = Some (Other (ascii ''connect-ip''))"
    by (simp add: protocol_from_str_def)
  then show ?thesis
    using bearer_accepted [OF assms] connect_ip_path_detection
    by (simp add: connect_ip_protocol_extension_reaches_validation_def validate_connect_ip_def sample_header
        Let_def connect_ip_path_detection_def del: ascii_simps)
qed

lemma tcp_target:
  assumes "reads_samples l encode"
  shows "validate_tcp_connect l (tcp_connect_request a bearer) token
    = (case parse_authority a of Inl _ \<Rightarrow> Inl BAD_REQUEST | Inr t \<Rightarrow> Inr t)"
  using bearer_accepted [OF assms, of "tcp_connect_request a bearer"]
  by (simp add: validate_tcp_connect_def sample_header authority_target_def)

lemma validate_tcp_connect_accepts_plain_connect:
  assumes "reads_samples l encode"
  shows "validate_tcp_connect_accepts_plain_connect l"
  unfolding validate_tcp_connect_accepts_plain_connect_def tcp_target [OF assms] sample_authorities
    sample_addresses by simp

lemma validate_tcp_connect_target_parsing_ipv4_ipv6_hostname:
  assumes "reads_samples l encode"
  shows "validate_tcp_connect_target_parsing_ipv4_ipv6_hostname l"
proof -
  have "parse_authority (ascii ''::1:443'') = Inr (Ip (V6 1), 443)"
    using parse_authority_unbracketed [of "ascii ''::1''" 443] sample_addresses(2)
    by (simp add: starts_with_def dec_ports)
  then show ?thesis
    unfolding validate_tcp_connect_target_parsing_ipv4_ipv6_hostname_def tcp_target [OF assms]
      sample_authorities sample_addresses by simp
qed

lemma bad_authorities:
  "\<exists>e. parse_authority (ascii ''example.com'') = Inl e" "\<exists>e. parse_authority (ascii ''example.com:https'') = Inl e"
  "\<exists>e. parse_authority [] = Inl e"
  by (simp_all add: parse_authority_def starts_with_def rsplit_once_def parse_u16_def parse_uint_def
      is_digit_def between_def)

lemma validate_tcp_connect_missing_port_rejected_400:
  assumes "reads_samples l encode"
  shows "validate_tcp_connect_missing_port_rejected_400 l"
  using bad_authorities
  by (auto simp: validate_tcp_connect_missing_port_rejected_400_def tcp_target [OF assms] simp del: ascii_simps)

lemma validate_tcp_connect_bad_auth_rejected_407:
  assumes "reads_samples l encode"
  shows "validate_tcp_connect_bad_auth_rejected_407 l"
  using no_credentials [of "tcp_connect_request a None" l token for a]
    nope_refused [OF assms, of "tcp_connect_request a (Some (ascii ''Bearer nope''))" for a]
  by (simp add: validate_tcp_connect_bad_auth_rejected_407_def validate_tcp_connect_def sample_header
      del: ascii_simps)

lemma validate_tcp_connect_rejects_any_protocol: "validate_tcp_connect_rejects_any_protocol l"
  by (simp add: validate_tcp_connect_rejects_any_protocol_def validate_tcp_connect_def)

lemma parse_authority_round_trips_for_tcp_connect: parse_authority_round_trips_for_tcp_connect
  using bad_authorities
  unfolding parse_authority_round_trips_for_tcp_connect_def sample_authorities sample_addresses
  by (auto simp del: ascii_simps)

end
