(* ===== verification/TunPool.thy ===== *)
theory TunPool
  imports TunProps
begin

text \<open>
  The contract of an allocator that never hands anything out twice, and the address pool of
  \<open>src/tun.rs\<close> as an instance of it, for IPv4 and IPv6 pools of any alignment.
\<close>

section \<open>Interface: an allocator\<close>

text \<open>The grants of \<open>n\<close> calls, failures left out.\<close>

fun grants :: "('p \<Rightarrow> (string + 'a) \<times> 'p) \<Rightarrow> nat \<Rightarrow> 'p \<Rightarrow> 'a list" where
  "grants alloc 0 p = []"
| "grants alloc (Suc n) p =
     (case alloc p of (Inl _, p') \<Rightarrow> grants alloc n p' | (Inr a, p') \<Rightarrow> a # grants alloc n p')"

text \<open>
  A grant stands for the resources \<open>uses\<close>; \<open>granted\<close> are those handed out so far. In a well-formed
  pool a grant consists of different, unused resources; a failure changes nothing.
\<close>

locale allocator =
  fixes alloc :: "'p \<Rightarrow> (string + 'a) \<times> 'p"
    and uses :: "'a \<Rightarrow> 'r list"
    and granted :: "'p \<Rightarrow> 'r set"
    and wf :: "'p \<Rightarrow> bool"
  assumes fresh: "wf p \<Longrightarrow> alloc p = (Inr a, p') \<Longrightarrow> distinct (uses a) \<and> set (uses a) \<inter> granted p = {}"
    and granted_Inr: "wf p \<Longrightarrow> alloc p = (Inr a, p') \<Longrightarrow> granted p' = set (uses a) \<union> granted p"
    and wf_Inr: "wf p \<Longrightarrow> alloc p = (Inr a, p') \<Longrightarrow> wf p'"
    and alloc_Inl: "alloc p = (Inl e, p') \<Longrightarrow> p' = p"
begin

lemma grants_disjoint:
  "wf p \<Longrightarrow> distinct (concat (map uses (grants alloc n p)))
     \<and> set (concat (map uses (grants alloc n p))) \<inter> granted p = {}"
proof (induction n arbitrary: p)
  case (Suc n)
  show ?case
  proof (cases "alloc p")
    case (Pair r p')
    show ?thesis
    proof (cases r)
      case (Inl e)
      from alloc_Inl [OF Pair [unfolded Inl]] have "p' = p" .
      with Suc.IH [OF Suc.prems] Pair Inl show ?thesis by simp
    next
      case (Inr a)
      note step = Pair [unfolded Inr]
      from Suc.IH [OF wf_Inr [OF Suc.prems step]] fresh [OF Suc.prems step] granted_Inr [OF Suc.prems step]
      show ?thesis by (auto simp: step)
    qed
  qed
qed simp

end

section \<open>The address pool\<close>

definition pair_of :: "ipaddr \<times> ipaddr \<times> byte \<Rightarrow> ipaddr list" where
  "pair_of g = (case g of (proxy, client, _) \<Rightarrow> [proxy, client])"

text \<open>The first address of an IPv4 pool, rounded down to a /30 boundary.\<close>

definition v4_start :: "u32 \<Rightarrow> u32" where
  "v4_start network = network AND NOT 3"

definition v4_base :: "u32 \<Rightarrow> nat \<Rightarrow> u32" where
  "v4_base network k = v4_start network + of_nat k * 4"

definition v6_base :: "u128 \<Rightarrow> nat \<Rightarrow> u128" where
  "v6_base network k = network + push_bit 64 (of_nat k)"

definition given_out :: "ip_pool \<Rightarrow> ipaddr set" where
  "given_out pool =
     (case net pool of
        NetV4 network _ \<Rightarrow>
          (\<Union>k<unat (v4_blocks pool). {V4 (v4_base network k + 1), V4 (v4_base network k + 2)})
      | NetV6 network _ \<Rightarrow>
          (\<Union>k<unat (v6_blocks pool). {V6 (v6_base network k + 1), V6 (v6_base network k + 2)}))"

text \<open>An IPv4 pool that stays below the last four addresses of all, or an IPv6 pool that is not all of
  the address space; the blocks handed out lie in it.\<close>

definition wf_pool :: "ip_pool \<Rightarrow> bool" where
  "wf_pool pool =
     (case net pool of
        NetV4 network broadcast \<Rightarrow>
          unat (v4_start network) + 4 * unat (v4_blocks pool) \<le> unat broadcast + 1
          \<and> unat broadcast + 4 < 2 ^ 32
      | NetV6 network prefix \<Rightarrow> 1 \<le> prefix)"

lemma unat_v4_base:
  assumes "unat (v4_start network) + 4 * k + j < 2 ^ 32"
  shows "unat (v4_base network k + of_nat j) = unat (v4_start network) + 4 * k + j"
proof -
  have "v4_base network k + of_nat j = of_nat (unat (v4_start network) + 4 * k + j)"
    by (simp add: v4_base_def mult.commute)
  then have "unat (v4_base network k + of_nat j) = (unat (v4_start network) + 4 * k + j) mod 2 ^ 32"
    by (simp only: unat_of_nat) simp
  with assms show ?thesis by simp
qed

lemma ucast_block: "(ucast (b :: u64) :: u32) = of_nat (unat b)"
  by (rule word_unat_eq_iff [THEN iffD2]) (simp add: unat_of_nat unsigned_ucast_eq take_bit_eq_mod)

lemma allocate_v4_Inr:
  assumes "wf_pool pool" and "net pool = NetV4 network broadcast" and "allocate pool = (Inr a, pool')"
  defines "k \<equiv> unat (v4_blocks pool)"
  shows "a = (V4 (v4_base network k + 1), V4 (v4_base network k + 2), 30)"
    and "pool' = pool\<lparr>v4_blocks := v4_blocks pool + 1\<rparr>"
    and "unat (v4_start network) + 4 * k + 3 \<le> unat broadcast"
    and "unat broadcast + 4 < 2 ^ 32"
proof -
  have w: "unat (v4_start network) + 4 * k \<le> unat broadcast + 1" "unat broadcast + 4 < 2 ^ 32"
    using assms(1,2) by (simp_all add: wf_pool_def k_def)
  have base: "(network AND NOT 3) + ucast (v4_blocks pool) * 4 = v4_base network k"
    by (simp only: v4_base_def v4_start_def ucast_block k_def)
  have "\<not> v4_base network k + 3 > broadcast"
    using assms(3) unfolding allocate_def assms(2) ip_net.case Let_def base by (simp split: if_splits)
  then show "unat (v4_start network) + 4 * k + 3 \<le> unat broadcast"
    using unat_v4_base [of network k 3] w by (simp add: word_less_nat_alt)
  show "unat broadcast + 4 < 2 ^ 32" by (rule w(2))
  show "a = (V4 (v4_base network k + 1), V4 (v4_base network k + 2), 30)"
    "pool' = pool\<lparr>v4_blocks := v4_blocks pool + 1\<rparr>"
    using assms(3) unfolding allocate_def assms(2) ip_net.case Let_def base by (auto split: if_splits)
qed

lemma v4_base_differ:
  assumes "unat (v4_start network) + 4 * k + 3 < 2 ^ 32" and "j < k" and "x \<in> {1, 2}" and "y \<in> {1, 2}"
  shows "v4_base network k + of_nat x \<noteq> v4_base network j + of_nat y"
proof
  assume "v4_base network k + of_nat x = v4_base network j + of_nat y"
  then have "unat (v4_base network k + of_nat x) = unat (v4_base network j + of_nat y)" by simp
  with assms show False
    using unat_v4_base [of network k x] unat_v4_base [of network j y] by auto
qed

lemma v6_base_eq: "v6_base network k + of_nat x = network + of_nat (k * 2 ^ 64 + x)"
  by (simp add: v6_base_def push_bit_eq_mult)

lemma v6_base_differ:
  assumes "k < 2 ^ 64" and "j < k" and "x \<in> {1, 2}" and "y \<in> {1, 2}"
  shows "v6_base network k + of_nat x \<noteq> v6_base network j + of_nat y"
proof
  assume "v6_base network k + of_nat x = v6_base network j + of_nat y"
  then have "(of_nat (k * 2 ^ 64 + x) :: u128) = of_nat (j * 2 ^ 64 + y)"
    unfolding v6_base_eq by (simp only: add_left_cancel)
  then have "(k * 2 ^ 64 + x) mod 2 ^ 128 = (j * 2 ^ 64 + y) mod 2 ^ 128"
    by (simp only: word_of_nat_eq_iff) (simp add: take_bit_eq_mod)
  moreover have "k * 2 ^ 64 + x < 2 ^ 128" "j * 2 ^ 64 + y < 2 ^ 128"
    using assms by auto
  ultimately show False using assms(2-4) by auto
qed

lemma ucast_block128: "(ucast (b :: u64) :: u128) = of_nat (unat b)"
  by (rule word_unat_eq_iff [THEN iffD2]) (simp add: unat_of_nat unsigned_ucast_eq take_bit_eq_mod)

lemma allocate_v6_Inr:
  assumes "wf_pool pool" and "net pool = NetV6 network prefix" and "allocate pool = (Inr a, pool')"
  defines "k \<equiv> unat (v6_blocks pool)"
  shows "a = (V6 (v6_base network k + 1), V6 (v6_base network k + 2), 64)"
    and "pool' = pool\<lparr>v6_blocks := v6_blocks pool + 1\<rparr>"
    and "k < 2 ^ 63"
proof -
  have base: "network + push_bit 64 (ucast (v6_blocks pool)) = v6_base network k"
    by (simp only: v6_base_def k_def ucast_block128)
  have p: "prefix \<le> 64" "1 \<le> prefix" "\<not> push_bit (64 - prefix) 1 \<le> (ucast (v6_blocks pool) :: u128)"
    using assms(1,3) unfolding allocate_def wf_pool_def assms(2) ip_net.case Let_def base
    by (auto split: if_splits)
  show "a = (V6 (v6_base network k + 1), V6 (v6_base network k + 2), 64)"
    "pool' = pool\<lparr>v6_blocks := v6_blocks pool + 1\<rparr>"
    using assms(3) unfolding allocate_def assms(2) ip_net.case Let_def base by (auto split: if_splits)
  have "unat (ucast (v6_blocks pool) :: u128) = k"
    using unsigned_less [of "v6_blocks pool", where ?'a = nat]
    unfolding ucast_block128 k_def by (simp add: unat_of_nat del: of_nat_unat)
  moreover have "unat (push_bit (64 - prefix) 1 :: u128) = 2 ^ (64 - prefix)"
  proof -
    have "(2::nat) ^ (64 - prefix) < 2 ^ 128" by (intro power_strict_increasing) auto
    then show ?thesis unfolding unsigned_push_bit_eq by (simp add: take_bit_nat_eq_self_iff)
  qed
  ultimately have "k < 2 ^ (64 - prefix)" using p(3) by (simp add: word_le_nat_alt)
  also have "(2::nat) ^ (64 - prefix) \<le> 2 ^ 63" using p(2) by (intro power_increasing) auto
  finally show "k < 2 ^ 63" .
qed

lemma unat_succ: "unat b + 1 < 2 ^ 64 \<Longrightarrow> unat (b + 1 :: u64) = Suc (unat b)"
  by (simp add: unat_word_ariths)

lemma allocate_Inl: "allocate pool = (Inl e, pool') \<Longrightarrow> pool' = pool"
  by (auto simp: allocate_def Let_def split: ip_net.splits if_splits)

lemma UN_Suc: "(\<Union>k<Suc n. f k) = f n \<union> (\<Union>k<n. f k)"
  by (auto simp: less_Suc_eq)

lemma given_out_step:
  assumes "wf_pool pool" and "allocate pool = (Inr a, pool')"
  shows "distinct (pair_of a) \<and> set (pair_of a) \<inter> given_out pool = {}
    \<and> given_out pool' = set (pair_of a) \<union> given_out pool \<and> wf_pool pool'"
proof (cases "net pool")
  case (NetV4 network broadcast)
  define k where "k = unat (v4_blocks pool)"
  note a = allocate_v4_Inr [OF assms(1) NetV4 assms(2), folded k_def]
  have s: "unat (v4_blocks pool + 1) = Suc k" using a(3,4) unat_succ [of "v4_blocks pool"] by (simp add: k_def)
  have d: "v4_base network k + of_nat x \<noteq> v4_base network j + of_nat y"
    if "j < k" "x \<in> {1, 2}" "y \<in> {1, 2}" for j x y
    using v4_base_differ [OF _ that] a(3,4) by simp
  have "set (pair_of a) \<inter> given_out pool = {}"
    using d [of _ 1 1] d [of _ 1 2] d [of _ 2 1] d [of _ 2 2]
    by (auto simp: a(1) pair_of_def given_out_def NetV4 k_def [symmetric])
  moreover have "given_out pool' = set (pair_of a) \<union> given_out pool"
    by (simp add: a(1,2) pair_of_def given_out_def NetV4 s UN_Suc k_def [symmetric])
  moreover have "distinct (pair_of a)" by (simp add: a(1) pair_of_def)
  moreover have "wf_pool pool'" using a(3,4) s by (simp add: wf_pool_def a(2) NetV4)
  ultimately show ?thesis by blast
next
  case (NetV6 network prefix)
  define k where "k = unat (v6_blocks pool)"
  note a = allocate_v6_Inr [OF assms(1) NetV6 assms(2), folded k_def]
  have s: "unat (v6_blocks pool + 1) = Suc k" using a(3) unat_succ [of "v6_blocks pool"] by (simp add: k_def)
  have d: "v6_base network k + of_nat x \<noteq> v6_base network j + of_nat y"
    if "j < k" "x \<in> {1, 2}" "y \<in> {1, 2}" for j x y
    using v6_base_differ [OF _ that] a(3) by simp
  have "set (pair_of a) \<inter> given_out pool = {}"
    using d [of _ 1 1] d [of _ 1 2] d [of _ 2 1] d [of _ 2 2]
    by (auto simp: a(1) pair_of_def given_out_def NetV6 k_def [symmetric])
  moreover have "given_out pool' = set (pair_of a) \<union> given_out pool"
    by (simp add: a(1,2) pair_of_def given_out_def NetV6 s UN_Suc k_def [symmetric])
  moreover have "distinct (pair_of a)" by (simp add: a(1) pair_of_def)
  moreover have "wf_pool pool'" using assms(1) by (simp add: wf_pool_def a(2) NetV6)
  ultimately show ?thesis by blast
qed

interpretation ip: allocator allocate pair_of given_out wf_pool
  by unfold_locales (use given_out_step allocate_Inl in blast)+

lemma grants_differ:
  "wf_pool pool \<Longrightarrow> distinct (concat (map pair_of (grants allocate n pool)))"
  using ip.grants_disjoint by blast

end
