(* ===== verification/IpAddresses.thy ===== *)
theory IpAddresses
  imports MasqueIpProps TunPool
begin

text \<open>
  Addresses across CONNECT-IP sessions: what the clients read in the capsules they are sent, for any
  sequence of sessions of \<open>src/masque.rs\<close> over one pool of \<open>src/tun.rs\<close>.
\<close>

section \<open>Sessions over one pool\<close>

text \<open>The sessions in the order in which they take the lock of the pool.\<close>

fun sessions :: "session_args list \<Rightarrow> ip_world \<Rightarrow> ip_session list" where
  "sessions [] w = []"
| "sessions ((l, env, config, req) # as) w =
     (case handle_ip_stream l env config req w of ((s, _), w') \<Rightarrow> s # sessions as w')"

text \<open>The addresses a client takes from the capsules on its stream.\<close>

definition reads_address :: "ip_session \<Rightarrow> ipaddr \<Rightarrow> bool" where
  "reads_address s a \<longleftrightarrow>
     (\<exists>bs entries. StreamData bs \<in> set (main_events s) \<and> decode_address_assign bs = Some entries
        \<and> a \<in> address ` set entries)"

text \<open>The client address a session takes from the pool.\<close>

fun clients :: "session_args list \<Rightarrow> ip_pool \<Rightarrow> ipaddr option list" where
  "clients [] p = []"
| "clients (a # as) p =
     (if admitted a then
        (case allocate p of
           (Inr (_, client, _), p') \<Rightarrow> Some client # clients as p'
         | (Inl _, p') \<Rightarrow> None # clients as p')
      else None # clients as p)"

lemma length_sessions [simp]: "length (sessions as w) = length as"
  by (induction as w rule: sessions.induct) (auto split: prod.splits)

section \<open>What a client reads\<close>

lemma decode_one_assign:
  assumes "valid_assigned e"
  shows "decode_address_assign (encode_address_assign [e]) = Some [e]"
proof -
  have "length (encode_address_value [e]) < 2 ^ 62"
    using length_put_varint [of "request_id e"] by (simp split: ipaddr.split)
  then have "decode_capsule (encode_address_assign [e]) = Some (CAPSULE_ADDRESS_ASSIGN, encode_address_value [e])"
    unfolding encode_address_assign_def
    by (intro decode_encode_capsule) (simp_all add: CAPSULE_ADDRESS_ASSIGN_def)
  moreover have "decode_address_value (encode_address_value [e]) = Some [e]"
    unfolding decode_address_value_def addresses.decode_encode_iff using assms by simp
  ultimately show ?thesis by (simp add: decode_address_assign_def)
qed

lemma route_is_no_assign:
  "decode_address_assign (encode_route_advertisement [default_route_range a]) = None"
proof -
  have "length (encode_route_value [default_route_range a]) < 2 ^ 62"
    by (simp add: default_route_range_def split: ipaddr.split)
  then have "decode_capsule (encode_route_advertisement [default_route_range a])
      = Some (CAPSULE_ROUTE_ADVERTISEMENT, encode_route_value [default_route_range a])"
    unfolding encode_route_advertisement_def
    by (intro decode_encode_capsule) (simp_all add: CAPSULE_ROUTE_ADVERTISEMENT_def)
  then show ?thesis
    by (simp add: decode_address_assign_def CAPSULE_ROUTE_ADVERTISEMENT_def CAPSULE_ADDRESS_ASSIGN_def)
qed

lemma allocate_prefix:
  "allocate p = (Inr (proxy, client, n), p') \<Longrightarrow>
   valid_assigned \<lparr>request_id = 0, address = client, prefix_len = n\<rparr>"
  by (auto simp: allocate_def valid_assigned_def Let_def split: ip_net.splits if_splits)

text \<open>A session tells its client the address it took from the pool and nothing else.\<close>

lemma session_reads:
  assumes "handle_ip_stream l env config req w = ((s, r), w')" and "reads_address s a"
  shows "admitted (l, env, config, req)
    \<and> (\<exists>proxy n p'. allocate (pool w) = (Inr (proxy, a, n), p'))"
proof -
  from assms(2) obtain bs entries where bs: "StreamData bs \<in> set (main_events s)"
    and d: "decode_address_assign bs = Some entries" "a \<in> address ` set entries"
    by (auto simp: reads_address_def)
  have s: "fst (fst (handle_ip_stream l env config req w)) = s" by (simp add: assms(1))
  from bs obtain proxy client n p' where v: "admitted (l, env, config, req)"
    and p: "allocate (pool w) = (Inr (proxy, client, n), p')"
    and cases: "bs = encode_address_assign [\<lparr>request_id = 0, address = client, prefix_len = n\<rparr>]
      \<or> bs = encode_route_advertisement [default_route_range client]"
    using ip_loop_no_stream_data
    by (auto simp: s [symmetric] handle_ip_stream_def ip_tunnel_def answer_def admitted_def Let_def
        split: sum.splits prod.splits if_splits)
  from cases d decode_one_assign [OF allocate_prefix [OF p]] have "a = client"
    by (auto simp: route_is_no_assign)
  with v p show ?thesis by blast
qed

lemma session_pool_eq:
  "handle_ip_stream l env config req w = ((s, r), w') \<Longrightarrow>
   pool w' = (if admitted (l, env, config, req) then snd (allocate (pool w)) else pool w)"
  using session_pool [of l env config req w] by simp

lemma sessions_read_clients:
  "i < length as \<Longrightarrow> reads_address (sessions as w ! i) a \<Longrightarrow> clients as (pool w) ! i = Some a"
proof (induction as w arbitrary: i rule: sessions.induct)
  case (2 l env config req as w)
  obtain s r w' where h: "handle_ip_stream l env config req w = ((s, r), w')" by (metis prod.exhaust)
  have rest: "clients ((l, env, config, req) # as) (pool w) ! Suc j = clients as (pool w') ! j" for j
    using session_pool_eq [OF h] by (auto split: prod.split sum.split)
  show ?case
  proof (cases i)
    case 0
    with 2(3) h have "reads_address s a" by simp
    from session_reads [OF h this] show ?thesis by (auto simp: 0)
  next
    case (Suc j)
    with 2 h have "clients as (pool w') ! j = Some a" by simp
    with rest Suc show ?thesis by simp
  qed
qed simp

section \<open>No address twice\<close>

definition client_of :: "ipaddr \<times> ipaddr \<times> byte \<Rightarrow> ipaddr" where
  "client_of g = fst (snd g)"

lemma clients_grants:
  "List.map_filter (\<lambda>x. x) (clients as p) = map client_of (grants allocate (length (filter admitted as)) p)"
  by (induction as p rule: clients.induct)
     (auto simp: map_filter_simps client_of_def split: prod.split sum.split dest!: allocate_Inl)

lemma client_in_pair: "client_of g \<in> set (pair_of g)"
  by (cases g) (simp add: client_of_def pair_of_def)

lemma distinct_clients: "distinct (concat (map pair_of gs)) \<Longrightarrow> distinct (map client_of gs)"
proof (induction gs)
  case (Cons g gs)
  have "client_of g \<notin> client_of ` set gs"
  proof
    assume "client_of g \<in> client_of ` set gs"
    then obtain h where "h \<in> set gs" "client_of g = client_of h" by blast
    then have "client_of g \<in> set (concat (map pair_of gs))"
      using client_in_pair [of h] by auto
    with Cons.prems client_in_pair [of g] show False by auto
  qed
  with Cons show ?case by simp
qed simp

lemma distinct_Somes:
  "distinct (List.map_filter (\<lambda>x. x) xs) \<Longrightarrow> i < j \<Longrightarrow> j < length xs \<Longrightarrow> xs ! i = Some a \<Longrightarrow> xs ! j = Some b
   \<Longrightarrow> a \<noteq> b"
proof (induction xs arbitrary: i j)
  case (Cons x xs)
  have mem: "xs ! k = Some c \<Longrightarrow> k < length xs \<Longrightarrow> c \<in> set (List.map_filter (\<lambda>x. x) xs)" for k c
    by (force simp: List.map_filter_def in_set_conv_nth)
  obtain j' where j: "j = Suc j'" using Cons.prems(2) by (cases j) auto
  show ?case
  proof (cases i)
    case 0
    with Cons.prems j mem [of j' b] show ?thesis by (auto simp: map_filter_simps)
  next
    case (Suc i')
    with Cons j show ?thesis by (auto simp: map_filter_simps split: option.splits)
  qed
qed simp

lemma length_clients [simp]: "length (clients as p) = length as"
  by (induction as p rule: clients.induct) (auto split: prod.split sum.split)

text \<open>(C8) Two CONNECT-IP sessions of one server never give their clients the same address, whatever
  requests they serve and whether or not earlier sessions have ended: the addresses that two clients
  read in their ADDRESS_ASSIGN capsules differ, for every IPv4 pool below the last four addresses and
  every IPv6 pool with a prefix.\<close>

theorem sessions_never_share_address:
  assumes "wf_pool (pool w)" and "i < j" and "j < length as"
    and "reads_address (sessions as w ! i) a" and "reads_address (sessions as w ! j) b"
  shows "a \<noteq> b"
proof -
  have "distinct (List.map_filter (\<lambda>x. x) (clients as (pool w)))"
    unfolding clients_grants by (rule distinct_clients [OF grants_differ [OF assms(1)]])
  then show ?thesis
    by (rule distinct_Somes [of _ i j])
       (use assms sessions_read_clients [of i as w a] sessions_read_clients [of j as w b] in auto)
qed

section \<open>Two sessions\<close>

definition busy_host :: host_state where
  "busy_host = sample_host\<lparr>fwd_refs := 1, fwd_orig := 0\<rparr>"

definition sample_session :: session_args where
  "sample_session = (plain_libs, sample_ip_env, sample_ip_config, sample_ip_request)"

lemma sample_create:
  assumes "fwd_refs h \<noteq> 0" and "fwd_orig h = 0"
  shows "\<exists>dev h'. create sample_tun_env (ascii ''auto%d'') (V4 a) (V4 b) 30 mtu h = (Inr dev, h')
     \<and> fwd_refs (drop_device sample_tun_env dev h') \<noteq> 0 \<and> fwd_orig (drop_device sample_tun_env dev h') = 0"
  using assms
  by (cases mtu)
     (simp_all add: create_def or_drop_def add_nat_rule_def run_cmd_def sample_tun_env_def IFNAMSIZ_def
        ensure_ip_forward_def Let_def drop_device_def release_ip_forward_def)

lemma sample_session_reads:
  assumes "fwd_refs (host w) \<noteq> 0" and "fwd_orig (host w) = 0"
    and "allocate (pool w) = (Inr (V4 a, V4 b, 30), p)"
  shows "\<exists>s r w'. handle_ip_stream plain_libs sample_ip_env sample_ip_config sample_ip_request w = ((s, r), w')
    \<and> reads_address s (V4 b) \<and> fwd_refs (host w') \<noteq> 0 \<and> fwd_orig (host w') = 0 \<and> pool w' = p
    \<and> r = Inr ()"
proof -
  obtain dev h' where c: "create sample_tun_env (ascii ''auto%d'') (V4 a) (V4 b) 30 (tun_mtu (Some 1300)) (host w)
      = (Inr dev, h')"
    and h: "fwd_refs (drop_device sample_tun_env dev h') \<noteq> 0" "fwd_orig (drop_device sample_tun_env dev h') = 0"
    using sample_create [OF assms(1,2)] by blast
  have v: "validate_connect_ip plain_libs sample_ip_request (auth_token sample_ip_config) = Inr ()"
    using sample_admitted by (simp add: admitted_def)
  define e where "e = (\<lparr>request_id = 0, address = V4 b, prefix_len = 30\<rparr> :: assigned_address)"
  have "decode_address_assign (encode_address_assign [e]) = Some [e]"
    by (rule decode_one_assign) (simp add: e_def valid_assigned_def)
  moreover have "StreamData (encode_address_assign [e]) \<in> set (main_events (fst (ip_tunnel sample_ip_env (V4 b) 30)))"
    by (simp add: ip_tunnel_def sample_ip_env_def e_def Let_def)
  ultimately have "reads_address (fst (ip_tunnel sample_ip_env (V4 b) 30)) (V4 b)"
    unfolding reads_address_def by (force simp: e_def)
  moreover have "snd (ip_tunnel sample_ip_env (V4 b) 30) = Inr ()"
    by (simp add: ip_tunnel_def sample_ip_env_def Let_def)
  moreover have "i_tun sample_ip_env = sample_tun_env" "i_limit sample_ip_env = Some 1300"
    by (simp_all add: sample_ip_env_def)
  ultimately show ?thesis
    using h by (cases "ip_tunnel sample_ip_env (V4 b) 30") (simp add: handle_ip_stream_def v assms(3) c del: ascii_simps)
qed

theorem sessions_never_share_address_witness:
  "\<exists>a b. reads_address (sessions [sample_session, sample_session]
        \<lparr>pool = v4_pool 0xC6120000 0xC613FFFF 0, host = busy_host\<rparr> ! 0) a
     \<and> reads_address (sessions [sample_session, sample_session]
        \<lparr>pool = v4_pool 0xC6120000 0xC613FFFF 0, host = busy_host\<rparr> ! 1) b \<and> a \<noteq> b"
proof -
  let ?w = "\<lparr>pool = v4_pool 0xC6120000 0xC613FFFF 0, host = busy_host\<rparr>"
  have "allocate (pool ?w) = (Inr (V4 0xC6120001, V4 0xC6120002, 30), v4_pool 0xC6120000 0xC613FFFF 1)"
    by (simp add: allocate_def v4_pool_def Let_def)
  from sample_session_reads [OF _ _ this] obtain s r w' where
    1: "handle_ip_stream plain_libs sample_ip_env sample_ip_config sample_ip_request ?w = ((s, r), w')"
    "reads_address s (V4 0xC6120002)"
    and w': "fwd_refs (host w') \<noteq> 0" "fwd_orig (host w') = 0" "pool w' = v4_pool 0xC6120000 0xC613FFFF 1"
    by (auto simp: busy_host_def)
  have "allocate (pool w') = (Inr (V4 0xC6120005, V4 0xC6120006, 30), v4_pool 0xC6120000 0xC613FFFF 2)"
    by (simp add: w'(3) allocate_def v4_pool_def Let_def)
  from sample_session_reads [OF w'(1,2) this] obtain s' r' w'' where
    2: "handle_ip_stream plain_libs sample_ip_env sample_ip_config sample_ip_request w' = ((s', r'), w'')"
    "reads_address s' (V4 0xC6120006)" by blast
  have ss: "sessions [sample_session, sample_session] ?w = [s, s']"
    by (simp add: sample_session_def 1(1) 2(1))
  have wf: "wf_pool (pool ?w)" by (simp add: wf_pool_def v4_pool_def v4_start_def)
  have ne: "V4 0xC6120002 \<noteq> V4 0xC6120006"
    by (rule sessions_never_share_address [of ?w 0 1 "[sample_session, sample_session]"])
       (use wf 1(2) 2(2) in \<open>simp_all add: ss\<close>)
  show ?thesis
    unfolding ss
  proof (intro exI conjI)
    show "reads_address ([s, s'] ! 0) (V4 0xC6120002)" using 1(2) by simp
    show "reads_address ([s, s'] ! 1) (V4 0xC6120006)" using 2(2) by simp
  qed (rule ne)
qed

end
