(* ===== verification/PingPacket.thy ===== *)
theory PingPacket
  imports NetAddr
begin

text \<open>
  The ICMP echo request that the client of the CONNECT-IP test in \<open>src/masque.rs\<close> builds by hand, with its
  Internet checksum, and that the checksums verify.
\<close>

section \<open>The packet\<close>

text \<open>The Internet checksum of RFC 1071. The sum of 16-bit words is a \<open>u32\<close>; carries are folded back.\<close>

fun sum_pairs :: "byte list \<Rightarrow> u32 \<Rightarrow> u32" where
  "sum_pairs [] acc = acc"
| "sum_pairs [a] acc = acc + ucast (be_val [a, 0] :: u16)"
| "sum_pairs (a # b # r) acc = sum_pairs r (acc + ucast (be_val [a, b] :: u16))"

lemma fold_carry_sum:
  "unat ((acc AND 0xffff) + drop_bit 16 acc :: u32) = unat acc mod 65536 + unat acc div 65536"
proof -
  have "(0xffff :: u32) = mask 16" by (simp add: mask_eq_exp_minus_1)
  then have a: "unat (acc AND 0xffff) = unat acc mod 65536"
    by (simp only: take_bit_eq_mask [symmetric] unsigned_take_bit_eq) (simp add: take_bit_eq_mod)
  have b: "unat (drop_bit 16 acc) = unat acc div 65536" by (simp add: unat_drop_bit)
  have "unat acc mod 65536 + unat acc div 65536 < 2 ^ 32" using unat_u32_less [of acc] by simp
  then show ?thesis using unat_add_lem [of "acc AND 0xffff" "drop_bit 16 acc"] by (simp add: a b)
qed

lemma drop_bit_16_eq_0: "(drop_bit 16 (acc :: u32) = 0) = (unat acc < 65536)"
  by (simp add: drop_bit_eq_iff_div) (metis div_less div_eq_0_iff zero_neq_numeral)

function fold_carry :: "u32 \<Rightarrow> u32" where
  "fold_carry acc =
     (if drop_bit 16 acc \<noteq> 0 then fold_carry ((acc AND 0xffff) + drop_bit 16 acc) else acc)"
  by pat_completeness auto

termination
proof (relation "measure unat")
  fix acc :: u32 assume "drop_bit 16 acc \<noteq> 0"
  then have "65536 \<le> unat acc" by (simp add: drop_bit_16_eq_0)
  then show "((acc AND 0xffff) + drop_bit 16 acc, acc) \<in> measure unat"
    unfolding in_measure fold_carry_sum
    using div_mult_mod_eq [of "unat acc" 65536] div_le_mono [of 65536 "unat acc" 65536] by linarith
qed simp

declare fold_carry.simps [simp del]

definition ip_checksum :: "byte list \<Rightarrow> u16" where
  "ip_checksum bytes = NOT (ucast (fold_carry (sum_pairs bytes 0)))"

definition icmpv4_echo_request :: "u32 \<Rightarrow> u32 \<Rightarrow> u16 \<Rightarrow> u16 \<Rightarrow> byte list" where
  "icmpv4_echo_request src dst ident seq =
     (let payload = ascii ''masque-connect-ip-e2e-ping'';
          icmp = [8, 0] @ [0, 0] @ be_bytes 2 ident @ be_bytes 2 seq @ payload;
          icmp = take 2 icmp @ be_bytes 2 (ip_checksum icmp) @ drop 4 icmp;
          total = 20 + length icmp;
          ip = [0x45, 0] @ be_bytes 2 (of_nat total :: u16) @ [0, 0] @ [0, 0] @ [64, 1] @ [0, 0]
                 @ octets4 src @ octets4 dst;
          ip = take 10 ip @ be_bytes 2 (ip_checksum ip) @ drop 12 ip
      in ip @ icmp)"

section \<open>The checksum in terms of numbers\<close>

lemma unat_ucast_32: "unat (ucast (x :: u16) :: u32) = unat x"
  using unat_u16_less [of x] by (simp add: unsigned_ucast_eq take_bit_nat_eq_self)

lemma unat_be_pair: "unat (be_val [a, b] :: u16) = 256 * unat a + unat b"
proof -
  have u: "unat (ucast (x :: byte) :: u16) = unat x" for x
    using unat_byte_less [of x] by (simp add: unsigned_ucast_eq take_bit_nat_eq_self)
  have "be_val [a, b] = (push_bit 8 (ucast a) OR ucast b :: u16)" by (simp add: be_val_def)
  also have "\<dots> = push_bit 8 (ucast a) + ucast b"
    by (rule disjunctive_add [symmetric]) (auto simp: bit_simps dest: bit_imp_le_length)
  also have "\<dots> = of_nat (256 * unat a + unat b)"
    by (simp add: push_bit_eq_mult)
  finally have "unat (be_val [a, b] :: u16) = unat (of_nat (256 * unat a + unat b) :: u16)" by (rule arg_cong)
  also have "\<dots> = 256 * unat a + unat b"
    unfolding unat_of_nat using unat_byte_less [of a] unat_byte_less [of b] by (intro mod_less) simp
  finally show ?thesis .
qed

fun word_sum :: "byte list \<Rightarrow> nat" where
  "word_sum [] = 0"
| "word_sum [a] = 256 * unat a"
| "word_sum (a # b # r) = 256 * unat a + unat b + word_sum r"

lemma word_sum_le: "word_sum bs \<le> 65535 * length bs"
proof (induction bs rule: word_sum.induct)
  case (3 a b r)
  then show ?case using unat_byte_less [of a] unat_byte_less [of b] by simp
next
  case (2 a)
  then show ?case using unat_byte_less [of a] by simp
qed simp

lemma word_sum_append: "even (length xs) \<Longrightarrow> word_sum (xs @ ys) = word_sum xs + word_sum ys"
  by (induction xs rule: word_sum.induct) simp_all

lemma unat_sum_pairs:
  "unat acc + word_sum bs < 2 ^ 32 \<Longrightarrow> unat (sum_pairs bs acc) = unat acc + word_sum bs"
proof (induction bs acc rule: sum_pairs.induct)
  case (2 a acc)
  then show ?case
    using unat_be_pair [of a 0] unat_add_lem [of acc "ucast (be_val [a, 0] :: u16)"] by (simp add: unat_ucast_32)
next
  case (3 a b r acc)
  then show ?case
    using unat_be_pair [of a b] unat_add_lem [of acc "ucast (be_val [a, b] :: u16)"] by (simp add: unat_ucast_32)
qed simp

text \<open>The folded sum is the residue modulo 65535, with 65535 instead of 0 for a sum that is not 0.\<close>

definition folded :: "nat \<Rightarrow> nat" where
  "folded n = (if n = 0 then 0 else Suc ((n - 1) mod 65535))"

lemma folded_small: "n < 65536 \<Longrightarrow> folded n = n"
  by (simp add: folded_def)

lemma folded_step: "folded (n mod 65536 + n div 65536) = folded n"
proof (cases "n = 0")
  case False
  let ?m = "n mod 65536 + n div 65536"
  have n: "n = ?m + 65535 * (n div 65536)" using div_mult_mod_eq [of n 65536] by linarith
  have "?m \<noteq> 0" using n False by (metis add_is_0 mult_0_right)
  then have "n - 1 = (?m - 1) + 65535 * (n div 65536)" using n by linarith
  then have "(n - 1) mod 65535 = (?m - 1) mod 65535" by (metis mod_mult_self2)
  with False \<open>?m \<noteq> 0\<close> show ?thesis by (simp only: folded_def if_False)
qed simp

lemma folded_le: "folded n \<le> 65535"
proof -
  have "(n - 1) mod 65535 < 65535" by (rule mod_less_divisor) simp
  then show ?thesis unfolding folded_def by (auto simp del: mod_less_divisor)
qed

lemma folded_add: "65535 dvd n + (65535 - folded n)"
proof (cases n)
  case (Suc m)
  define q r where "q = m div 65535" and "r = m mod 65535"
  have "r < 65535" unfolding r_def by (rule mod_less_divisor) simp
  moreover have "m = 65535 * q + r" by (simp add: q_def r_def)
  ultimately have "n + (65535 - folded n) = 65535 * Suc q"
    unfolding folded_def Suc by (simp add: r_def [symmetric])
  then show ?thesis by (metis dvd_triv_left)
qed (simp add: folded_def)

lemma folded_dvd:
  assumes "65535 dvd n" and "n \<noteq> 0"
  shows "folded n = 65535"
proof -
  from assms(1) obtain k where k: "n = 65535 * k" by (rule dvdE)
  with assms(2) obtain j where j: "k = Suc j" by (cases k) auto
  have "n - 1 = 65534 + 65535 * j" by (simp add: k j)
  then have "(n - 1) mod 65535 = 65534 mod 65535" by (simp only: mod_mult_self2)
  with assms(2) show ?thesis by (simp add: folded_def)
qed

lemma unat_fold_carry: "unat (fold_carry acc) = folded (unat acc)"
proof (induction acc rule: fold_carry.induct)
  case (1 acc)
  show ?case
  proof (cases "drop_bit 16 acc = 0")
    case True
    then show ?thesis by (subst fold_carry.simps) (simp add: folded_small drop_bit_16_eq_0 [symmetric])
  next
    case False
    then have "unat (fold_carry acc) = folded (unat acc mod 65536 + unat acc div 65536)"
      using 1 by (subst fold_carry.simps) (simp add: fold_carry_sum)
    then show ?thesis by (simp only: folded_step)
  qed
qed

lemma unat_not_u16: "unat (NOT (w :: u16)) = 65535 - unat w"
proof -
  have "NOT w = - 1 - w" by (simp add: not_eq_complement)
  moreover have "unat (- 1 - w) = unat (- 1 :: u16) - unat w" by (rule unat_sub) (rule word_n1_ge)
  moreover have "unat (- 1 :: u16) = 65535"
    unfolding unsigned_minus_1_eq_mask by (simp add: mask_eq_exp_minus_1)
  ultimately show ?thesis by simp
qed

lemma unat_ip_checksum:
  assumes "word_sum bs < 2 ^ 32"
  shows "unat (ip_checksum bs) = 65535 - folded (word_sum bs)"
proof -
  let ?f = "fold_carry (sum_pairs bs 0)"
  have f: "unat ?f = folded (word_sum bs)"
    using unat_sum_pairs [of 0 bs] assms by (simp add: unat_fold_carry)
  have "unat (ucast ?f :: u16) = unat ?f"
    using folded_le [of "word_sum bs"] by (simp add: unsigned_ucast_eq take_bit_nat_eq_self f)
  then show ?thesis by (simp add: ip_checksum_def unat_not_u16 f)
qed

section \<open>The checksums verify\<close>

lemma word_sum_be: "word_sum (be_bytes 2 (w :: u16)) = unat w"
proof -
  have "be_val (be_bytes 2 w) = w" by (rule be_val_be_bytes_full) simp
  moreover have "be_bytes 2 w = [be_bytes 2 w ! 0, be_bytes 2 w ! 1]"
    by (simp add: be_bytes_def upt_rec)
  ultimately show ?thesis using unat_be_pair [of "be_bytes 2 w ! 0" "be_bytes 2 w ! 1"]
    by (metis word_sum.simps(1) word_sum.simps(3) add_0_right)
qed

text \<open>A receiver's check: with the checksum of a text put into its zero field at an even offset, the
  checksum of the whole is 0.\<close>

lemma checksum_verifies:
  assumes "even (length a)" and "length (a @ [0, 0] @ b) < 65536" and "word_sum (a @ [0, 0] @ b) \<noteq> 0"
  shows "ip_checksum (a @ be_bytes 2 (ip_checksum (a @ [0, 0] @ b)) @ b) = 0"
proof -
  define n where "n = word_sum (a @ [0, 0] @ b)"
  define cs where "cs = be_bytes 2 (ip_checksum (a @ [0, 0] @ b))"
  have le: "word_sum t < 2 ^ 32" if "length t < 65536" for t
    using word_sum_le [of t] that by simp
  have l: "length cs = 2" by (simp add: cs_def)
  have c: "word_sum cs = 65535 - folded n"
    unfolding cs_def n_def word_sum_be by (rule unat_ip_checksum [OF le [OF assms(2)]])
  have "word_sum (a @ cs @ b) = word_sum a + (word_sum cs + word_sum b)"
    using word_sum_append [of cs b] l by (simp add: word_sum_append [OF assms(1)])
  moreover have "n = word_sum a + word_sum b" by (simp add: n_def word_sum_append [OF assms(1)])
  ultimately have s: "word_sum (a @ cs @ b) = n + (65535 - folded n)" by (simp add: c)
  have "length (a @ cs @ b) < 65536" using assms(2) l by simp
  from unat_ip_checksum [OF le [OF this]]
  have "unat (ip_checksum (a @ cs @ b)) = 65535 - folded (n + (65535 - folded n))" by (simp only: s)
  also have "\<dots> = 0" using folded_dvd [OF folded_add [of n]] assms(3) by (simp add: n_def)
  finally show ?thesis by (simp add: cs_def unat_eq_zero)
qed

text \<open>The packet is an IPv4 header of 20 bytes with the given addresses and the length of the packet,
  and an echo request with the given identifiers; both checksums verify.\<close>

theorem echo_request_well_formed:
  "\<exists>header icmp. icmpv4_echo_request src dst ident seq = header @ icmp
    \<and> length header = 20 \<and> take 2 header = [0x45, 0] \<and> take 2 (drop 2 header) = be_bytes 2 (54 :: u16)
    \<and> drop 12 header = octets4 src @ octets4 dst \<and> ip_checksum header = 0
    \<and> length icmp = 34 \<and> take 2 icmp = [8, 0] \<and> take 4 (drop 4 icmp) = be_bytes 2 ident @ be_bytes 2 seq
    \<and> ip_checksum icmp = 0"
proof -
  let ?tail = "be_bytes 2 ident @ be_bytes 2 seq @ ascii ''masque-connect-ip-e2e-ping''"
  let ?icmp = "[8, 0] @ be_bytes 2 (ip_checksum ([8, 0] @ [0, 0] @ ?tail)) @ ?tail"
  let ?a = "[0x45, 0] @ be_bytes 2 (54 :: u16) @ [0, 0, 0, 0, 64, 1]"
  let ?b = "octets4 src @ octets4 dst"
  let ?header = "?a @ be_bytes 2 (ip_checksum (?a @ [0, 0] @ ?b)) @ ?b"
  have p: "icmpv4_echo_request src dst ident seq = ?header @ ?icmp"
    by (simp add: icmpv4_echo_request_def Let_def del: ascii_simps)
  have "word_sum ([8, 0] @ [0, 0] @ ?tail) \<noteq> 0" by (simp del: ascii_simps)
  then have i: "ip_checksum ?icmp = 0" by (intro checksum_verifies) (simp_all del: ascii_simps)
  have "word_sum (?a @ [0, 0] @ ?b) \<noteq> 0" by simp
  then have h: "ip_checksum ?header = 0" by (intro checksum_verifies) simp_all
  show ?thesis
    using p i h by (intro exI [of _ ?header] exI [of _ ?icmp]) (simp del: ascii_simps)
qed

end
