(* ===== verification/MasqueScenarios.thy ===== *)
theory MasqueScenarios
  imports MasqueDispatch MasqueTests IpAddresses PingPacket
begin

text \<open>
  The scenarios of the remaining tests of \<open>src/masque.rs\<close>: the byte pump against an echo target and the
  end-to-end tests, with the requests, targets, payloads and controls of the test code. The QUIC client
  is the libraries'; what the client sends and what the echo target returns are inputs of the model, and
  the assertions are about the proxy's answers. The
  client of the CONNECT-IP test, which is code of the repository, is modelled with its loop over the
  capsules of the stream and its ICMP packet.
\<close>

section \<open>An echo behind a byte pipe\<close>

text \<open>The target returns each write as a chunk and ends when its input ends.\<close>

fun echo_target :: "mevent list \<Rightarrow> pipe_input list" where
  "echo_target [] = []"
| "echo_target (UpWrite data # es) = Chunk data True # echo_target es"
| "echo_target (UpShutdown # es) = [End]"
| "echo_target (_ # es) = echo_target es"

definition sends_then_ends :: "byte list list \<Rightarrow> pipe_input list" where
  "sends_then_ends chunks = map (\<lambda>d. Chunk d True) chunks @ [End]"

definition stream_bytes :: "mevent list \<Rightarrow> byte list" where
  "stream_bytes es = concat (List.map_filter (\<lambda>e. case e of StreamData d \<Rightarrow> Some d | _ \<Rightarrow> None) es)"

definition echoed_pipe :: "byte list list \<Rightarrow> pipe" where
  "echoed_pipe chunks =
     (let from_client = sends_then_ends chunks in
      run_pipe from_client (echo_target (up (run_pipe from_client []))))"

text \<open>The payload comes back intact, the target sees the end of the client's side, the client the end
  of the target's, and both directions stop. \<open>chunks\<close> is how the payload is cut on its way.\<close>

definition tcp_connect_pipe_logic_round_trips_and_eof_closes :: "byte list list \<Rightarrow> bool" where
  "tcp_connect_pipe_logic_round_trips_and_eof_closes chunks \<longleftrightarrow>
     (let p = echoed_pipe chunks in
      stream_bytes (down p) = ascii ''plain-tcp-connect-pipe-roundtrip''
      \<and> UpShutdown \<in> set (up p) \<and> Finish \<in> set (down p) \<and> closed p)"

lemma up_sends: "up (run_pipe (sends_then_ends chunks) us) = map UpWrite chunks @ [UpShutdown]"
proof -
  have "to_target (sends_then_ends chunks) = (map UpWrite chunks @ [UpShutdown], True)"
    by (induction chunks) (simp_all add: sends_then_ends_def)
  then show ?thesis by (simp add: run_pipe_def)
qed

lemma echo_sends: "echo_target (map UpWrite chunks @ [UpShutdown]) = sends_then_ends chunks"
  by (induction chunks) (simp_all add: sends_then_ends_def)

lemma to_client_sends:
  "[] \<notin> set chunks \<Longrightarrow> to_client (sends_then_ends chunks) = (map StreamData chunks @ [Finish], True)"
  by (induction chunks) (auto simp: sends_then_ends_def)

lemma stream_bytes_simps [simp]:
  "stream_bytes (map StreamData ds @ es) = concat ds @ stream_bytes es" "stream_bytes [] = []"
  "stream_bytes (Finish # es) = stream_bytes es"
  by (induction ds) (simp_all add: stream_bytes_def List.map_filter_simps)

lemma echoed_pipe_eq:
  assumes "[] \<notin> set chunks"
  shows "echoed_pipe chunks
    = \<lparr>up = map UpWrite chunks @ [UpShutdown], down = map StreamData chunks @ [Finish], closed = True\<rparr>"
proof -
  have "to_target (sends_then_ends chunks) = (map UpWrite chunks @ [UpShutdown], True)"
    by (induction chunks) (simp_all add: sends_then_ends_def)
  then show ?thesis
    by (simp add: echoed_pipe_def up_sends echo_sends run_pipe_def to_client_sends [OF assms] Let_def)
qed

lemma tcp_connect_pipe_logic_round_trips_and_eof_closes:
  assumes "concat chunks = ascii ''plain-tcp-connect-pipe-roundtrip''" and "[] \<notin> set chunks"
  shows "tcp_connect_pipe_logic_round_trips_and_eof_closes chunks"
  using assms(1)
  by (simp add: tcp_connect_pipe_logic_round_trips_and_eof_closes_def echoed_pipe_eq [OF assms(2)] Let_def
      del: ascii_simps)

section \<open>TCP and WebSocket end to end\<close>

definition TOKEN :: str where
  "TOKEN = ascii ''test-masque-token''"

text \<open>\<open>pems\<close> are the paths of the generated key and certificate, \<open>udp_port\<close> the port found free.\<close>

definition e2e_config :: "str \<times> str \<Rightarrow> u16 \<Rightarrow> app_config" where
  "e2e_config pems udp_port = default_config
     \<lparr>listen := SocketAddr (V4 (v4 127 0 0 1)) 0, enable := Some H3, key := Some (fst pems),
      cert_chain := Some (snd pems), auth_token := Some TOKEN, h3_bind := SocketAddr (V4 (v4 127 0 0 1)) udp_port\<rparr>"

definition e2e_auth :: "str option" where
  "e2e_auth = Some (ascii ''Bearer '' @ TOKEN)"

definition loopback_authority :: "u16 \<Rightarrow> str" where
  "loopback_authority port = ascii ''127.0.0.1:'' @ dec (unat port)"

definition websocket_request :: "str \<Rightarrow> request" where
  "websocket_request authority =
     (tcp_connect_request authority e2e_auth)\<lparr>rq_protocol := protocol_from_str (ascii ''websocket'')\<rparr>"

definition webtransport_request :: "str \<Rightarrow> request" where
  "webtransport_request authority =
     (tcp_connect_request authority e2e_auth)\<lparr>rq_protocol := Some WebTransport\<rparr>"

text \<open>The client's body and the echo of the target.\<close>

definition with_echo :: "byte list list \<Rightarrow> masque_env \<Rightarrow> masque_env" where
  "with_echo chunks env =
     env\<lparr>m_from_client := sends_then_ends chunks,
         m_from_upstream := echo_target (up (run_pipe (sends_then_ends chunks) []))\<rparr>"

definition tunnel_echoes ::
    "libs \<Rightarrow> masque_env \<Rightarrow> ip_env \<Rightarrow> str \<times> str \<Rightarrow> u16 \<Rightarrow> sockaddr \<Rightarrow> ip_world \<Rightarrow> request \<Rightarrow> byte list list \<Rightarrow> str \<Rightarrow> bool" where
  "tunnel_echoes l env ienv pems udp_port peer w req chunks payload \<longleftrightarrow>
     (let r = fst (serve_request l (with_echo chunks env) ienv (e2e_config pems udp_port) peer req w) in
      Response OK [] \<in> set (sr_events r)
      \<and> map_option (\<lambda>p. stream_bytes (down p)) (sr_pipe r) = Some payload)"

definition not_served ::
    "libs \<Rightarrow> masque_env \<Rightarrow> ip_env \<Rightarrow> str \<times> str \<Rightarrow> u16 \<Rightarrow> sockaddr \<Rightarrow> ip_world \<Rightarrow> request \<Rightarrow> bool" where
  "not_served l env ienv pems udp_port peer w req \<longleftrightarrow>
     (let r = fst (serve_request l env ienv (e2e_config pems udp_port) peer req w) in
      sr_pipe r = None \<and> (\<exists>s. s \<noteq> OK \<and> only_status s r))"

definition e2e_tcp_connect_roundtrip ::
    "libs \<Rightarrow> masque_env \<Rightarrow> ip_env \<Rightarrow> str \<times> str \<Rightarrow> sockaddr \<Rightarrow> ip_world \<Rightarrow> u16 \<Rightarrow> u16 \<Rightarrow> byte list list \<Rightarrow> bool" where
  "e2e_tcp_connect_roundtrip l env ienv pems peer w echo_port udp_port chunks \<longleftrightarrow>
     tunnel_echoes l env ienv pems udp_port peer w (tcp_connect_request (loopback_authority echo_port) e2e_auth) chunks
       (ascii ''masque-tcp-connect-e2e-roundtrip'')
     \<and> not_served l env ienv pems udp_port peer w
         (webtransport_request (ascii ''localhost:'' @ dec (unat udp_port)))"

definition e2e_websocket_connect_roundtrip ::
    "libs \<Rightarrow> masque_env \<Rightarrow> ip_env \<Rightarrow> str \<times> str \<Rightarrow> sockaddr \<Rightarrow> ip_world \<Rightarrow> u16 \<Rightarrow> u16 \<Rightarrow> byte list list \<Rightarrow> byte list list \<Rightarrow> bool"
  where
  "e2e_websocket_connect_roundtrip l env ienv pems peer w echo_port udp_port ws_chunks plain_chunks \<longleftrightarrow>
     tunnel_echoes l env ienv pems udp_port peer w (websocket_request (loopback_authority echo_port)) ws_chunks
       (ascii ''rfc9220-websocket-over-h3-roundtrip'')
     \<and> tunnel_echoes l env ienv pems udp_port peer w (tcp_connect_request (loopback_authority echo_port) e2e_auth) plain_chunks
       (ascii ''plain-tcp-connect-control-roundtrip'')
     \<and> not_served l env ienv pems udp_port peer w
         (webtransport_request (ascii ''localhost:'' @ dec (unat udp_port)))"

text \<open>The machine of the tests: responses are delivered and the local target accepts.\<close>

definition reachable :: "masque_env \<Rightarrow> u16 \<Rightarrow> bool" where
  "reachable env port \<longleftrightarrow> answers_delivered env
     \<and> (\<exists>a. e_connect (m_net env) (SocketAddr (V4 (v4 127 0 0 1)) port) = Done a)"

lemma parse_loopback: "parse_authority (loopback_authority port) = Inr (Ip (V4 (v4 127 0 0 1)), port)"
  using parse_authority_unbracketed [of "ascii ''127.0.0.1''" port] sample_addresses(1)
  by (simp add: loopback_authority_def starts_with_def)

lemma e2e_authorised:
  assumes "reads_samples l encode" and "header ''proxy-authorization'' req = e2e_auth"
  shows "check_proxy_auth l req (auth_token (e2e_config pems udp_port))"
  using bearer_credentials [OF assms(1), of req TOKEN TOKEN] assms(2)
  by (simp add: e2e_config_def e2e_auth_def TOKEN_def default_config_def)

lemma e2e_tunnel:
  assumes "reads_samples l encode" and "reachable env port"
    and "is_connect req" and "header ''proxy-authorization'' req = e2e_auth"
    and "rq_authority req = Some (loopback_authority port)"
    and "classify req = TcpTunnel \<and> rq_protocol req = None
      \<or> classify req = WebSocketTunnel \<and> map_option as_str (rq_protocol req) = Some (ascii ''websocket'')"
    and "concat chunks = payload" and "[] \<notin> set chunks"
  shows "tunnel_echoes l env ienv pems udp_port peer w req chunks payload"
proof -
  let ?env = "with_echo chunks env"
  have a: "check_proxy_auth l req (auth_token (e2e_config pems udp_port))" by (rule e2e_authorised [OF assms(1,4)])
  have t: "authority_target req = Inr (Ip (V4 (v4 127 0 0 1)), port)"
    by (simp add: authority_target_def assms(5) parse_loopback)
  have b: "\<not> block_special_addrs (e2e_config pems udp_port)"
    by (simp add: block_special_addrs_def e2e_config_def default_config_def)
  have pipe: "run_pipe (m_from_client ?env) (m_from_upstream ?env) = echoed_pipe chunks"
    by (simp add: with_echo_def echoed_pipe_def Let_def)
  have "m_net ?env = m_net env" "m_respond_ok ?env = m_respond_ok env" by (simp_all add: with_echo_def)
  with assms(2) have tunnel: "\<exists>es. tcp_connect_tunnel ?env (e2e_config pems udp_port) peer (Ip (V4 (v4 127 0 0 1))) port tr
      = (es, Inr (echoed_pipe chunks)) \<and> Response OK [] \<in> set es" for tr
    by (auto simp: tcp_connect_tunnel_def after_def resolve_target_def target_of_def ret_def lookups_def
        tell_def respond_def return_def reachable_def answers_delivered_def b pipe)
  have echo: "stream_bytes (down (echoed_pipe chunks)) = payload"
    by (simp add: echoed_pipe_eq [OF assms(8)] assms(7))
  from assms(6) show ?thesis
  proof
    assume c: "classify req = TcpTunnel \<and> rq_protocol req = None"
    then have "validate_tcp_connect l req (auth_token (e2e_config pems udp_port)) = Inr (Ip (V4 (v4 127 0 0 1)), port)"
      by (simp add: validate_tcp_connect_def assms(3) a t)
    with c tunnel [of "''tcp''"] echo show ?thesis
      by (auto simp: tunnel_echoes_def serve_request_def handle_tcp_connect_stream_def after_def return_def
          result_pipe_def Let_def)
  next
    assume c: "classify req = WebSocketTunnel \<and> map_option as_str (rq_protocol req) = Some (ascii ''websocket'')"
    then have "validate_websocket_connect l req (auth_token (e2e_config pems udp_port)) = Inr (Ip (V4 (v4 127 0 0 1)), port)"
      by (simp add: validate_websocket_connect_def assms(3) a t del: ascii_simps)
    with c tunnel [of "''ws''"] echo show ?thesis
      by (auto simp: tunnel_echoes_def serve_request_def handle_websocket_connect_stream_def after_def return_def
          result_pipe_def Let_def)
  qed
qed

lemma classify_e2e:
  "classify (tcp_connect_request a auth) = TcpTunnel" "classify (websocket_request a) = WebSocketTunnel"
  "classify (webtransport_request a) = Refuse NOT_IMPLEMENTED"
  by (simp_all add: classify_def is_connect_def tcp_connect_request_def websocket_request_def
      webtransport_request_def is_connect_ip_path_def MASQUE_IP_PATH_def starts_with_def
      protocol_from_str_def as_str_def from_utf8_def Let_def)

lemma websocket_protocol: "map_option as_str (protocol_from_str (ascii ''websocket'')) = Some (ascii ''websocket'')"
  by (simp add: protocol_from_str_def as_str_def from_utf8_def)

lemma webtransport_not_served: "not_served l env ienv pems udp_port peer w (webtransport_request a)"
  by (auto simp: not_served_def serve_request_def classify_e2e only_status_def send_status_events Let_def)

lemma e2e_tcp_connect_roundtrip:
  assumes "reads_samples l encode" and "reachable env echo_port"
    and "concat chunks = ascii ''masque-tcp-connect-e2e-roundtrip''" and "[] \<notin> set chunks"
  shows "e2e_tcp_connect_roundtrip l env ienv pems peer w echo_port udp_port chunks"
  unfolding e2e_tcp_connect_roundtrip_def
  using e2e_tunnel [OF assms(1,2), of "tcp_connect_request (loopback_authority echo_port) e2e_auth"] assms(3,4)
  by (simp add: sample_header classify_e2e webtransport_not_served del: ascii_simps)

lemma e2e_websocket_connect_roundtrip:
  assumes "reads_samples l encode" and "reachable env echo_port"
    and "concat ws_chunks = ascii ''rfc9220-websocket-over-h3-roundtrip''" and "[] \<notin> set ws_chunks"
    and "concat plain_chunks = ascii ''plain-tcp-connect-control-roundtrip''" and "[] \<notin> set plain_chunks"
  shows "e2e_websocket_connect_roundtrip l env ienv pems peer w echo_port udp_port ws_chunks plain_chunks"
  unfolding e2e_websocket_connect_roundtrip_def
proof (intro conjI)
  show "tunnel_echoes l env ienv pems udp_port peer w (websocket_request (loopback_authority echo_port)) ws_chunks
      (ascii ''rfc9220-websocket-over-h3-roundtrip'')"
    using e2e_tunnel [OF assms(1,2), of "websocket_request (loopback_authority echo_port)"] assms(3,4) websocket_protocol
    by (simp add: sample_header classify_e2e websocket_request_def [symmetric] del: ascii_simps)
       (simp add: websocket_request_def sample_header del: ascii_simps)
  show "tunnel_echoes l env ienv pems udp_port peer w (tcp_connect_request (loopback_authority echo_port) e2e_auth) plain_chunks
      (ascii ''plain-tcp-connect-control-roundtrip'')"
    using e2e_tunnel [OF assms(1,2), of "tcp_connect_request (loopback_authority echo_port) e2e_auth"] assms(5,6)
    by (simp add: sample_header classify_e2e del: ascii_simps)
qed (rule webtransport_not_served)

section \<open>CONNECT-UDP end to end\<close>

text \<open>The client's datagrams: two with Context ID 0, between them one with Context ID 42. The echo
  socket returns what the tunnel sends it, in order; \<open>limit\<close> is what fits into a datagram.\<close>

definition udp_payload1 :: "byte list" where
  "udp_payload1 = ascii ''masque-e2e-roundtrip-payload''"

definition udp_payload2 :: "byte list" where
  "udp_payload2 = ascii ''masque-e2e-after-nonzero-cid''"

fun udp_echo :: "nat \<Rightarrow> mevent list \<Rightarrow> udp_input list" where
  "udp_echo limit [] = []"
| "udp_echo limit (UdpSend data # es) = FromTarget (Some data) (Some limit) True # udp_echo limit es"
| "udp_echo limit (_ # es) = udp_echo limit es"

definition udp_test_datagrams :: "byte list list" where
  "udp_test_datagrams =
     [0x00 # udp_payload1, [0x40, 0x2A] @ ascii ''must-be-dropped'', 0x00 # udp_payload2]"

definition udp_echo_inputs :: "nat \<Rightarrow> udp_input list" where
  "udp_echo_inputs limit =
     concat (map (\<lambda>d. FromClient (Some d) # udp_echo limit (udp_loop [FromClient (Some d)])) udp_test_datagrams)"

definition e2e_connect_udp_request :: "u16 \<Rightarrow> u16 \<Rightarrow> request" where
  "e2e_connect_udp_request udp_port echo_port =
     connect_udp_request
       (ascii ''localhost:'' @ dec (unat udp_port),
        ascii ''/.well-known/masque/udp/127.0.0.1/'' @ dec (unat echo_port) @ ascii ''/'') True e2e_auth"

definition e2e_connect_udp_roundtrip ::
    "libs \<Rightarrow> masque_env \<Rightarrow> ip_env \<Rightarrow> str \<times> str \<Rightarrow> sockaddr \<Rightarrow> ip_world \<Rightarrow> u16 \<Rightarrow> u16 \<Rightarrow> nat \<Rightarrow> bool" where
  "e2e_connect_udp_roundtrip l env ienv pems peer w udp_port echo_port limit \<longleftrightarrow>
     (let env = env\<lparr>m_udp_inputs := udp_echo_inputs limit\<rparr>;
          es = sr_events (fst (serve_request l env ienv (e2e_config pems udp_port) peer (e2e_connect_udp_request udp_port echo_port) w)) in
      Response OK [(ascii ''capsule-protocol'', ascii ''?1'')] \<in> set es
      \<and> UdpSocketConnect (SocketAddr (V4 (v4 127 0 0 1)) echo_port) \<in> set es
      \<and> sent_up es = [udp_payload1, udp_payload2]
      \<and> sent_down es = [0x00 # udp_payload1, 0x00 # udp_payload2])"

lemma template_segments:
  assumes "47 \<notin> set a" and "47 \<notin> set b"
  shows "split_char 47 (a @ 47 # b @ [47]) = [a, b, []]"
  using assms by (simp add: split_char_join split_char_single)

lemma e2e_udp_target:
  assumes "reads_samples l encode"
  shows "parse_target l (e2e_connect_udp_request udp_port echo_port) = Some (Ip (V4 (v4 127 0 0 1)), echo_port)"
proof -
  have d: "47 \<notin> set (dec n)" for n using dec_digits by (fastforce simp: is_digit_def between_def)
  have p: "percent_decode_utf8 l (ascii ''127.0.0.1'') = Some (ascii ''127.0.0.1'')"
    using assms utf8_valid_ascii by (simp add: reads_samples_def)
  have h: "parse_target_host l (ascii ''127.0.0.1'') = Some (Ip (V4 (v4 127 0 0 1)))"
    using p sample_addresses(1) by (simp add: parse_target_host_def)
  have path: "rq_path (e2e_connect_udp_request udp_port echo_port)
      = MASQUE_UDP_PATH_PREFIX @ ascii ''127.0.0.1'' @ 47 # dec (unat echo_port) @ [47]"
    by (simp add: e2e_connect_udp_request_def connect_udp_request_def MASQUE_UDP_PATH_PREFIX_def)
  have "split_char 47 (ascii ''127.0.0.1'' @ 47 # dec (unat echo_port) @ [47])
      = [ascii ''127.0.0.1'', dec (unat echo_port), []]"
    by (rule template_segments) (simp_all add: d)
  moreover have "dec (unat echo_port) \<noteq> []" by (subst dec.simps) simp
  moreover have "ascii ''127.0.0.1'' \<noteq> []" by simp
  ultimately show ?thesis
    unfolding parse_target_def path by (simp add: parse_u16_dec h del: ascii_simps)
qed

lemma udp_echo_loop:
  assumes "37 \<le> limit"
  shows "udp_loop (udp_echo_inputs limit) = [UdpSend udp_payload1, Datagram (0x00 # udp_payload1),
     UdpSend udp_payload2, Datagram (0x00 # udp_payload2)]"
proof -
  have "strip_context_id ([0x40, 0x2A] @ ascii ''must-be-dropped'') = None"
    by (simp add: strip_context_id_def get_varint_def)
  moreover have "length udp_payload1 = 28" "length udp_payload2 = 28"
    by (simp_all add: udp_payload1_def udp_payload2_def)
  ultimately show ?thesis
    using assms by (simp add: udp_echo_inputs_def udp_test_datagrams_def strip_context_id_zero too_big_def DATAGRAM_OVERHEAD_def
        UDP_PACKET_MAX_LEN_def Let_def)
qed

lemma e2e_connect_udp_roundtrip:
  assumes "reads_samples l encode" and "answers_delivered env" and "m_udp_bind_ok env"
    and "m_udp_connect_ok env" and "37 \<le> limit"
  shows "e2e_connect_udp_roundtrip l env ienv pems peer w udp_port echo_port limit"
proof -
  let ?req = "e2e_connect_udp_request udp_port echo_port"
  have "validate_connect_udp l ?req (auth_token (e2e_config pems udp_port)) = Inr (Ip (V4 (v4 127 0 0 1)), echo_port)"
    using e2e_authorised [OF assms(1), of ?req] e2e_udp_target [OF assms(1)]
    by (simp add: validate_connect_udp_def e2e_connect_udp_request_def sample_header)
  moreover have "classify ?req = UdpTunnel"
    by (simp add: classify_def e2e_connect_udp_request_def Let_def)
  moreover have "\<not> block_special_addrs (e2e_config pems udp_port)"
    by (simp add: block_special_addrs_def e2e_config_def default_config_def)
  ultimately show ?thesis
    using assms(2-4) udp_echo_loop [OF assms(5)]
    by (simp add: e2e_connect_udp_roundtrip_def serve_request_def handle_stream_def after_def resolve_target_def
        target_of_def ret_def lookups_def tell_def respond_def answers_delivered_def sent_up_def sent_down_def
        List.map_filter_simps Let_def del: ascii_simps)
qed

section \<open>The client of the CONNECT-IP test\<close>

text \<open>\<open>while let Some(..) = split_capsule(&body[scanned..])\<close>: the last ADDRESS_ASSIGN and
  ROUTE_ADVERTISEMENT seen; \<open>None\<close> when one of them is malformed.\<close>

type_synonym signals = "assigned_address list option \<times> ip_range list option"

function scan_body :: "byte list \<Rightarrow> signals \<Rightarrow> signals option" where
  "scan_body body st =
     (case split_capsule body of
        None \<Rightarrow> Some st
      | Some (typ, val, used) \<Rightarrow>
          if typ = CAPSULE_ADDRESS_ASSIGN then
            (case decode_address_value val of
               None \<Rightarrow> None
             | Some es \<Rightarrow> scan_body (drop used body) (Some es, snd st))
          else if typ = CAPSULE_ROUTE_ADVERTISEMENT then
            (case decode_route_value val of
               None \<Rightarrow> None
             | Some rs \<Rightarrow> scan_body (drop used body) (fst st, Some rs))
          else scan_body (drop used body) st)"
  by pat_completeness auto
termination
  by (relation "measure (\<lambda>(body, _). length body)") (auto dest: split_capsule_consumed)

declare scan_body.simps [simp del]

text \<open>The loop over the chunks of the stream: the body is scanned again from its start after every
  chunk, until both capsules are there or the stream ends.\<close>

fun read_signals :: "byte list \<Rightarrow> signals \<Rightarrow> byte list list \<Rightarrow> signals option" where
  "read_signals body st [] = Some st"
| "read_signals body st (chunk # chunks) =
     (case scan_body (body @ chunk) st of
        None \<Rightarrow> None
      | Some st \<Rightarrow>
          if fst st \<noteq> None \<and> snd st \<noteq> None then Some st else read_signals (body @ chunk) st chunks)"

definition assign_capsule :: "ipaddr \<Rightarrow> byte \<Rightarrow> byte list" where
  "assign_capsule client plen =
     encode_address_assign [\<lparr>request_id = 0, address = client, prefix_len = plen\<rparr>]"

definition route_capsule :: "ipaddr \<Rightarrow> byte list" where
  "route_capsule client = encode_route_advertisement [default_route_range client]"

definition valid_prefix :: "ipaddr \<Rightarrow> byte \<Rightarrow> bool" where
  "valid_prefix client plen \<longleftrightarrow> (case client of V4 _ \<Rightarrow> plen \<le> 32 | V6 _ \<Rightarrow> plen \<le> 128)"

lemma signal_values:
  assumes "valid_prefix client plen"
  shows "decode_address_value (encode_address_value [\<lparr>request_id = 0, address = client, prefix_len = plen\<rparr>])
      = Some [\<lparr>request_id = 0, address = client, prefix_len = plen\<rparr>]"
    and "decode_route_value (encode_route_value [default_route_range client]) = Some [default_route_range client]"
proof -
  have "list_all valid_assigned [\<lparr>request_id = 0, address = client, prefix_len = plen\<rparr>]"
    using assms by (cases client) (simp_all add: valid_assigned_def valid_prefix_def)
  then show "decode_address_value (encode_address_value [\<lparr>request_id = 0, address = client, prefix_len = plen\<rparr>])
      = Some [\<lparr>request_id = 0, address = client, prefix_len = plen\<rparr>]"
    unfolding decode_address_value_def by (simp only: addresses.decode_encode_iff)
  have "list_all valid_range [default_route_range client]"
    by (cases client) (simp_all add: valid_range_def default_route_range_def)
  then show "decode_route_value (encode_route_value [default_route_range client]) = Some [default_route_range client]"
    unfolding decode_route_value_def by (simp only: routes.decode_encode_iff)
qed

lemma signal_sizes:
  "length (encode_address_value [\<lparr>request_id = 0, address = client, prefix_len = plen\<rparr>]) < 4611686018427387904"
  "length (encode_route_value [default_route_range client]) < 4611686018427387904"
  by (cases client; simp add: default_route_range_def)+

lemma split_assign:
  "split_capsule (assign_capsule client plen @ rest)
    = Some (CAPSULE_ADDRESS_ASSIGN, encode_address_value [\<lparr>request_id = 0, address = client, prefix_len = plen\<rparr>],
        length (assign_capsule client plen))"
  unfolding assign_capsule_def encode_address_assign_def
  by (rule split_encode_capsule) (simp_all add: capsule_type_defs signal_sizes del: encode_address_value.simps)

lemma split_route:
  "split_capsule (route_capsule client @ rest)
    = Some (CAPSULE_ROUTE_ADVERTISEMENT, encode_route_value [default_route_range client], length (route_capsule client))"
  unfolding route_capsule_def encode_route_advertisement_def
  by (rule split_encode_capsule) (simp_all add: capsule_type_defs signal_sizes del: encode_route_value.simps)

lemma split_part_assign: "assign_capsule client plen = b @ c \<Longrightarrow> c \<noteq> [] \<Longrightarrow> split_capsule b = None"
  unfolding assign_capsule_def encode_address_assign_def
  by (rule split_capsule_strict_prefix) (simp_all add: capsule_type_defs signal_sizes del: encode_address_value.simps)

lemma split_part_route: "route_capsule client = b @ c \<Longrightarrow> c \<noteq> [] \<Longrightarrow> split_capsule b = None"
  unfolding route_capsule_def encode_route_advertisement_def
  by (rule split_capsule_strict_prefix) (simp_all add: capsule_type_defs signal_sizes del: encode_route_value.simps)

lemma split_nothing: "split_capsule [] = None"
  by (simp add: split_capsule_def get_varint_def)

lemma scan_assign:
  assumes "valid_prefix client plen"
  shows "scan_body (assign_capsule client plen @ rest) st
    = scan_body rest (Some [\<lparr>request_id = 0, address = client, prefix_len = plen\<rparr>], snd st)"
  by (subst scan_body.simps)
     (simp add: split_assign signal_values(1) [OF assms] del: encode_address_value.simps)

lemma scan_route:
  assumes "valid_prefix client plen"
  shows "scan_body (route_capsule client @ rest) st = scan_body rest (fst st, Some [default_route_range client])"
proof -
  have "CAPSULE_ROUTE_ADVERTISEMENT \<noteq> CAPSULE_ADDRESS_ASSIGN" by (simp add: capsule_type_defs)
  then show ?thesis
    by (subst scan_body.simps) (simp add: split_route signal_values(2) [OF assms] del: encode_route_value.simps)
qed

text \<open>What a scan of the first bytes of the two capsules finds.\<close>

lemma append_eq_cases:
  assumes "a @ r = b @ c"
  obtains (part) d where "a = b @ d" "d \<noteq> []" | (whole) d where "b = a @ d" "r = d @ c"
  using assms by (auto simp: append_eq_append_conv2) (metis append_Nil2)+

lemma scan_parts:
  assumes "valid_prefix client plen" and "assign_capsule client plen @ route_capsule client = b @ c" and "c \<noteq> []"
    and "fst st \<in> {None, Some [\<lparr>request_id = 0, address = client, prefix_len = plen\<rparr>]}" and "snd st = None"
  shows "\<exists>a \<in> {None, Some [\<lparr>request_id = 0, address = client, prefix_len = plen\<rparr>]}.
    scan_body b st = Some (a, None)"
  using assms(2)
proof (cases rule: append_eq_cases)
  case (part d)
  then have "scan_body b st = Some st" using split_part_assign by (subst scan_body.simps) simp
  with assms(4,5) show ?thesis by (intro bexI [of _ "fst st"]) (simp_all add: prod_eq_iff)
next
  case (whole d)
  have "scan_body d st' = Some st'" for st'
    using split_part_route [OF whole(2) assms(3)] by (subst scan_body.simps) simp
  with whole(1) assms(5) show ?thesis by (auto simp: scan_assign [OF assms(1)])
qed

lemma scan_both:
  assumes "valid_prefix client plen"
  shows "scan_body (assign_capsule client plen @ route_capsule client) st
    = Some (Some [\<lparr>request_id = 0, address = client, prefix_len = plen\<rparr>], Some [default_route_range client])"
proof -
  have "scan_body [] st' = Some st'" for st' by (subst scan_body.simps) (simp add: split_nothing)
  with scan_route [OF assms, of "[]"] show ?thesis by (simp add: scan_assign [OF assms])
qed

lemma read_signals_chunks:
  assumes "valid_prefix client plen"
    and "body @ concat cs = assign_capsule client plen @ route_capsule client" and "concat cs \<noteq> []"
    and "fst st \<in> {None, Some [\<lparr>request_id = 0, address = client, prefix_len = plen\<rparr>]}" and "snd st = None"
  shows "read_signals body st cs
    = Some (Some [\<lparr>request_id = 0, address = client, prefix_len = plen\<rparr>], Some [default_route_range client])"
  using assms(2-5)
proof (induction cs arbitrary: body st)
  case (Cons chunk cs)
  show ?case
  proof (cases "concat cs = []")
    case True
    with Cons.prems(1) have "body @ chunk = assign_capsule client plen @ route_capsule client" by simp
    then show ?thesis by (simp add: scan_both [OF assms(1)])
  next
    case False
    have b: "assign_capsule client plen @ route_capsule client = (body @ chunk) @ concat cs"
      using Cons.prems(1) by simp
    from scan_parts [OF assms(1) b False Cons.prems(3,4)] obtain a where
      a: "a \<in> {None, Some [\<lparr>request_id = 0, address = client, prefix_len = plen\<rparr>]}"
        "scan_body (body @ chunk) st = Some (a, None)" by blast
    from Cons.IH [of "body @ chunk" "(a, None)"] a False Cons.prems(1) show ?thesis by simp
  qed
qed simp

lemma allocate_valid: "allocate p = (Inr (proxy, client, plen), p') \<Longrightarrow> valid_prefix client plen"
  using allocate_prefix [of p proxy client plen p']
  by (cases client) (simp_all add: valid_prefix_def valid_assigned_def)

lemma no_stream_bytes: "(\<And>d. StreamData d \<notin> set es) \<Longrightarrow> stream_bytes es = []"
proof (induction es)
  case (Cons e es)
  then have "stream_bytes es = []" and "StreamData d \<noteq> e" for d by auto
  then show ?case by (cases e) (auto simp: stream_bytes_def List.map_filter_simps)
qed simp

lemma ip_loop_stream_bytes: "stream_bytes (ip_loop ins) = []"
  by (rule no_stream_bytes) (rule ip_loop_no_stream_data)

lemma stream_bytes_cons:
  "stream_bytes (Response s h # es) = stream_bytes es" "stream_bytes (StreamData d # es) = d @ stream_bytes es"
  "stream_bytes (Datagram g # es) = stream_bytes es" "stream_bytes (TunWrite g # es) = stream_bytes es"
  by (simp_all add: stream_bytes_def List.map_filter_simps)

text \<open>(C16) A client that follows RFC 9484 learns its address: when a CONNECT-IP session has got as far as its
  packet loop, the client's loop over the stream, however the bytes are cut into chunks, ends with
  exactly the address and prefix that the session took from the pool, under Request ID 0, and the
  default route of its family.
\<close>

theorem client_learns_address:
  assumes "handle_ip_stream l env config req w = ((session, Inr u), w')" and "admitted (l, env, config, req)"
    and "i_assign_ok env" and "i_route_ok env" and "concat cs = stream_bytes (main_events session)"
  shows "\<exists>proxy client plen. fst (allocate (pool w)) = Inr (proxy, client, plen)
    \<and> read_signals [] (None, None) cs
        = Some (Some [\<lparr>request_id = 0, address = client, prefix_len = plen\<rparr>], Some [default_route_range client])"
proof -
  have v: "validate_connect_ip l req (auth_token config) = Inr ()" using assms(2) by (simp add: admitted_def)
  obtain a p' where al: "allocate (pool w) = (a, p')" by fastforce
  with assms(1) v obtain proxy client plen where a: "a = Inr (proxy, client, plen)"
    by (cases a) (auto simp: handle_ip_stream_def)
  obtain d h where cr: "create (i_tun env) (ascii ''auto%d'') proxy client plen (tun_mtu (i_limit env)) (host w) = (d, h)"
    by fastforce
  with assms(1) v al a obtain dev where "d = Inr dev" by (cases d) (auto simp: handle_ip_stream_def)
  with assms(1) v al a cr have t: "ip_tunnel env client plen = (session, Inr u)" by (simp add: handle_ip_stream_def)
  then have "i_respond_ok env OK" by (auto simp: ip_tunnel_def Let_def split: if_splits)
  with t assms(3,4) have "main_events session =
      [Response OK [(ascii ''capsule-protocol'', ascii ''?1'')], StreamData (assign_capsule client plen),
       StreamData (route_capsule client)] @ ip_loop (i_inputs env)"
    by (auto simp: ip_tunnel_def assign_capsule_def route_capsule_def Let_def)
  then have "concat cs = assign_capsule client plen @ route_capsule client"
    by (simp add: assms(5) stream_bytes_cons ip_loop_stream_bytes)
  moreover have "assign_capsule client plen \<noteq> []"
    using split_assign [of client plen "[]"] split_nothing by auto
  ultimately show ?thesis
    using read_signals_chunks [OF allocate_valid [OF al [unfolded a]], of "[]" cs "(None, None)"] al a by simp
qed

theorem client_learns_address_witness:
  "\<exists>session w'. handle_ip_stream plain_libs sample_ip_env sample_ip_config sample_ip_request
      \<lparr>pool = v4_pool 0xC6120000 0xC613FFFF 0, host = busy_host\<rparr> = ((session, Inr ()), w')
    \<and> read_signals [] (None, None)
        [take 3 (stream_bytes (main_events session)), drop 3 (stream_bytes (main_events session))]
      = Some (Some [\<lparr>request_id = 0, address = V4 0xC6120002, prefix_len = 30\<rparr>],
              Some [\<lparr>range_start = V4 0, range_end = V4 0xFFFFFFFF, ip_protocol = 0\<rparr>])"
proof -
  let ?w = "\<lparr>pool = v4_pool 0xC6120000 0xC613FFFF 0, host = busy_host\<rparr>"
  have al: "allocate (pool ?w) = (Inr (V4 0xC6120001, V4 0xC6120002, 30), v4_pool 0xC6120000 0xC613FFFF 1)"
    by (simp add: allocate_def v4_pool_def Let_def)
  from sample_session_reads [OF _ _ this] obtain s w' where
    h: "handle_ip_stream plain_libs sample_ip_env sample_ip_config sample_ip_request ?w = ((s, Inr ()), w')"
    by (auto simp: busy_host_def)
  have "i_assign_ok sample_ip_env" "i_route_ok sample_ip_env" by (simp_all add: sample_ip_env_def)
  from client_learns_address [OF h sample_admitted this,
      of "[take 3 (stream_bytes (main_events s)), drop 3 (stream_bytes (main_events s))]"]
  have "read_signals [] (None, None) [take 3 (stream_bytes (main_events s)), drop 3 (stream_bytes (main_events s))]
      = Some (Some [\<lparr>request_id = 0, address = V4 0xC6120002, prefix_len = 30\<rparr>],
              Some [default_route_range (V4 0xC6120002)])"
    unfolding al by (auto simp del: read_signals.simps)
  with h show ?thesis by (auto simp: default_route_range_def simp del: read_signals.simps)
qed

section \<open>CONNECT-IP end to end\<close>

text \<open>\<open>chop\<close> is how the stream is cut into chunks, \<open>reply\<close> what the kernel answers to the ping. The
  client computes the proxy's address from its own, sends a datagram with Context ID 42 and the ping,
  and gets the reply in a datagram with Context ID 0.\<close>

definition e2e_connect_ip_request :: "u16 \<Rightarrow> request" where
  "e2e_connect_ip_request udp_port =
     (connect_ip_request (ascii ''localhost:'' @ dec (unat udp_port), ascii ''/.well-known/masque/ip/'') True e2e_auth)
       \<lparr>rq_protocol := protocol_from_str (ascii ''connect-ip'')\<rparr>"

definition ping_inputs :: "byte list \<Rightarrow> nat \<Rightarrow> byte list \<Rightarrow> ip_input list" where
  "ping_inputs ping limit reply =
     [ClientPacket (Some [0x40, 0x2A, 0x00]), ClientPacket (Some (0x00 # ping)), TunRead (Some reply) (Some limit) True]"

text \<open>What the test requires of the reply: a raw IPv4 packet with ICMP from the proxy's address.\<close>

definition ping_reply :: "u32 \<Rightarrow> byte list \<Rightarrow> bool" where
  "ping_reply proxy pkt \<longleftrightarrow> 20 \<le> length pkt \<and> drop_bit 4 (pkt ! 0) = 4 \<and> pkt ! 9 = 1
     \<and> take 4 (drop 12 pkt) = octets4 proxy"

definition e2e_connect_ip_roundtrip ::
    "libs \<Rightarrow> masque_env \<Rightarrow> ip_env \<Rightarrow> str \<times> str \<Rightarrow> sockaddr \<Rightarrow> ip_world \<Rightarrow> u16 \<Rightarrow> (byte list \<Rightarrow> byte list list) \<Rightarrow> nat \<Rightarrow> byte list \<Rightarrow> bool"
  where
  "e2e_connect_ip_roundtrip l env ienv pems peer w udp_port chop limit reply \<longleftrightarrow>
     (let run = (\<lambda>ins. sr_events (fst (serve_request l env (ienv\<lparr>i_inputs := ins\<rparr>) (e2e_config pems udp_port) peer
                   (e2e_connect_ip_request udp_port) w))) in
      Response OK [(ascii ''capsule-protocol'', ascii ''?1'')] \<in> set (run [])
      \<and> (case read_signals [] (None, None) (chop (stream_bytes (run []))) of
           Some (Some [a], Some ranges) \<Rightarrow>
             ranges \<noteq> []
             \<and> (case address a of
                  V6 _ \<Rightarrow> False
                | V4 client \<Rightarrow>
                    let ping = icmpv4_echo_request client (client - 1) 0x1234 1;
                        es = run (ping_inputs ping limit reply) in
                    1 \<le> octets4 client ! 3
                    \<and> tun_writes es = [ping]
                    \<and> (case sent_down es of
                         [dgram] \<Rightarrow> dgram ! 0 = 0x00 \<and> ping_reply (client - 1) (drop 1 dgram)
                       | _ \<Rightarrow> False))
         | _ \<Rightarrow> False))"

lemma ping_loop:
  assumes "reply \<noteq> []" and "length reply + 9 \<le> limit" and "length reply \<le> 65535"
  shows "ip_loop (ping_inputs ping limit reply) = [TunWrite ping, Datagram (0x00 # reply)]"
proof -
  have "strip_context_id [0x40, 0x2A, 0x00] = None" by (simp add: strip_context_id_def get_varint_def)
  with assms show ?thesis
    by (simp add: ping_inputs_def strip_context_id_zero too_big_def DATAGRAM_OVERHEAD_def Let_def)
qed

lemma e2e_connect_ip_roundtrip:
  assumes "reads_samples l encode" and "\<And>s. i_respond_ok ienv s" and "i_assign_ok ienv" and "i_route_ok ienv"
    and "allocate (pool w) = (Inr (V4 proxy, V4 client, plen), p')"
    and "create (i_tun ienv) (ascii ''auto%d'') (V4 proxy) (V4 client) plen (tun_mtu (i_limit ienv)) (host w)
           = (Inr dev, h)"
    and "1 \<le> octets4 client ! 3" and "\<And>bs. concat (chop bs) = bs"
    and "ping_reply (client - 1) reply" and "length reply + 9 \<le> limit" and "length reply \<le> 65535"
  shows "e2e_connect_ip_roundtrip l env ienv pems peer w udp_port chop limit reply"
proof -
  let ?req = "e2e_connect_ip_request udp_port"
  let ?ok = "Response OK [(ascii ''capsule-protocol'', ascii ''?1'')]"
  let ?c = "V4 client"
  have p: "protocol_from_str (ascii ''connect-ip'') = Some (Other (ascii ''connect-ip''))"
    by (simp add: protocol_from_str_def)
  have path: "is_connect_ip_path (ascii ''/.well-known/masque/ip/'')"
    using connect_ip_path_detection by (simp only: connect_ip_path_detection_def)
  have "check_proxy_auth l ?req (auth_token (e2e_config pems udp_port))"
    by (rule e2e_authorised [OF assms(1)])
       (simp only: e2e_connect_ip_request_def sample_protocols sample_header)
  then have v: "validate_connect_ip l ?req (auth_token (e2e_config pems udp_port)) = Inr ()"
    by (simp add: validate_connect_ip_def e2e_connect_ip_request_def sample_header path p del: ascii_simps)
  have c: "classify ?req = IpTunnel"
  proof -
    have "rq_protocol ?req = Some (Other (ascii ''connect-ip''))" "is_connect ?req"
      by (simp_all add: e2e_connect_ip_request_def p del: ascii_simps)
    moreover have "as_str (Other (ascii ''connect-ip'')) = ascii ''connect-ip''"
      by (simp add: as_str_def from_utf8_def)
    ultimately show ?thesis by (simp add: classify_def Let_def del: ascii_simps)
  qed
  have "reply \<noteq> []" using assms(9) by (auto simp: ping_reply_def)
  note loop = ping_loop [OF this assms(10,11)]
  have run: "sr_events (fst (serve_request l env (ienv\<lparr>i_inputs := ins\<rparr>) (e2e_config pems udp_port) peer ?req w))
      = [?ok, StreamData (assign_capsule ?c plen), StreamData (route_capsule ?c)] @ ip_loop ins" for ins
    using assms(2-4) by (simp add: serve_request_def c handle_ip_stream_def v assms(5,6) ip_tunnel_def
        assign_capsule_def route_capsule_def Let_def del: ascii_simps)
  have "assign_capsule ?c plen \<noteq> []" using split_assign [of ?c plen "[]"] split_nothing by auto
  then have signals: "read_signals [] (None, None) (chop (assign_capsule ?c plen @ route_capsule ?c))
      = Some (Some [\<lparr>request_id = 0, address = ?c, prefix_len = plen\<rparr>], Some [default_route_range ?c])"
    by (intro read_signals_chunks [OF allocate_valid [OF assms(5)]]) (simp_all add: assms(8))
  show ?thesis
    unfolding e2e_connect_ip_roundtrip_def run
    using assms(7,9)
    by (simp add: loop stream_bytes_cons signals tun_writes_def sent_down_def List.map_filter_simps Let_def
        del: ascii_simps)
qed

end
