(* ===== verification/Service.thy ===== *)
theory Service
  imports Config
begin

text \<open>
  \<open>src/service.rs\<close>: installing, starting and removing the system service. The texts written to the unit
  file and the init script are modelled byte for byte. The file system is a map from paths to contents
  and modes; what the program cannot decide (which directories exist, which writes fail, what a failed copy
  leaves behind, how a command ends) is the environment. Commands are recorded in the order in which they are attempted; what the
  service manager does to files of its own is not modelled. The messages on standard output are left
  out.
\<close>

section \<open>Host\<close>

record svc_env =
  proc_status :: "str option"
  path_var :: "str option"
  is_dir :: "str \<Rightarrow> bool"
  current_exe :: "str option"
  canonical :: "str \<Rightarrow> str option"
  current_dir :: "str option"
  executes :: "str \<Rightarrow> str list \<Rightarrow> bool option"
  create_ok :: "str \<Rightarrow> bool"
  write_stops :: "str \<Rightarrow> nat option"
  new_mode :: nat
  chmod_ok :: "str \<Rightarrow> bool"
  remove_ok :: "str \<Rightarrow> bool"
  create_dir_ok :: "str \<Rightarrow> bool"
  copy_fails :: "str \<Rightarrow> str \<Rightarrow> (str \<times> nat) option option"

record svc_host =
  files :: "str \<Rightarrow> (str \<times> nat) option"
  new_dirs :: "str list"
  ran :: "(str \<times> str list) list"

type_synonym 'a svc = "(svc_host, 'a) effect"

definition path_exists :: "svc_env \<Rightarrow> svc_host \<Rightarrow> str \<Rightarrow> bool" where
  "path_exists env h p = (is_dir env p \<or> p \<in> set (new_dirs h) \<or> files h p \<noteq> None)"

section \<open>Paths\<close>

abbreviation slash :: byte where "slash \<equiv> 47"

definition is_absolute :: "str \<Rightarrow> bool" where
  "is_absolute p = starts_with [slash] p"

text \<open>\<open>Path::join\<close>.\<close>

definition path_join :: "str \<Rightarrow> str \<Rightarrow> str" where
  "path_join dir p =
     (if is_absolute p then p
      else if dir = [] \<or> last dir = slash then dir @ p
      else dir @ [slash] @ p)"

text \<open>The components of an absolute path (repeated separators and \<open>.\<close> do not count), and the path
  without its last one; the root has no parent.\<close>

definition path_components :: "str \<Rightarrow> str list" where
  "path_components p = filter (\<lambda>c. c \<noteq> [] \<and> c \<noteq> ascii ''.'') (split_char slash p)"

fun path_of :: "str list \<Rightarrow> str" where
  "path_of [] = [slash]"
| "path_of [c] = slash # c"
| "path_of (c # cs) = slash # c @ path_of cs"

definition path_parent :: "str \<Rightarrow> str option" where
  "path_parent p =
     (if path_components p = [] then None else Some (path_of (butlast (path_components p))))"

section \<open>Rights, init system, commands\<close>

definition SERVICE_NAME :: str where "SERVICE_NAME = ascii ''auto-server''"
definition SYSTEMD_UNIT_PATH :: str where
  "SYSTEMD_UNIT_PATH = ascii ''/etc/systemd/system/auto-server.service''"
definition SYSV_SCRIPT_PATH :: str where "SYSV_SCRIPT_PATH = ascii ''/etc/init.d/auto-server''"

definition is_root :: "svc_env \<Rightarrow> bool" where
  "is_root env =
     (case proc_status env of
        None \<Rightarrow> False
      | Some s \<Rightarrow>
          (case find (starts_with (ascii ''Uid:'')) (lines s) of
             None \<Rightarrow> False
           | Some l \<Rightarrow>
               (case split_whitespace l of
                  _ # u # _ \<Rightarrow> parse_uint (2 ^ 32) u = Some 0
                | _ \<Rightarrow> False)))"

definition ensure_root :: "svc_env \<Rightarrow> unit svc" where
  "ensure_root env = (if is_root env then ret () else bail ''This command must be run as root'')"

datatype init_system = Systemd | OpenRc | SysV

definition command_exists :: "svc_env \<Rightarrow> svc_host \<Rightarrow> str \<Rightarrow> bool" where
  "command_exists env h name =
     (case path_var env of
        None \<Rightarrow> False
      | Some path \<Rightarrow> list_ex (\<lambda>dir. files h (path_join dir name) \<noteq> None) (split_char 58 path))"

definition detect_init :: "svc_env \<Rightarrow> init_system svc" where
  "detect_init env = (\<lambda>h.
     if path_exists env h (ascii ''/run/systemd/system'') then (Inr Systemd, h)
     else if command_exists env h (ascii ''rc-update'') \<or> path_exists env h (ascii ''/sbin/openrc'')
     then (Inr OpenRc, h)
     else if is_dir env (ascii ''/etc/init.d'') then (Inr SysV, h)
     else (Inl ''Could not detect a supported init system'', h))"

definition binary_path :: "svc_env \<Rightarrow> str svc" where
  "binary_path env =
     (case current_exe env of
        None \<Rightarrow> bail ''failed to determine current executable path''
      | Some exe \<Rightarrow>
          (case canonical env exe of
             None \<Rightarrow> bail ''failed to resolve executable path''
           | Some p \<Rightarrow> ret p))"

definition attempt :: "str \<Rightarrow> str list \<Rightarrow> unit svc" where
  "attempt program as = (\<lambda>h. (Inr (), h\<lparr>ran := ran h @ [(program, as)]\<rparr>))"

definition run_cmd :: "svc_env \<Rightarrow> str \<Rightarrow> str list \<Rightarrow> unit svc" where
  "run_cmd env program as =
     andthen (attempt program as) (\<lambda>_.
       case executes env program as of
         None \<Rightarrow> bail ''failed to execute (is it installed?)''
       | Some success \<Rightarrow> if \<not> success then bail ''command failed'' else ret ())"

definition run_cmd_ignore :: "svc_env \<Rightarrow> str \<Rightarrow> str list \<Rightarrow> unit svc" where
  "run_cmd_ignore env program as = attempt program as"

text \<open>\<open>File::create\<close> empties an existing file and keeps its mode; a write that fails leaves a prefix.\<close>

definition file_create :: "svc_env \<Rightarrow> str \<Rightarrow> unit svc" where
  "file_create env path = (\<lambda>h.
     if create_ok env path
     then (Inr (), h\<lparr>files := (files h)(path \<mapsto>
             ([], case files h path of Some (_, mode) \<Rightarrow> mode | None \<Rightarrow> new_mode env))\<rparr>)
     else (Inl ''failed to create'', h))"

definition file_write_all :: "svc_env \<Rightarrow> str \<Rightarrow> str \<Rightarrow> unit svc" where
  "file_write_all env path content = (\<lambda>h.
     let keep = (\<lambda>text. h\<lparr>files := (files h)(path := map_option (\<lambda>(_, mode). (text, mode)) (files h path))\<rparr>) in
     case write_stops env path of
       Some n \<Rightarrow> (Inl ''failed to write'', keep (take n content))
     | None \<Rightarrow> (Inr (), keep content))"

definition set_permissions :: "svc_env \<Rightarrow> str \<Rightarrow> nat \<Rightarrow> unit svc" where
  "set_permissions env path mode = (\<lambda>h.
     if chmod_ok env path
     then (Inr (), h\<lparr>files := (files h)(path := map_option (\<lambda>(text, _). (text, mode)) (files h path))\<rparr>)
     else (Inl ''failed to set permissions'', h))"

definition write_file :: "svc_env \<Rightarrow> str \<Rightarrow> str \<Rightarrow> nat \<Rightarrow> unit svc" where
  "write_file env path content mode =
     andthen (file_create env path) (\<lambda>_.
     andthen (file_write_all env path content) (\<lambda>_.
     set_permissions env path mode))"

definition remove_if_exists :: "svc_env \<Rightarrow> str \<Rightarrow> unit svc" where
  "remove_if_exists env path = (\<lambda>h.
     if path_exists env h path then
       (if remove_ok env path then (Inr (), h\<lparr>files := (files h)(path := None)\<rparr>)
        else (Inl ''failed to remove'', h))
     else (Inr (), h))"

section \<open>The unit file\<close>

text \<open>\<open>replace\<close> of a one-byte pattern, and \<open>join\<close> with a space.\<close>

definition replace_byte :: "byte \<Rightarrow> str \<Rightarrow> str \<Rightarrow> str" where
  "replace_byte c w s = concat (map (\<lambda>x. if x = c then w else [x]) s)"

fun join_space :: "str list \<Rightarrow> str" where
  "join_space [] = []"
| "join_space [w] = w"
| "join_space (w # ws) = w @ 32 # join_space ws"

definition text_line :: "str \<Rightarrow> str" where
  "text_line l = l @ [10]"

definition systemd_quote :: "str \<Rightarrow> str" where
  "systemd_quote s = 34 # replace_byte 34 [92, 34] (replace_byte 92 [92, 92] s) @ [34]"

definition systemd_exec :: "str \<Rightarrow> str list \<Rightarrow> str" where
  "systemd_exec bin as = join_space (systemd_quote bin # map systemd_quote as)"

definition unit_lines :: "str \<Rightarrow> str list \<Rightarrow> str list" where
  "unit_lines bin as =
     [ascii ''[Unit]'',
      ascii ''Description=auto-server SOCKS + HTTP CONNECT proxy'',
      ascii ''After=network-online.target'',
      ascii ''Wants=network-online.target'',
      [],
      ascii ''[Service]'',
      ascii ''Type=simple'',
      ascii ''ExecStart='' @ systemd_exec bin as,
      ascii ''Restart=on-failure'',
      ascii ''RestartSec=5'',
      [],
      ascii ''[Install]'',
      ascii ''WantedBy=multi-user.target'']"

definition systemd_unit :: "str \<Rightarrow> str list \<Rightarrow> str" where
  "systemd_unit bin as = concat (map text_line (unit_lines bin as))"

section \<open>The init script\<close>

definition sh_quote :: "str \<Rightarrow> str" where
  "sh_quote s = 39 # replace_byte 39 [39, 92, 39, 39] s @ [39]"

definition sh_quote_join :: "str list \<Rightarrow> str" where
  "sh_quote_join as = join_space (map sh_quote as)"

definition script_head :: "str list" where
  \<open>script_head =
     [ascii ''#!/bin/sh'',
      ascii ''### BEGIN INIT INFO'',
      ascii ''# Provides:          auto-server'',
      ascii ''# Required-Start:    $network $remote_fs $syslog'',
      ascii ''# Required-Stop:     $network $remote_fs $syslog'',
      ascii ''# Default-Start:     2 3 4 5'',
      ascii ''# Default-Stop:      0 1 6'',
      ascii ''# Short-Description: auto-server SOCKS + HTTP CONNECT proxy'',
      ascii ''# Description:       auto-server proxy server'',
      ascii ''### END INIT INFO'',
      [],
      ascii ''NAME=auto-server'']\<close>

definition script_tail :: "str list" where
  \<open>script_tail =
     [ascii ''PIDFILE=/var/run/auto-server.pid'',
      ascii ''LOGFILE=/var/log/auto-server.log'',
      [],
      ascii ''start() {'',
      ascii ''    if [ -f "$PIDFILE" ] && kill -0 "$(cat "$PIDFILE")" 2>/dev/null; then'',
      ascii ''        echo "$NAME is already running"'',
      ascii ''        return 0'',
      ascii ''    fi'',
      ascii ''    echo "Starting $NAME..."'',
      ascii ''    setsid "$DAEMON" $DAEMON_ARGS >"$LOGFILE" 2>&1 < /dev/null &'',
      ascii ''    echo $! > "$PIDFILE"'',
      ascii ''    return 0'',
      ascii ''}'',
      [],
      ascii ''stop() {'',
      ascii ''    if [ ! -f "$PIDFILE" ] || ! kill -0 "$(cat "$PIDFILE")" 2>/dev/null; then'',
      ascii ''        echo "$NAME is not running"'',
      ascii ''        return 0'',
      ascii ''    fi'',
      ascii ''    echo "Stopping $NAME..."'',
      ascii ''    kill "$(cat "$PIDFILE")" 2>/dev/null'',
      ascii ''    rm -f "$PIDFILE"'',
      ascii ''    return 0'',
      ascii ''}'',
      [],
      ascii ''case "$1" in'',
      ascii ''    start) start ;;'',
      ascii ''    stop) stop ;;'',
      ascii ''    restart) stop; start ;;'',
      ascii ''    status)'',
      ascii ''        if [ -f "$PIDFILE" ] && kill -0 "$(cat "$PIDFILE")" 2>/dev/null; then'',
      ascii ''            echo "$NAME is running (pid $(cat "$PIDFILE"))"; exit 0'',
      ascii ''        else'',
      ascii ''            echo "$NAME is not running"; exit 3'',
      ascii ''        fi'',
      ascii ''        ;;'',
      ascii ''    *) echo "Usage: $0 {start|stop|restart|status}"; exit 1 ;;'',
      ascii ''esac'',
      ascii ''exit 0'']\<close>

definition script_lines :: "str \<Rightarrow> str list \<Rightarrow> str list" where
  \<open>script_lines bin as =
     script_head
     @ [ascii ''DAEMON="'' @ bin @ ascii ''"'', ascii ''DAEMON_ARGS="'' @ sh_quote_join as @ ascii ''"'']
     @ script_tail\<close>

definition init_script :: "str \<Rightarrow> str list \<Rightarrow> str" where
  "init_script bin as = concat (map text_line (script_lines bin as))"

section \<open>The subcommands\<close>

definition copy_dest :: "svc_env \<Rightarrow> str \<Rightarrow> str svc" where
  "copy_dest env given =
     (if is_absolute given then ret given
      else (case current_dir env of
              None \<Rightarrow> bail ''failed to determine current directory''
            | Some cwd \<Rightarrow> ret (path_join cwd given)))"

definition create_parent :: "svc_env \<Rightarrow> str \<Rightarrow> unit svc" where
  "create_parent env dest = (\<lambda>h.
     case path_parent dest of
       None \<Rightarrow> (Inr (), h)
     | Some parent \<Rightarrow>
         if parent \<noteq> [] \<and> \<not> path_exists env h parent then
           (if create_dir_ok env parent then (Inr (), h\<lparr>new_dirs := new_dirs h @ [parent]\<rparr>)
            else (Inl ''failed to create directory'', h))
         else (Inr (), h))"

text \<open>\<open>fs::copy\<close> takes the mode along; a copy that fails may leave something behind.\<close>

definition copy_file :: "svc_env \<Rightarrow> str \<Rightarrow> str \<Rightarrow> unit svc" where
  "copy_file env src dest = (\<lambda>h.
     case files h src of
       Some f \<Rightarrow>
         (case copy_fails env src dest of
            None \<Rightarrow> (Inr (), h\<lparr>files := (files h)(dest \<mapsto> f)\<rparr>)
          | Some left \<Rightarrow> (Inl ''failed to copy'', h\<lparr>files := (files h)(dest := left)\<rparr>))
     | None \<Rightarrow> (Inl ''failed to copy'', h))"

definition copy_binary :: "svc_env \<Rightarrow> str \<Rightarrow> str \<Rightarrow> unit svc" where
  "copy_binary env src given =
     andthen (copy_dest env given) (\<lambda>dest.
     andthen (create_parent env dest) (\<lambda>_.
     andthen (copy_file env src dest) (\<lambda>_.
     set_permissions env dest 493)))"

definition write_service :: "svc_env \<Rightarrow> str \<Rightarrow> str list \<Rightarrow> init_system \<Rightarrow> unit svc" where
  "write_service env bin as i =
     (case i of
        Systemd \<Rightarrow>
          andthen (with_context ''failed to write systemd unit file''
                    (write_file env SYSTEMD_UNIT_PATH (systemd_unit bin as) 420)) (\<lambda>_.
          with_context ''failed to reload systemd''
            (run_cmd env (ascii ''systemctl'') [ascii ''daemon-reload'']))
      | OpenRc \<Rightarrow>
          with_context ''failed to write OpenRC init script''
            (write_file env SYSV_SCRIPT_PATH (init_script bin as) 493)
      | SysV \<Rightarrow>
          with_context ''failed to write SysV init script''
            (write_file env SYSV_SCRIPT_PATH (init_script bin as) 493))"

definition install :: "svc_env \<Rightarrow> str list \<Rightarrow> str option \<Rightarrow> unit svc" where
  "install env as bin_path =
     andthen
       (case bin_path of
          Some dest \<Rightarrow> andthen (binary_path env) (\<lambda>src. andthen (copy_binary env src dest) (\<lambda>_. ret dest))
        | None \<Rightarrow> binary_path env) (\<lambda>bin.
     andthen (detect_init env) (\<lambda>i. write_service env bin as i))"

definition enable_service :: "svc_env \<Rightarrow> unit svc" where
  "enable_service env =
     andthen (detect_init env) (\<lambda>i.
     case i of
       Systemd \<Rightarrow> run_cmd env (ascii ''systemctl'') [ascii ''enable'', SERVICE_NAME]
     | OpenRc \<Rightarrow> run_cmd env (ascii ''rc-update'') [ascii ''add'', SERVICE_NAME, ascii ''default'']
     | SysV \<Rightarrow> (\<lambda>h.
         if command_exists env h (ascii ''update-rc.d'')
         then run_cmd env (ascii ''update-rc.d'') [SERVICE_NAME, ascii ''defaults''] h
         else if command_exists env h (ascii ''chkconfig'')
         then andthen (run_cmd env (ascii ''chkconfig'') [ascii ''--add'', SERVICE_NAME]) (\<lambda>_.
              run_cmd env (ascii ''chkconfig'') [SERVICE_NAME, ascii ''on'']) h
         else bail ''Could not find `update-rc.d` or `chkconfig` to enable the service.'' h))"

definition start :: "svc_env \<Rightarrow> unit svc" where
  "start env =
     andthen (detect_init env) (\<lambda>i.
     case i of
       Systemd \<Rightarrow> run_cmd env (ascii ''systemctl'') [ascii ''start'', SERVICE_NAME]
     | OpenRc \<Rightarrow> run_cmd env (ascii ''rc-service'') [SERVICE_NAME, ascii ''start'']
     | SysV \<Rightarrow> run_cmd env (ascii ''service'') [SERVICE_NAME, ascii ''start''])"

definition stop :: "svc_env \<Rightarrow> unit svc" where
  "stop env =
     andthen (detect_init env) (\<lambda>i.
     case i of
       Systemd \<Rightarrow> run_cmd env (ascii ''systemctl'') [ascii ''stop'', SERVICE_NAME]
     | OpenRc \<Rightarrow> run_cmd env (ascii ''rc-service'') [SERVICE_NAME, ascii ''stop'']
     | SysV \<Rightarrow> run_cmd env (ascii ''service'') [SERVICE_NAME, ascii ''stop''])"

definition uninstall :: "svc_env \<Rightarrow> unit svc" where
  "uninstall env =
     andthen (detect_init env) (\<lambda>i.
     case i of
       Systemd \<Rightarrow>
         andthen (run_cmd_ignore env (ascii ''systemctl'') [ascii ''stop'', SERVICE_NAME]) (\<lambda>_.
         andthen (run_cmd_ignore env (ascii ''systemctl'') [ascii ''disable'', SERVICE_NAME]) (\<lambda>_.
         andthen (remove_if_exists env SYSTEMD_UNIT_PATH) (\<lambda>_.
         with_context ''failed to reload systemd''
           (run_cmd env (ascii ''systemctl'') [ascii ''daemon-reload'']))))
     | OpenRc \<Rightarrow>
         andthen (run_cmd_ignore env (ascii ''rc-service'') [SERVICE_NAME, ascii ''stop'']) (\<lambda>_.
         andthen (run_cmd_ignore env (ascii ''rc-update'') [ascii ''del'', SERVICE_NAME]) (\<lambda>_.
         remove_if_exists env SYSV_SCRIPT_PATH))
     | SysV \<Rightarrow>
         andthen (run_cmd_ignore env (ascii ''service'') [SERVICE_NAME, ascii ''stop'']) (\<lambda>_.
         andthen (\<lambda>h.
           if command_exists env h (ascii ''update-rc.d'')
           then run_cmd_ignore env (ascii ''update-rc.d'') [ascii ''-f'', SERVICE_NAME, ascii ''remove''] h
           else if command_exists env h (ascii ''chkconfig'')
           then andthen (run_cmd_ignore env (ascii ''chkconfig'') [SERVICE_NAME, ascii ''off'']) (\<lambda>_.
                run_cmd_ignore env (ascii ''chkconfig'') [ascii ''--del'', SERVICE_NAME]) h
           else ret () h) (\<lambda>_.
         remove_if_exists env SYSV_SCRIPT_PATH)))"

definition service_run :: "svc_env \<Rightarrow> service_action \<Rightarrow> unit svc" where
  "service_run env cmd =
     andthen (ensure_root env) (\<lambda>_.
     case cmd of
       Install bin_path as \<Rightarrow> install env as bin_path
     | Enable \<Rightarrow> enable_service env
     | Start \<Rightarrow> start env
     | Stop \<Rightarrow> stop env
     | Uninstall \<Rightarrow> uninstall env)"

end
