(* ===== verification/TestClient.thy ===== *)
theory TestClient
  imports MasqueScenarios Service
begin

text \<open>
  What the end-to-end tests of \<open>src/masque.rs\<close> do around their scenarios: they make a certificate with
  \<open>openssl\<close> and are skipped when that is not to be had, retry the handshake until the server has bound its
  port, and collect the datagrams of the connection. Programs, files and the QUIC endpoint are arguments.
\<close>

section \<open>The certificate\<close>

text \<open>\<open>th_run\<close> is a command's success and standard output, or that it cannot be started; \<open>th_exists\<close> tells
  which files are there once \<open>openssl\<close> has run.\<close>

record test_host =
  th_run :: "command \<Rightarrow> (bool \<times> byte list) option"
  th_exists :: "str \<Rightarrow> bool"
  th_temp_dir :: str
  th_pid :: nat

definition which :: "test_host \<Rightarrow> str \<Rightarrow> str option" where
  "which th name =
     (case th_run th (ascii ''sh'', [ascii ''-c'', ascii ''command -v '' @ name]) of
        None \<Rightarrow> None
      | Some (success, stdout) \<Rightarrow>
          if success then
            let p = trim (from_utf8_lossy stdout) in
            if p = [] then None else Some p
          else None)"

definition openssl_args :: "str \<Rightarrow> str \<Rightarrow> str list" where
  "openssl_args key_path cert =
     map ascii [''req'', ''-x509'', ''-newkey'', ''rsa:2048'', ''-nodes'', ''-keyout''] @ [key_path]
     @ [ascii ''-out'', cert]
     @ map ascii [''-days'', ''1'', ''-subj'', ''/CN=localhost'',
         ''-addext'', ''subjectAltName=DNS:localhost,IP:127.0.0.1'',
         ''-addext'', ''basicConstraints=CA:FALSE'',
         ''-addext'', ''extendedKeyUsage=serverAuth'',
         ''-addext'', ''keyUsage=digitalSignature,keyEncipherment'']"

definition gen_cert :: "test_host \<Rightarrow> (str \<times> str) option" where
  "gen_cert th =
     (case which th (ascii ''openssl'') of
        None \<Rightarrow> None
      | Some openssl \<Rightarrow>
          let dir = path_join (th_temp_dir th) (ascii ''auto-server-masque-'' @ dec (th_pid th));
              key_path = path_join dir (ascii ''key.pem'');
              cert = path_join dir (ascii ''cert.pem'') in
          (case th_run th (openssl, openssl_args key_path cert) of
             None \<Rightarrow> None
           | Some (success, _) \<Rightarrow>
               if \<not> success then None
               else if th_exists th key_path \<and> th_exists th cert then Some (key_path, cert)
               else None))"

lemma gen_cert_Some:
  assumes "gen_cert th = Some (key_path, cert)"
  shows "th_exists th key_path \<and> th_exists th cert"
    and "\<exists>openssl. which th (ascii ''openssl'') = Some openssl \<and> openssl \<noteq> []"
  using assms by (auto simp: gen_cert_def which_def Let_def split: option.splits if_splits)

section \<open>The handshake\<close>

datatype 'c attempt = Connected 'c | HandshakeFailed str | ConnectFailed str

text \<open>The \<open>i\<close>-th attempt and \<open>n - 1\<close> more.\<close>

fun connect_from :: "(nat \<Rightarrow> 'c attempt) \<Rightarrow> nat \<Rightarrow> nat \<Rightarrow> str option \<Rightarrow> str option + 'c" where
  "connect_from attempts i 0 last_err = Inl last_err"
| "connect_from attempts i (Suc n) last_err =
     (case attempts i of
        Connected c \<Rightarrow> Inr c
      | HandshakeFailed e \<Rightarrow> connect_from attempts (Suc i) n (Some (ascii ''handshake: '' @ e))
      | ConnectFailed e \<Rightarrow> connect_from attempts (Suc i) n (Some (ascii ''connect: '' @ e)))"

definition connect_retrying :: "(nat \<Rightarrow> 'c attempt) \<Rightarrow> str option + 'c" where
  "connect_retrying attempts = connect_from attempts 0 100 None"

definition is_connected :: "'c attempt \<Rightarrow> bool" where
  "is_connected a = (case a of Connected _ \<Rightarrow> True | _ \<Rightarrow> False)"

lemma connect_from_Inr:
  assumes "k < n" and "attempts (i + k) = Connected c" and "\<forall>j<k. \<not> is_connected (attempts (i + j))"
  shows "connect_from attempts i n last_err = Inr c"
  using assms
proof (induction k arbitrary: i n last_err)
  case 0
  then show ?case by (cases n) simp_all
next
  case (Suc k)
  then obtain m where n: "n = Suc m" by (cases n) auto
  have "\<not> is_connected (attempts i)" using Suc.prems(3) by force
  moreover have "connect_from attempts (Suc i) m e = Inr c" for e
    using Suc.IH [of m "Suc i" e] Suc.prems n by force
  ultimately show ?case by (cases "attempts i") (simp_all add: n is_connected_def)
qed

lemma connect_from_Inl:
  "\<forall>k<n. \<not> is_connected (attempts (i + k)) \<Longrightarrow> \<exists>e. connect_from attempts i n last_err = Inl e"
proof (induction n arbitrary: i last_err)
  case (Suc n)
  have "\<not> is_connected (attempts i)" using Suc.prems by force
  moreover have "\<exists>e. connect_from attempts (Suc i) n err = Inl e" for err
    using Suc.IH [of "Suc i" err] Suc.prems by force
  ultimately show ?case by (cases "attempts i") (simp_all add: is_connected_def)
qed simp

text \<open>The client gets the first connection that comes about within a hundred attempts.\<close>

lemma first_connection:
  assumes "k < 100" and "attempts k = Connected c" and "\<forall>j<k. \<not> is_connected (attempts j)"
  shows "connect_retrying attempts = Inr c"
  using connect_from_Inr [of k 100 attempts 0 c] assms by (simp add: connect_retrying_def)

lemma no_connection:
  assumes "\<forall>k<100. \<not> is_connected (attempts k)"
  shows "\<exists>e. connect_retrying attempts = Inl e"
  using connect_from_Inl [of 100 attempts 0] assms by (simp add: connect_retrying_def)

section \<open>The datagrams of the client\<close>

text \<open>The task that collects them: what \<open>read_datagram\<close> yields, and whether the channel takes it.\<close>

fun client_datagrams :: "(byte list option \<times> bool) list \<Rightarrow> byte list list" where
  "client_datagrams [] = []"
| "client_datagrams ((None, _) # r) = []"
| "client_datagrams ((Some payload, sent) # r) = (if sent then payload # client_datagrams r else [])"

lemma client_datagrams_all: "client_datagrams (map (\<lambda>d. (Some d, True)) ds) = ds"
  by (induction ds) simp_all

section \<open>A test\<close>

text \<open>Without a certificate a test is skipped; without a connection it fails; otherwise it is its scenario,
  with the server started on the certificate. The CONNECT-IP test is also skipped unless run by root.\<close>

definition e2e_test :: "test_host \<Rightarrow> (nat \<Rightarrow> 'c attempt) \<Rightarrow> (str \<times> str \<Rightarrow> bool) \<Rightarrow> bool" where
  "e2e_test th attempts scenario \<longleftrightarrow>
     (case gen_cert th of
        None \<Rightarrow> True
      | Some pems \<Rightarrow> (case connect_retrying attempts of Inl _ \<Rightarrow> False | Inr _ \<Rightarrow> scenario pems))"

definition root_test :: "nat \<Rightarrow> bool \<Rightarrow> bool" where
  "root_test uid test \<longleftrightarrow> (if uid \<noteq> 0 then True else test)"

text \<open>On a machine that connects a test passes when its scenario holds for every certificate, as the lemmas
  of MasqueScenarios show.\<close>

lemma e2e_test_passes:
  assumes "k < 100" and "attempts k = Connected c" and "\<forall>j<k. \<not> is_connected (attempts j)"
    and "\<And>pems. scenario pems"
  shows "e2e_test th attempts scenario"
  using first_connection [OF assms(1-3)] assms(4) by (simp add: e2e_test_def split: option.split)

end
