(* ===== verification/TunIo.thy ===== *)
theory TunIo
  imports Prelude
begin

text \<open>
  \<open>read_packet\<close> and \<open>write_packet\<close> of \<open>src/tun.rs\<close> at the level of polls. Of tokio's \<open>AsyncFd\<close> the code
  relies on the documented behaviour: readiness is a flag that an event of the descriptor sets and
  \<open>try_io\<close> clears when the call would block; \<open>poll_read_ready\<close> and \<open>poll_write_ready\<close> register the task
  for a wake-up only when they return \<open>Pending\<close>, and an event wakes the registered task once.
\<close>

section \<open>The descriptor\<close>

text \<open>One direction of the descriptor: readiness and whether the task is registered.\<close>

record interest =
  ready_flag :: bool
  waker_set :: bool

record async_fd =
  rx :: interest
  tx :: interest
  queue :: "byte list list"
  room :: nat
  fd_error :: "string option"
  written :: "byte list list"

datatype 'a polled = Pending | Complete 'a

text \<open>\<open>poll_read_ready\<close> and \<open>poll_write_ready\<close>.\<close>

definition poll_ready :: "interest \<Rightarrow> bool \<times> interest" where
  "poll_ready i = (if ready_flag i then (True, i) else (False, i\<lparr>waker_set := True\<rparr>))"

text \<open>\<open>libc::read\<close> and \<open>libc::write\<close> on the non-blocking descriptor; \<open>None\<close> is \<open>EWOULDBLOCK\<close>.\<close>

definition sys_read :: "nat \<Rightarrow> async_fd \<Rightarrow> (string + byte list) option \<times> async_fd" where
  "sys_read len fd =
     (case fd_error fd of
        Some e \<Rightarrow> (Some (Inl e), fd)
      | None \<Rightarrow>
          (case queue fd of
             [] \<Rightarrow> (None, fd)
           | p # ps \<Rightarrow> (Some (Inr (take len p)), fd\<lparr>queue := ps\<rparr>)))"

definition sys_write :: "byte list \<Rightarrow> async_fd \<Rightarrow> (string + nat) option \<times> async_fd" where
  "sys_write pkt fd =
     (case fd_error fd of
        Some e \<Rightarrow> (Some (Inl e), fd)
      | None \<Rightarrow>
          if room fd = 0 then (None, fd)
          else (Some (Inr (length pkt)), fd\<lparr>room := room fd - 1, written := written fd @ [pkt]\<rparr>))"

section \<open>One poll\<close>

definition read_packet :: "nat \<Rightarrow> async_fd \<Rightarrow> (string + byte list) polled \<times> async_fd" where
  "read_packet len fd =
     (case poll_ready (rx fd) of
        (False, i) \<Rightarrow> (Pending, fd\<lparr>rx := i\<rparr>)
      | (True, i) \<Rightarrow>
          (case sys_read len (fd\<lparr>rx := i\<rparr>) of
             (Some r, fd) \<Rightarrow> (Complete r, fd)
           | (None, fd) \<Rightarrow> (Pending, fd\<lparr>rx := (rx fd)\<lparr>ready_flag := False\<rparr>\<rparr>)))"

definition write_packet :: "byte list \<Rightarrow> async_fd \<Rightarrow> (string + nat) polled \<times> async_fd" where
  "write_packet pkt fd =
     (case poll_ready (tx fd) of
        (False, i) \<Rightarrow> (Pending, fd\<lparr>tx := i\<rparr>)
      | (True, i) \<Rightarrow>
          (case sys_write pkt (fd\<lparr>tx := i\<rparr>) of
             (Some r, fd) \<Rightarrow> (Complete r, fd)
           | (None, fd) \<Rightarrow> (Pending, fd\<lparr>tx := (tx fd)\<lparr>ready_flag := False\<rparr>\<rparr>)))"

section \<open>The reading task\<close>

text \<open>
  The packet loop as the reader of the descriptor: it polls when it has been woken, goes on polling as
  long as it gets packets, and sleeps when the poll is pending. \<open>Elsewhere\<close> is a wake-up by another
  branch of its \<open>select!\<close>: a datagram of the client.
\<close>

record reader =
  fd :: async_fd
  woken :: bool
  got :: "byte list list"

datatype reader_label = Arrive "byte list" | Elsewhere | Poll

definition arrive :: "byte list \<Rightarrow> reader \<Rightarrow> reader" where
  "arrive p s =
     s\<lparr>fd := (fd s)\<lparr>queue := queue (fd s) @ [p], rx := \<lparr>ready_flag = True, waker_set = False\<rparr>\<rparr>,
       woken := woken s \<or> waker_set (rx (fd s))\<rparr>"

definition poll_reader :: "nat \<Rightarrow> reader \<Rightarrow> reader" where
  "poll_reader len s =
     (case read_packet len (fd s) of
        (Complete (Inr p), fd') \<Rightarrow> s\<lparr>fd := fd', got := got s @ [p]\<rparr>
      | (Complete (Inl e), fd') \<Rightarrow> s\<lparr>fd := fd', woken := False\<rparr>
      | (Pending, fd') \<Rightarrow> s\<lparr>fd := fd', woken := False\<rparr>)"

fun reader_step :: "nat \<Rightarrow> reader \<Rightarrow> reader_label \<Rightarrow> reader option" where
  "reader_step len s (Arrive p) = Some (arrive p s)"
| "reader_step len s Elsewhere = Some (s\<lparr>woken := True\<rparr>)"
| "reader_step len s Poll = (if woken s then Some (poll_reader len s) else None)"

fun reader_run :: "nat \<Rightarrow> reader \<Rightarrow> reader_label list \<Rightarrow> reader option" where
  "reader_run len s [] = Some s"
| "reader_run len s (l # ls) =
     (case reader_step len s l of None \<Rightarrow> None | Some t \<Rightarrow> reader_run len t ls)"

definition reader_init :: reader where
  "reader_init =
     \<lparr>fd = \<lparr>rx = \<lparr>ready_flag = False, waker_set = False\<rparr>, tx = \<lparr>ready_flag = False, waker_set = False\<rparr>,
            queue = [], room = 1, fd_error = None, written = []\<rparr>,
      woken = True, got = []\<rparr>"

section \<open>Order and loss\<close>

fun arrivals :: "reader_label list \<Rightarrow> byte list list" where
  "arrivals [] = []"
| "arrivals (Arrive p # ls) = p # arrivals ls"
| "arrivals (_ # ls) = arrivals ls"

lemmas reader_defs =
  arrive_def poll_reader_def read_packet_def poll_ready_def sys_read_def

text \<open>What holds between two steps: a healthy descriptor, and a sleeping reader that is not registered
  has cleared its readiness or is missing an event.\<close>

definition reader_inv :: "nat \<Rightarrow> byte list list \<Rightarrow> reader \<Rightarrow> bool" where
  "reader_inv len arrived s \<longleftrightarrow>
     fd_error (fd s) = None
     \<and> map (take len) arrived = got s @ map (take len) (queue (fd s))
     \<and> (queue (fd s) \<noteq> [] \<longrightarrow> ready_flag (rx (fd s)))
     \<and> (waker_set (rx (fd s)) \<longrightarrow> \<not> ready_flag (rx (fd s)))"

lemma reader_inv_step:
  assumes "reader_inv len arrived s" and "reader_step len s l = Some t"
  shows "reader_inv len (arrived @ arrivals [l]) t"
proof (cases l)
  case (Arrive p)
  with assms show ?thesis by (auto simp: reader_inv_def arrive_def)
next
  case Elsewhere
  with assms show ?thesis by (auto simp: reader_inv_def)
next
  case Poll
  with assms show ?thesis
    by (auto simp: reader_inv_def reader_defs split: if_splits list.splits)
qed

lemma arrivals_append: "arrivals (ls @ ms) = arrivals ls @ arrivals ms"
  by (induction ls rule: arrivals.induct) auto

lemma reader_inv_run:
  "reader_inv len arrived s \<Longrightarrow> reader_run len s ls = Some t \<Longrightarrow> reader_inv len (arrived @ arrivals ls) t"
proof (induction ls arbitrary: s arrived)
  case (Cons l ls)
  from Cons.prems(2) obtain u where u: "reader_step len s l = Some u" "reader_run len u ls = Some t"
    by (auto split: option.splits)
  from Cons.IH [OF reader_inv_step [OF Cons.prems(1) u(1)] u(2)]
  show ?case using arrivals_append [of "[l]" ls] by simp
qed simp

lemma reader_inv_init: "reader_inv len [] reader_init"
  by (simp add: reader_inv_def reader_init_def)

text \<open>The reader of a \<open>tun\<close> device loses and reorders nothing: in every schedule of arrivals, polls
  and other wake-ups, the packets read so far followed by those still in the device are the packets
  that arrived, in order, each cut to the buffer; and a poll that finds packets gets one.\<close>

theorem tun_reads_in_order:
  assumes "reader_run len reader_init ls = Some s"
  shows "map (take len) (arrivals ls) = got s @ map (take len) (queue (fd s))
    \<and> (queue (fd s) \<noteq> [] \<longrightarrow>
        (\<exists>fd'. read_packet len (fd s) = (Complete (Inr (take len (hd (queue (fd s))))), fd')))"
  using reader_inv_run [OF reader_inv_init assms]
  by (auto simp: reader_inv_def read_packet_def poll_ready_def sys_read_def neq_Nil_conv)

section \<open>The lost wake-up\<close>

text \<open>Asleep and not registered: only another wake-up helps.\<close>

definition stalled :: "reader \<Rightarrow> bool" where
  "stalled s = (\<not> woken s \<and> \<not> waker_set (rx (fd s)))"

lemma stalled_arrivals:
  "stalled s \<Longrightarrow> \<exists>t. reader_run len s (map Arrive ps) = Some t \<and> stalled t \<and> got t = got s
     \<and> queue (fd t) = queue (fd s) @ ps"
proof (induction ps arbitrary: s)
  case (Cons p ps)
  have "stalled (arrive p s)" using Cons.prems by (simp add: stalled_def arrive_def)
  from Cons.IH [OF this] show ?case by (auto simp: arrive_def)
qed simp

lemma reader_run_append:
  "reader_run len s (ls @ ms) =
     (case reader_run len s ls of None \<Rightarrow> None | Some t \<Rightarrow> reader_run len t ms)"
  by (induction ls arbitrary: s) (auto split: option.splits)

definition drained :: "byte list \<Rightarrow> reader" where
  "drained p =
     \<lparr>fd = \<lparr>rx = \<lparr>ready_flag = False, waker_set = False\<rparr>, tx = \<lparr>ready_flag = False, waker_set = False\<rparr>,
            queue = [], room = 1, fd_error = None, written = []\<rparr>,
      woken = False, got = [p]\<rparr>"

lemma run_drains: "reader_run len reader_init [Poll, Arrive p, Poll, Poll] = Some (drained (take len p))"
  by (simp add: reader_init_def reader_defs drained_def)

text \<open>A packet can wait for ever: once the reader has been woken by a packet, has read it and has
  polled the empty device again, it sleeps without being registered, because the poll that found the
  readiness flag still set and the device empty returned \<open>Pending\<close> without asking for a wake-up. No
  number of further packets wakes it; they stay in the device until the client sends something.\<close>

theorem tun_reader_stalls:
  "\<exists>s. reader_run len reader_init ([Poll, Arrive p, Poll, Poll] @ map Arrive ps) = Some s
     \<and> got s = [take len p] \<and> queue (fd s) = ps \<and> reader_step len s Poll = None"
proof -
  have "stalled (drained (take len p))" by (simp add: stalled_def drained_def)
  from stalled_arrivals [OF this] obtain t where
    t: "reader_run len (drained (take len p)) (map Arrive ps) = Some t" "stalled t"
    "got t = [take len p]" "queue (fd t) = ps"
    by (auto simp: drained_def)
  have "reader_run len reader_init ([Poll, Arrive p, Poll, Poll] @ map Arrive ps) = Some t"
    unfolding reader_run_append run_drains using t(1) by simp
  moreover have "reader_step len t Poll = None" using t(2) by (simp add: stalled_def)
  ultimately show ?thesis using t(3,4) by blast
qed

theorem tun_reads_in_order_witness:
  "\<exists>s. reader_run 4 reader_init [Poll, Arrive [1, 2], Poll, Poll] = Some s \<and> got s = [[1, 2]]"
proof -
  have run: "reader_run 4 reader_init [Poll, Arrive [1, 2], Poll, Poll] = Some (drained [1, 2])"
    using run_drains [of 4 "[1, 2]"] by simp
  from tun_reads_in_order [OF run] run show ?thesis by (simp add: drained_def)
qed

text \<open>Another wake-up lets the reader catch up.\<close>

lemma other_wakeup_reads:
  assumes "reader_inv len arrived s" and "queue (fd s) = p # ps"
  shows "\<exists>t. reader_run len s [Elsewhere, Poll] = Some t \<and> got t = got s @ [take len p] \<and> woken t"
  using assms by (auto simp: reader_inv_def reader_defs)

end
