(* ===== verification/TunKernel.thy ===== *)
theory TunKernel
  imports TunProps AddressText
begin

text \<open>
  What the commands of \<open>src/tun.rs\<close> mean: the words of an \<open>ip\<close> or \<open>iptables\<close> command are read as an
  administrative action on the kernel's links and firewall rules. The reader is a specification of the
  two programs for the commands that \<open>create\<close> and \<open>drop\<close> run; a command that fails changes nothing. The prefix
  of an address is the number written behind it.
\<close>

section \<open>The kernel\<close>

datatype fw_rule = Masquerade ipaddr | AcceptFrom ipaddr | AcceptTo ipaddr

record link =
  l_up :: bool
  l_mtu :: "nat option"
  l_addr :: "(ipaddr \<times> nat \<times> ipaddr) option"

record kernel =
  k_links :: "str \<rightharpoonup> link"
  k_rules :: "(family \<times> fw_rule) multiset"

datatype admin =
    LinkUp str
  | LinkMtu str nat
  | LinkDel str
  | AddrAdd str ipaddr nat ipaddr
  | RuleAdd family fw_rule
  | RuleDel family fw_rule

definition update_link :: "str \<Rightarrow> (link \<Rightarrow> link) \<Rightarrow> kernel \<Rightarrow> kernel" where
  "update_link name f k = k\<lparr>k_links := (k_links k)(name := map_option f (k_links k name))\<rparr>"

fun administer :: "admin \<Rightarrow> kernel \<Rightarrow> kernel" where
  "administer (LinkUp name) k = update_link name (l_up_update (\<lambda>_. True)) k"
| "administer (LinkMtu name m) k = update_link name (l_mtu_update (\<lambda>_. Some m)) k"
| "administer (LinkDel name) k = k\<lparr>k_links := (k_links k)(name := None)\<rparr>"
| "administer (AddrAdd name a p peer) k = update_link name (l_addr_update (\<lambda>_. Some (a, p, peer))) k"
| "administer (RuleAdd f r) k = k\<lparr>k_rules := add_mset (f, r) (k_rules k)\<rparr>"
| "administer (RuleDel f r) k = k\<lparr>k_rules := k_rules k - {#(f, r)#}\<rparr>"

section \<open>How a command is read\<close>

definition read_prefixed :: "str \<Rightarrow> (ipaddr \<times> nat) option" where
  "read_prefixed s =
     (case split_once 47 s of
        None \<Rightarrow> None
      | Some (a, p) \<Rightarrow>
          (case (parse_ip a, parse_uint 256 p) of (Some ip, Some n) \<Rightarrow> Some (ip, n) | _ \<Rightarrow> None))"

definition read_ip_command :: "str list \<Rightarrow> admin option" where
  "read_ip_command args =
     (case args of
        [a, b, name] \<Rightarrow> if [a, b] = map ascii [''link'', ''del''] then Some (LinkDel name) else None
      | [a, b, name, c] \<Rightarrow> if [a, b, c] = map ascii [''link'', ''set'', ''up''] then Some (LinkUp name) else None
      | [a, b, name, c, m] \<Rightarrow>
          if [a, b, c] = map ascii [''link'', ''set'', ''mtu'']
          then map_option (LinkMtu name) (parse_uint (2 ^ 32) m) else None
      | [a, b, local, c, peer, d, name] \<Rightarrow>
          if [a, b, c, d] = map ascii [''addr'', ''add'', ''peer'', ''dev''] then
            (case (read_prefixed local, parse_ip peer) of
               (Some (ip, n), Some peer_ip) \<Rightarrow> Some (AddrAdd name ip n peer_ip)
             | _ \<Rightarrow> None)
          else None
      | [six, a, b, local, c, peer, d, name] \<Rightarrow>
          if [six, a, b, c, d] = map ascii [''-6'', ''addr'', ''add'', ''peer'', ''dev''] then
            (case (read_prefixed local, read_prefixed peer) of
               (Some (ip, n), Some (peer_ip, m)) \<Rightarrow> if n = m then Some (AddrAdd name ip n peer_ip) else None
             | _ \<Rightarrow> None)
          else None
      | _ \<Rightarrow> None)"

definition read_rule :: "str list \<Rightarrow> (bool \<times> fw_rule) option" where
  "read_rule args =
     (case args of
        [t, tab, op, chain, dir, addr, j, target] \<Rightarrow>
          if [t, tab, chain, dir, j, target] = map ascii [''-t'', ''nat'', ''POSTROUTING'', ''-s'', ''-j'', ''MASQUERADE'']
             \<and> op \<in> {ascii ''-A'', ascii ''-D''}
          then map_option (\<lambda>ip. (op = ascii ''-A'', Masquerade ip)) (parse_ip addr) else None
      | [op, chain, dir, addr, j, target] \<Rightarrow>
          if [chain, j, target] = map ascii [''FORWARD'', ''-j'', ''ACCEPT'']
             \<and> op \<in> {ascii ''-A'', ascii ''-D''} \<and> dir \<in> {ascii ''-s'', ascii ''-d''}
          then map_option (\<lambda>ip. (op = ascii ''-A'', if dir = ascii ''-s'' then AcceptFrom ip else AcceptTo ip))
            (parse_ip addr)
          else None
      | _ \<Rightarrow> None)"

definition read_command :: "command \<Rightarrow> admin option" where
  "read_command c =
     (if fst c = IP_BIN then read_ip_command (snd c)
      else
        map_option (\<lambda>(add, r). (if add then RuleAdd else RuleDel) (if fst c = IPTABLES then Family4 else Family6) r)
          (if fst c \<in> {IPTABLES, IP6TABLES} then read_rule (snd c) else None))"

fun kernel_run :: "tun_env \<Rightarrow> command list \<Rightarrow> kernel \<Rightarrow> kernel" where
  "kernel_run env [] k = k"
| "kernel_run env (c # cs) k =
     kernel_run env cs
       (case read_command c of Some a \<Rightarrow> if t_cmd_ok env c then administer a k else k | None \<Rightarrow> k)"

section \<open>The commands of a device\<close>

lemma no_slash: "47 \<notin> set (dec n)" "47 \<notin> set (hex n)" "47 \<notin> set (fmt_subslice ss)"
proof -
  show "47 \<notin> set (dec n)" "47 \<notin> set (hex n)" for n
    using numeral_dec [of n] numeral_hex [of n] by (fastforce simp: numeral_of_def to_digit_def between_def)+
  then show "47 \<notin> set (fmt_subslice ss)"
    by (cases ss) (auto simp: fmt_subslice_Cons colon_hex_def)
qed

lemma display_no_slash: "47 \<notin> set (display_ip ip)"
proof (cases ip)
  case (V6 a)
  show ?thesis unfolding V6 display_ip_def ipaddr.case
    by (cases a rule: display_ipv6_cases) (simp_all add: no_slash display_ipv4_eq)
qed (simp add: display_ip_def display_ipv4_eq no_slash)

lemma read_printed_prefix: "n < 256 \<Longrightarrow> read_prefixed (display_ip ip @ 47 # dec n) = Some (ip, n)"
  by (simp add: read_prefixed_def split_once_eq display_no_slash parse_display_ip parse_uint_dec)

lemma programs_differ: "IPTABLES \<noteq> IP_BIN" "IP6TABLES \<noteq> IP_BIN" "IP6TABLES \<noteq> IPTABLES"
  by (simp_all add: IPTABLES_def IP_BIN_def IP6TABLES_def)

lemma read_ip_args:
  "read_ip_command (up_args name) = Some (LinkUp name)"
  "m < 2 ^ 32 \<Longrightarrow> read_ip_command (mtu_args name m) = Some (LinkMtu name m)"
  "read_ip_command [ascii ''link'', ascii ''del'', name] = Some (LinkDel name)"
  "read_ip_command (addr_args Family4 name proxy client prefix) = Some (AddrAdd name proxy (unat prefix) client)"
  "read_ip_command (addr_args Family6 name proxy client prefix) = Some (AddrAdd name proxy 128 client)"
proof -
  have "dec 128 = ascii ''128''" by (simp add: dec.simps)
  then have "read_prefixed (display_ip ip @ ascii ''/128'') = Some (ip, 128)" for ip
    using read_printed_prefix [of 128 ip] by simp
  then show "read_ip_command (addr_args Family6 name proxy client prefix) = Some (AddrAdd name proxy 128 client)"
    by (simp add: read_ip_command_def addr_args_def)
  show "read_ip_command (addr_args Family4 name proxy client prefix) = Some (AddrAdd name proxy (unat prefix) client)"
    using read_printed_prefix [of "unat prefix" proxy] unat_byte_less [of prefix]
    by (simp add: read_ip_command_def addr_args_def parse_display_ip)
  show "m < 2 ^ 32 \<Longrightarrow> read_ip_command (mtu_args name m) = Some (LinkMtu name m)"
    by (simp add: read_ip_command_def mtu_args_def parse_uint_dec)
qed (simp_all add: read_ip_command_def up_args_def)

lemma read_rules:
  "read_rule (masquerade_rule c) = Some (True, Masquerade c)"
  "read_rule (forward_rule ''-s'' c) = Some (True, AcceptFrom c)"
  "read_rule (forward_rule ''-d'' c) = Some (True, AcceptTo c)"
  "read_rule (undo_rule (masquerade_rule c)) = Some (False, Masquerade c)"
  "read_rule (undo_rule (forward_rule ''-s'' c)) = Some (False, AcceptFrom c)"
  "read_rule (undo_rule (forward_rule ''-d'' c)) = Some (False, AcceptTo c)"
  using display_not_option [of c]
  by (simp_all add: read_rule_def masquerade_rule_def forward_rule_def undo_rule_def parse_display_ip)

lemma read_nat_commands:
  "read_command (nat_prog f, masquerade_rule c) = Some (RuleAdd f (Masquerade c))"
  "read_command (nat_prog f, forward_rule ''-s'' c) = Some (RuleAdd f (AcceptFrom c))"
  "read_command (nat_prog f, forward_rule ''-d'' c) = Some (RuleAdd f (AcceptTo c))"
  "read_command (nat_prog f, undo_rule (masquerade_rule c)) = Some (RuleDel f (Masquerade c))"
  "read_command (nat_prog f, undo_rule (forward_rule ''-s'' c)) = Some (RuleDel f (AcceptFrom c))"
  "read_command (nat_prog f, undo_rule (forward_rule ''-d'' c)) = Some (RuleDel f (AcceptTo c))"
  by (cases f; simp add: read_command_def nat_prog_def programs_differ read_rules)+

lemma read_ip_commands: "read_command (IP_BIN, args) = read_ip_command args"
  by (simp add: read_command_def)

section \<open>A created device\<close>

definition family_of :: "ipaddr \<Rightarrow> family" where
  "family_of ip = (if is_ipv4 ip then Family4 else Family6)"

definition set_up_commands :: "str \<Rightarrow> ipaddr \<Rightarrow> ipaddr \<Rightarrow> byte \<Rightarrow> nat option \<Rightarrow> command list" where
  "set_up_commands name proxy client prefix mtu =
     [(IP_BIN, up_args name)]
     @ (case mtu of Some m \<Rightarrow> [(IP_BIN, mtu_args name m)] | None \<Rightarrow> [])
     @ [(IP_BIN, addr_args (family_of proxy) name proxy client prefix)]
     @ map (\<lambda>r. (nat_prog (family_of proxy), r)) (client_rules client)"

lemma or_drop_Inr:
  assumes "or_drop env dev r k = (Inr d, h')"
  obtains x h where "r = (Inr x, h)" "k x h = (Inr d, h')"
  using assms by (cases r) (auto simp: or_drop_def split: sum.splits)

lemma tun_cmd_Inr: "run_cmd env p args h = (Inr x, h') \<Longrightarrow> t_cmd_ok env (p, args) \<and> ran h' = ran h @ [(p, args)]"
  by (auto simp: run_cmd_def split: if_splits)

lemma add_nat_rule_Inr:
  assumes "add_nat_rule env args dev h k = (Inr d, h')"
  obtains h1 where "t_cmd_ok env (nat_prog (d_family dev), args)"
    "ran h1 = ran h @ [(nat_prog (d_family dev), args)]"
    "k (dev\<lparr>d_nat_rules := d_nat_rules dev @ [args]\<rparr>) h1 = (Inr d, h')"
  using assms tun_cmd_Inr unfolding add_nat_rule_def by (elim or_drop_Inr) (metis (no_types, lifting))

lemma create_Inr:
  assumes "create env hint proxy client prefix mtu h = (Inr dev, h')"
  shows "ran h' = ran h @ set_up_commands (d_name dev) proxy client prefix mtu
    \<and> (\<forall>c\<in>set (set_up_commands (d_name dev) proxy client prefix mtu). t_cmd_ok env c)
    \<and> d_family dev = family_of proxy \<and> d_nat_rules dev = client_rules client
    \<and> is_ipv4 client = is_ipv4 proxy"
proof -
  have c: "(is_ipv4 proxy \<noteq> is_ipv4 client) = False" "(\<not> t_open_ok env) = False"
      "(length hint \<ge> IFNAMSIZ) = False" "(\<not> t_async_ok env) = False"
    and "\<exists>bytes. t_ioctl env (tun_request hint) = Some bytes"
    using assms by (auto simp: create_def Let_def split: if_splits option.splits)
  then obtain bytes where b: "t_ioctl env (tun_request hint) = Some bytes" by blast
  define dev0 where "dev0 = \<lparr>d_name = cstr_to_string bytes, d_family = family_of proxy, d_nat_rules = [],
    d_managed_ip_forward = False\<rparr>"
  define start where "start = h\<lparr>open_fds := open_fds h + 1\<rparr>"
  note run = assms [unfolded create_def Let_def c if_False b option.case family_of_def [symmetric]
      dev0_def [symmetric] start_def [symmetric]]
  let ?mtu = "case mtu of Some m \<Rightarrow> [(IP_BIN, mtu_args (d_name dev0) m)] | None \<Rightarrow> []"
  let ?addr = "addr_args (family_of proxy) (d_name dev0) proxy client prefix"
  from run obtain h1 h2 h3 h4 managed where
    up: "run_cmd env IP_BIN (up_args (d_name dev0)) start = (Inr (), h1)" and
    mtu: "(case mtu of Some m \<Rightarrow> run_cmd env IP_BIN (mtu_args (d_name dev0) m) h1 | None \<Rightarrow> (Inr (), h1)) = (Inr (), h2)" and
    addr: "run_cmd env IP_BIN ?addr h2 = (Inr (), h3)" and
    flag: "ensure_ip_forward env h3 = (Inr managed, h4)" and
    nat: "add_nat_rule env (masquerade_rule client) (dev0\<lparr>d_managed_ip_forward := managed\<rparr>) h4 (\<lambda>dev h.
      add_nat_rule env (forward_rule ''-s'' client) dev h (\<lambda>dev h.
      add_nat_rule env (forward_rule ''-d'' client) dev h (\<lambda>dev h. (Inr dev, h)))) = (Inr dev, h')"
    by (elim or_drop_Inr) simp
  have "\<forall>c\<in>set ?mtu. t_cmd_ok env c" "ran h2 = ran h1 @ ?mtu"
    using mtu by (auto dest!: tun_cmd_Inr split: option.splits)
  moreover have "ran h4 = ran h3" using flag_keeps(1) [of env h3] flag by simp
  moreover have "(\<forall>r\<in>set (client_rules client). t_cmd_ok env (nat_prog (family_of proxy), r))
      \<and> ran h' = ran h4 @ map (\<lambda>r. (nat_prog (family_of proxy), r)) (client_rules client)
      \<and> dev = dev0\<lparr>d_managed_ip_forward := managed, d_nat_rules := client_rules client\<rparr>"
    using nat by (elim add_nat_rule_Inr) (auto simp: dev0_def client_rules_def)
  moreover from this have "d_name dev = d_name dev0" "d_family dev = family_of proxy" "d_nat_rules dev = client_rules client"
    by (simp_all add: dev0_def)
  ultimately show ?thesis
    using tun_cmd_Inr [OF up] tun_cmd_Inr [OF addr] c by (auto simp: set_up_commands_def start_def)
qed

lemma kernel_run_append: "kernel_run env (xs @ ys) k = kernel_run env ys (kernel_run env xs k)"
  by (induction xs arbitrary: k) simp_all

lemma kernel_run_read:
  "\<forall>c\<in>set cs. t_cmd_ok env c \<Longrightarrow> map read_command cs = map Some as \<Longrightarrow>
   kernel_run env cs k = fold administer as k"
proof (induction cs arbitrary: as k)
  case (Cons c cs)
  then obtain a bs where "as = a # bs" "read_command c = Some a" "map read_command cs = map Some bs"
    by (cases as) auto
  with Cons show ?case by simp
qed simp

definition set_up_actions :: "str \<Rightarrow> ipaddr \<Rightarrow> ipaddr \<Rightarrow> byte \<Rightarrow> nat option \<Rightarrow> admin list" where
  "set_up_actions name proxy client prefix mtu =
     [LinkUp name] @ (case mtu of Some m \<Rightarrow> [LinkMtu name m] | None \<Rightarrow> [])
     @ [AddrAdd name proxy (if is_ipv4 proxy then unat prefix else 128) client,
        RuleAdd (family_of proxy) (Masquerade client), RuleAdd (family_of proxy) (AcceptFrom client),
        RuleAdd (family_of proxy) (AcceptTo client)]"

lemma set_up_read:
  assumes "\<forall>m. mtu = Some m \<longrightarrow> m < 2 ^ 32"
  shows "map read_command (set_up_commands name proxy client prefix mtu)
    = map Some (set_up_actions name proxy client prefix mtu)"
proof -
  have "read_ip_command (addr_args (family_of proxy) name proxy client prefix)
      = Some (AddrAdd name proxy (if is_ipv4 proxy then unat prefix else 128) client)"
    by (simp add: family_of_def read_ip_args)
  with assms show ?thesis
    by (simp add: set_up_commands_def set_up_actions_def client_rules_def read_ip_commands read_ip_args
        read_nat_commands split: option.split)
qed

text \<open>The kernel without any configuration, for examples.\<close>

definition bare_kernel :: kernel where
  "bare_kernel = \<lparr>k_links = Map.empty, k_rules = {#}\<rparr>"

text \<open>The device that \<open>TUNSETIFF\<close> has just made: down, without an address.\<close>

definition plugged :: "str \<Rightarrow> kernel \<Rightarrow> kernel" where
  "plugged name k = k\<lparr>k_links := (k_links k)(name \<mapsto> \<lparr>l_up = False, l_mtu = None, l_addr = None\<rparr>)\<rparr>"

definition client_rule_set :: "ipaddr \<Rightarrow> (family \<times> fw_rule) multiset" where
  "client_rule_set client = mset (map (Pair (family_of client)) [Masquerade client, AcceptFrom client, AcceptTo client])"

lemma fold_set_up:
  assumes "is_ipv4 client = is_ipv4 proxy"
  shows "fold administer (set_up_actions name proxy client prefix mtu) (plugged name k) =
    k\<lparr>k_links := (k_links k)(name \<mapsto> \<lparr>l_up = True, l_mtu = mtu,
          l_addr = Some (proxy, if is_ipv4 proxy then unat prefix else 128, client)\<rparr>),
      k_rules := k_rules k + client_rule_set client\<rparr>"
  using assms
  by (cases mtu) (simp_all add: set_up_actions_def plugged_def update_link_def client_rule_set_def family_of_def)

lemma tear_down_commands:
  assumes "d_nat_rules dev = client_rules client" and "d_family dev = family_of client"
  shows "map read_command (new_commands h (drop_device env dev h))
    = map Some (map (RuleDel (family_of client)) [Masquerade client, AcceptFrom client, AcceptTo client]
        @ [LinkDel (d_name dev)])"
  using assms
  by (simp add: new_commands_def drop_device_ran client_rules_def read_nat_commands read_ip_commands read_ip_args
      del: ascii_simps)

lemma created_configures:
  assumes "create env hint proxy client prefix mtu h = (Inr dev, h')" and "\<forall>m. mtu = Some m \<longrightarrow> m < 2 ^ 32"
  shows "kernel_run env (new_commands h h') (plugged (d_name dev) k) =
      k\<lparr>k_links := (k_links k)(d_name dev \<mapsto> \<lparr>l_up = True, l_mtu = mtu,
            l_addr = Some (proxy, if is_ipv4 proxy then unat prefix else 128, client)\<rparr>),
        k_rules := k_rules k + client_rule_set client\<rparr>"
proof -
  note cr = create_Inr [OF assms(1)]
  then have new: "new_commands h h' = set_up_commands (d_name dev) proxy client prefix mtu"
    by (simp add: new_commands_def)
  show ?thesis unfolding new using cr kernel_run_read [OF _ set_up_read [OF assms(2)]] fold_set_up by metis
qed

lemma created_and_dropped:
  assumes "create env hint proxy client prefix mtu h = (Inr dev, h')"
    and "\<forall>m. mtu = Some m \<longrightarrow> m < 2 ^ 32"
    and "\<forall>c\<in>set (new_commands h' (drop_device env dev h')). t_cmd_ok env c"
  shows "kernel_run env (new_commands h h') (plugged (d_name dev) k) =
      k\<lparr>k_links := (k_links k)(d_name dev \<mapsto> \<lparr>l_up = True, l_mtu = mtu,
            l_addr = Some (proxy, if is_ipv4 proxy then unat prefix else 128, client)\<rparr>),
        k_rules := k_rules k + client_rule_set client\<rparr>
    \<and> kernel_run env (new_commands h (drop_device env dev h')) (plugged (d_name dev) k) =
      k\<lparr>k_links := (k_links k)(d_name dev := None)\<rparr>"
proof -
  note cr = create_Inr [OF assms(1)]
  have f: "family_of client = family_of proxy" using cr by (simp add: family_of_def)
  note one = created_configures [OF assms(1,2), of k]
  have "new_commands h (drop_device env dev h')
      = new_commands h h' @ new_commands h' (drop_device env dev h')"
    using cr by (simp add: new_commands_def drop_device_ran)
  moreover have "kernel_run env (new_commands h' (drop_device env dev h')) K = fold administer
      (map (RuleDel (family_of client)) [Masquerade client, AcceptFrom client, AcceptTo client] @ [LinkDel (d_name dev)]) K" for K
    using cr f by (intro kernel_run_read [OF assms(3)] tear_down_commands) simp_all
  ultimately have "kernel_run env (new_commands h (drop_device env dev h')) (plugged (d_name dev) k) =
      k\<lparr>k_links := (k_links k)(d_name dev := None)\<rparr>"
    by (simp add: kernel_run_append one client_rule_set_def)
  with one show ?thesis by blast
qed

section \<open>A creation that fails\<close>

text \<open>The name that \<open>TUNSETIFF\<close> answers, and what closing the device's descriptor does: a link that is not
  persistent disappears.\<close>

definition device_name :: "tun_env \<Rightarrow> str \<Rightarrow> str option" where
  "device_name env hint = map_option cstr_to_string (t_ioctl env (tun_request hint))"

definition unplugged :: "str \<Rightarrow> kernel \<Rightarrow> kernel" where
  "unplugged name k = k\<lparr>k_links := (k_links k)(name := None)\<rparr>"

lemma unplug_plugged [simp]: "unplugged name (plugged name k) = unplugged name k"
  by (simp add: unplugged_def plugged_def)

lemma unplug_unused: "k_links k name = None \<Longrightarrow> unplugged name k = k"
  by (simp add: unplugged_def fun_upd_idem)

fun rule_args :: "fw_rule \<Rightarrow> str list" where
  "rule_args (Masquerade c) = masquerade_rule c"
| "rule_args (AcceptFrom c) = forward_rule ''-s'' c"
| "rule_args (AcceptTo c) = forward_rule ''-d'' c"

lemma read_rule_args:
  "read_command (nat_prog f, rule_args r) = Some (RuleAdd f r)"
  "read_command (nat_prog f, undo_rule (rule_args r)) = Some (RuleDel f r)"
  by (cases r; simp add: read_nat_commands)+

lemma client_rules_args: "r \<in> set (client_rules client) \<Longrightarrow> \<exists>rule. r = rule_args rule"
  unfolding client_rules_def by (auto intro: exI [of _ "Masquerade client"] exI [of _ "AcceptFrom client"]
      exI [of _ "AcceptTo client"] simp del: ascii_simps)

lemma undo_is_undone: "undo_succeeds env \<Longrightarrow> t_cmd_ok env (p, undo_rule (rule_args r))"
  using undo_facts(2) [of "rule_args r"] rules_added
  by (cases r) (simp_all add: undo_succeeds_def del: ascii_simps)

lemma kernel_undoes:
  assumes "undo_succeeds env"
  shows "kernel_run env (map (\<lambda>r. (nat_prog f, undo_rule r)) (map rule_args rs)) k
    = k\<lparr>k_rules := k_rules k - mset (map (Pair f) rs)\<rparr>"
proof (induction rs arbitrary: k)
  case (Cons r rs)
  then show ?case using undo_is_undone [OF assms] by (simp add: read_rule_args)
qed simp

text \<open>A device under construction is one link more, and the rules it remembers more; when it is gone, the
  kernel is as before.\<close>

definition with_device :: "tun_device \<Rightarrow> link \<Rightarrow> fw_rule list \<Rightarrow> kernel \<Rightarrow> kernel" where
  "with_device dev l rs k =
     k\<lparr>k_links := (k_links k)(d_name dev \<mapsto> l), k_rules := k_rules k + mset (map (Pair (d_family dev)) rs)\<rparr>"

definition configures :: "tun_env \<Rightarrow> str \<Rightarrow> kernel \<Rightarrow> host_state \<Rightarrow> tun_device \<Rightarrow> host_state \<Rightarrow> bool" where
  "configures env hint k h0 dev h \<longleftrightarrow>
     (\<exists>cmds l rs. device_name env hint = Some (d_name dev) \<and> ran h = ran h0 @ cmds \<and> d_nat_rules dev = map rule_args rs
        \<and> kernel_run env cmds (plugged (d_name dev) k) = with_device dev l rs k)"

lemma configuresI:
  assumes "device_name env hint = Some (d_name dev)" and "ran h = ran h0 @ cmds" and "d_nat_rules dev = map rule_args rs"
    and "kernel_run env cmds (plugged (d_name dev) k) = with_device dev l rs k"
  shows "configures env hint k h0 dev h"
  using assms unfolding configures_def by blast

lemma configuresE:
  assumes "configures env hint k h0 dev h"
  obtains cmds l rs where "device_name env hint = Some (d_name dev)" and "ran h = ran h0 @ cmds"
    and "d_nat_rules dev = map rule_args rs"
    and "kernel_run env cmds (plugged (d_name dev) k) = with_device dev l rs k"
  using assms unfolding configures_def by blast

definition del_args :: "str \<Rightarrow> str list" where
  "del_args name = [ascii ''link'', ascii ''del'', name]"

text \<open>The commands alone leave the rules of before; they also remove the link, when \<open>ip link del\<close> succeeds
  (closing the descriptor removes it in any case).\<close>

definition leaves_kernel :: "tun_env \<Rightarrow> str \<Rightarrow> kernel \<Rightarrow> host_state \<Rightarrow> host_state \<Rightarrow> bool" where
  "leaves_kernel env hint k h0 h \<longleftrightarrow>
     (\<exists>cmds. ran h = ran h0 @ cmds
        \<and> (\<forall>name. device_name env hint = Some name \<longrightarrow>
            unplugged name (kernel_run env cmds (plugged name k)) = unplugged name k
            \<and> (cmds \<noteq> [] \<and> t_cmd_ok env (IP_BIN, del_args name) \<longrightarrow>
                kernel_run env cmds (plugged name k) = unplugged name k)))"

lemma administer_link:
  "read_ip_command (up_args name) = Some a \<Longrightarrow> \<exists>f. \<forall>k. administer a k = update_link name f k"
  "read_ip_command (mtu_args name m) = Some a \<Longrightarrow> \<exists>f. \<forall>k. administer a k = update_link name f k"
  "read_ip_command (addr_args family name proxy client prefix) = Some a \<Longrightarrow>
    \<exists>f. \<forall>k. administer a k = update_link name f k"
proof -
  show "read_ip_command (mtu_args name m) = Some a \<Longrightarrow> \<exists>f. \<forall>k. administer a k = update_link name f k"
    by (auto simp: mtu_args_def read_ip_command_def)
qed (cases family; auto simp: read_ip_args)+

lemma link_args_update:
  assumes "args \<in> link_args dev"
  shows "\<exists>f. \<forall>k. kernel_run env [(IP_BIN, args)] k = update_link (d_name dev) f k"
proof (cases "read_ip_command args")
  case None
  have "update_link (d_name dev) id k = k" for k by (simp add: update_link_def option.map_id)
  with None show ?thesis by (intro exI [of _ id]) (simp add: read_ip_commands)
next
  case (Some a)
  have "\<exists>f. \<forall>k. administer a k = update_link (d_name dev) f k"
    using assms Some administer_link unfolding link_args_def by blast
  moreover have "update_link (d_name dev) id k = k" for k by (simp add: update_link_def option.map_id)
  ultimately show ?thesis
    using Some by (cases "t_cmd_ok env (IP_BIN, args)") (auto simp: read_ip_commands intro: exI [of _ id])
qed

lemma configures_link:
  assumes "configures env hint k h0 dev h" and "args \<in> link_args dev"
  shows "configures env hint k h0 dev (snd (run_cmd env IP_BIN args h))"
proof -
  from assms(1) obtain cmds l rs where n: "device_name env hint = Some (d_name dev)"
    and c: "ran h = ran h0 @ cmds" "d_nat_rules dev = map rule_args rs"
    and k: "kernel_run env cmds (plugged (d_name dev) k) = with_device dev l rs k"
    by (rule configuresE)
  obtain f where f: "\<And>k. kernel_run env [(IP_BIN, args)] k = update_link (d_name dev) f k"
    using link_args_update [OF assms(2)] by blast
  show ?thesis
  proof (rule configuresI [OF n])
    show "ran (snd (run_cmd env IP_BIN args h)) = ran h0 @ (cmds @ [(IP_BIN, args)])"
      using c(1) by (simp add: run_cmd_def)
    show "kernel_run env (cmds @ [(IP_BIN, args)]) (plugged (d_name dev) k) = with_device dev (f l) rs k"
      unfolding kernel_run_append k f by (simp add: update_link_def with_device_def)
  qed (rule c(2))
qed

lemma configures_rule:
  assumes "configures env hint k h0 dev h" and "r \<in> set (client_rules client)"
  shows "if t_cmd_ok env (nat_prog (d_family dev), r)
    then configures env hint k h0 (dev\<lparr>d_nat_rules := d_nat_rules dev @ [r]\<rparr>) (snd (run_cmd env (nat_prog (d_family dev)) r h))
    else configures env hint k h0 dev (snd (run_cmd env (nat_prog (d_family dev)) r h))"
proof -
  let ?p = "nat_prog (d_family dev)"
  obtain rule where r: "r = rule_args rule" using client_rules_args [OF assms(2)] by blast
  from assms(1) obtain cmds l rs where n: "device_name env hint = Some (d_name dev)"
    and c: "ran h = ran h0 @ cmds" "d_nat_rules dev = map rule_args rs"
    and k: "kernel_run env cmds (plugged (d_name dev) k) = with_device dev l rs k"
    by (rule configuresE)
  have ran: "ran (snd (run_cmd env ?p r h)) = ran h0 @ (cmds @ [(?p, r)])"
    using c(1) by (simp add: run_cmd_def)
  show ?thesis
  proof (cases "t_cmd_ok env (?p, r)")
    case True
    have "configures env hint k h0 (dev\<lparr>d_nat_rules := d_nat_rules dev @ [r]\<rparr>) (snd (run_cmd env ?p r h))"
    proof (rule configuresI [OF _ ran])
      show "kernel_run env (cmds @ [(?p, r)]) (plugged (d_name (dev\<lparr>d_nat_rules := d_nat_rules dev @ [r]\<rparr>)) k)
          = with_device (dev\<lparr>d_nat_rules := d_nat_rules dev @ [r]\<rparr>) l (rs @ [rule]) k"
        using True by (simp add: kernel_run_append k with_device_def r read_rule_args)
    qed (use n c(2) r in simp_all)
    with True show ?thesis by simp
  next
    case False
    have "configures env hint k h0 dev (snd (run_cmd env ?p r h))"
      by (rule configuresI [OF n ran c(2), where l = l]) (use False in \<open>simp add: kernel_run_append k r read_rule_args\<close>)
    with False show ?thesis by simp
  qed
qed

lemma configures_fields:
  "configures env hint k h0 dev h \<Longrightarrow> configures env hint k h0 dev (snd (ensure_ip_forward env h))"
  "configures env hint k h0 dev h \<Longrightarrow> configures env hint k h0 (dev\<lparr>d_managed_ip_forward := b\<rparr>) h"
  by (simp_all add: configures_def with_device_def)

lemma link_del_unplugs:
  "unplugged name (kernel_run env [(IP_BIN, [ascii ''link'', ascii ''del'', name])] k) = unplugged name k"
  "t_cmd_ok env (IP_BIN, del_args name) \<Longrightarrow>
    kernel_run env [(IP_BIN, [ascii ''link'', ascii ''del'', name])] k = unplugged name k"
  by (simp_all add: read_ip_commands read_ip_args unplugged_def del_args_def del: ascii_simps)

lemma configures_dropped:
  assumes "undo_succeeds env" and "configures env hint k h0 dev h"
  shows "leaves_kernel env hint k h0 (drop_device env dev h)"
proof -
  from assms(2) obtain cmds l rs where n: "device_name env hint = Some (d_name dev)"
    and c: "ran h = ran h0 @ cmds" "d_nat_rules dev = map rule_args rs"
    and k: "kernel_run env cmds (plugged (d_name dev) k) = with_device dev l rs k"
    by (rule configuresE)
  let ?undo = "map (\<lambda>r. (nat_prog (d_family dev), undo_rule r)) (d_nat_rules dev)"
  let ?del = "[(IP_BIN, [ascii ''link'', ascii ''del'', d_name dev])]"
  have undone: "kernel_run env ?undo (kernel_run env cmds (plugged (d_name dev) k))
      = k\<lparr>k_links := (k_links k)(d_name dev \<mapsto> l)\<rparr>"
    unfolding k c(2) kernel_undoes [OF assms(1)] by (simp add: with_device_def)
  then have "unplugged (d_name dev) (kernel_run env (cmds @ ?undo @ ?del) (plugged (d_name dev) k))
      = unplugged (d_name dev) k"
    unfolding kernel_run_append link_del_unplugs(1) by (simp add: unplugged_def)
  moreover from undone have "kernel_run env (cmds @ ?undo @ ?del) (plugged (d_name dev) k) = unplugged (d_name dev) k"
    if "t_cmd_ok env (IP_BIN, del_args (d_name dev))"
    unfolding kernel_run_append link_del_unplugs(2) [OF that] by (simp add: unplugged_def)
  ultimately show ?thesis using c(1) n unfolding leaves_kernel_def drop_device_ran
    by (intro exI [of _ "cmds @ ?undo @ ?del"]) simp
qed

interpretation kernels: device_steps env
  "\<lambda>dev h. undo_succeeds env \<and> configures env hint k h0 dev h"
  "\<lambda>dev h. undo_succeeds env \<and> configures env hint k h0 dev h"
  "\<lambda>h. undo_succeeds env \<and> leaves_kernel env hint k h0 h"
proof unfold_locales
  fix dev h r client
  assume c: "undo_succeeds env \<and> configures env hint k h0 dev h" "r \<in> set (client_rules client)"
  note rule = configures_rule [OF conjunct2 [OF c(1)] c(2)]
  show "undo_succeeds env \<and> configures env hint k h0 (dev\<lparr>d_nat_rules := d_nat_rules dev @ [r]\<rparr>)
      (snd (run_cmd env (nat_prog (d_family dev)) r h))" if "t_cmd_ok env (nat_prog (d_family dev), r)"
    using rule that c(1) by simp
  show "undo_succeeds env \<and> configures env hint k h0 dev (snd (run_cmd env (nat_prog (d_family dev)) r h))"
    if "\<not> t_cmd_ok env (nat_prog (d_family dev), r)"
    using rule that c(1) by simp
next
  fix dev h managed e h'
  assume c: "undo_succeeds env \<and> configures env hint k h0 dev h"
  note f = configures_fields [of env hint k h0 dev h]
  show "ensure_ip_forward env h = (Inr managed, h') \<Longrightarrow>
      undo_succeeds env \<and> configures env hint k h0 (dev\<lparr>d_managed_ip_forward := managed\<rparr>) h'"
    using f c configures_fields(2) [of env hint k h0 dev h' managed] by simp
  show "ensure_ip_forward env h = (Inl e, h') \<Longrightarrow>
      undo_succeeds env \<and> leaves_kernel env hint k h0 (drop_device env dev h')"
    using f c configures_dropped by simp
qed (auto simp: configures_dropped configures_link)

lemma create_leaves_kernel:
  assumes "undo_succeeds env" and "create env hint proxy client prefix mtu h = (r, h')"
  shows "case r of Inl _ \<Rightarrow> leaves_kernel env hint k h h' | Inr dev \<Rightarrow> configures env hint k h dev h'"
proof -
  have "kernels.ends_well env hint k h (create env hint proxy client prefix mtu h)"
  proof (rule kernels.create_ends)
    show "undo_succeeds env \<and> leaves_kernel env hint k h h"
      using assms(1) by (simp add: leaves_kernel_def)
    fix bytes assume "t_ioctl env (tun_request hint) = Some bytes"
    then show "undo_succeeds env \<and> configures env hint k h \<lparr>d_name = cstr_to_string bytes,
        d_family = if is_ipv4 proxy then Family4 else Family6, d_nat_rules = [], d_managed_ip_forward = False\<rparr>
        (h\<lparr>open_fds := open_fds h + 1\<rparr>)"
      using assms(1) by (auto simp: configures_def device_name_def plugged_def with_device_def)
  qed
  with assms(2) show ?thesis by (simp add: kernels.ends_well_def split: sum.splits)
qed

lemma leaves_kernel_new:
  "leaves_kernel env hint k h h' \<Longrightarrow> device_name env hint = Some name \<Longrightarrow>
    unplugged name (kernel_run env (new_commands h h') (plugged name k)) = unplugged name k"
  by (auto simp: leaves_kernel_def new_commands_def)

text \<open>(C13) The commands of a device mean what CONNECT-IP needs, and their undoing means the opposite. On any
  kernel, creating a device successfully leaves a link that is up, with the given MTU and the proxy's and
  the client's addresses as its two ends, and exactly three rules more, which masquerade and accept the
  traffic of this client and no other. A creation that fails, at whatever step, and a device that is
  dropped leave the rules of before and no such link (provided removals of rules succeed). The addresses are
  those the two programs read in the command lines.
\<close>

theorem device_configures_kernel:
  assumes "undo_succeeds env" and "device_name env hint = Some name" and "\<forall>m. mtu = Some m \<longrightarrow> m < 2 ^ 32"
    and "create env hint proxy client prefix mtu h = (r, h')"
  shows "case r of
      Inl _ \<Rightarrow> unplugged name (kernel_run env (new_commands h h') (plugged name k)) = unplugged name k
    | Inr dev \<Rightarrow>
        d_name dev = name
        \<and> kernel_run env (new_commands h h') (plugged name k) =
            k\<lparr>k_links := (k_links k)(name \<mapsto> \<lparr>l_up = True, l_mtu = mtu,
                l_addr = Some (proxy, if is_ipv4 proxy then unat prefix else 128, client)\<rparr>),
              k_rules := k_rules k + client_rule_set client\<rparr>
        \<and> unplugged name (kernel_run env (new_commands h (drop_device env dev h')) (plugged name k)) = unplugged name k"
proof (cases r)
  case (Inl e)
  with create_leaves_kernel [OF assms(1,4), of k] assms(2) show ?thesis by (simp add: leaves_kernel_new)
next
  case (Inr dev)
  then have c: "configures env hint k h dev h'" using create_leaves_kernel [OF assms(1,4), of k] by simp
  then have n: "d_name dev = name" using assms(2) by (simp add: configures_def)
  from configures_dropped [OF assms(1) c] assms(2) created_configures [OF assms(4) [unfolded Inr] assms(3), of k]
  show ?thesis using Inr n by (simp add: leaves_kernel_new)
qed

lemma sample_creates:
  "\<exists>dev h'. create sample_tun_env (ascii ''auto%d'') (V4 0xC6120001) (V4 0xC6120002) 30 (Some 1400) sample_host
     = (Inr dev, h')"
  by (rule create_succeeds [OF _ _ _ _ _ sample_host_off]) (simp_all add: sample_tun_env_def IFNAMSIZ_def)

theorem device_configures_kernel_witness:
  "\<exists>dev h'. create sample_tun_env (ascii ''auto%d'') (V4 0xC6120001) (V4 0xC6120002) 30 (Some 1400) sample_host
      = (Inr dev, h')
    \<and> k_links (kernel_run sample_tun_env (new_commands sample_host h')
        (plugged (d_name dev) bare_kernel)) (d_name dev)
      = Some \<lparr>l_up = True, l_mtu = Some 1400, l_addr = Some (V4 0xC6120001, 30, V4 0xC6120002)\<rparr>"
proof -
  obtain dev h' where c: "create sample_tun_env (ascii ''auto%d'') (V4 0xC6120001) (V4 0xC6120002) 30 (Some 1400)
      sample_host = (Inr dev, h')" using sample_creates by blast
  obtain name where n: "device_name sample_tun_env (ascii ''auto%d'') = Some name"
    by (simp add: device_name_def sample_tun_env_def)
  have u: "undo_succeeds sample_tun_env" by (simp add: undo_succeeds_def sample_tun_env_def)
  from device_configures_kernel [OF u n _ c, of bare_kernel] c show ?thesis
    by simp
qed

end
