(* ===== verification/HostRuns.thy ===== *)
theory HostRuns
  imports TunKernel
begin

text \<open>
  The host over a history of CONNECT-IP sessions: devices are created, fail to be created and are
  dropped in any order, so that any number of them live side by side. At every moment the kernel has
  the links and the rules of the live devices and nothing else that it had not before, the process has
  one descriptor for each, and forwarding is on as long as there is one.
\<close>

section \<open>What creating and dropping do to the flag\<close>

text \<open>The part of the host state that is not the record of commands and descriptors.\<close>

definition flag_part :: "host_state \<Rightarrow> host_state" where
  "flag_part h = h\<lparr>ran := [], open_fds := 0\<rparr>"

lemma flag_part_fields [simp]:
  "flag_part (h\<lparr>ran := cmds\<rparr>) = flag_part h" "flag_part (h\<lparr>open_fds := n\<rparr>) = flag_part h"
  "flag_part (flag_part h) = flag_part h"
  by (simp_all add: flag_part_def)

lemma read_flag_part [simp]: "read_ip_forward env (flag_part h) = read_ip_forward env h"
  by (simp add: read_ip_forward_def flag_part_def)

lemma ensure_flag_part:
  "ensure_ip_forward env (flag_part h) = map_prod id flag_part (ensure_ip_forward env h)"
  by (simp add: ensure_ip_forward_def set_ip_forward_def Let_def split: sum.split)
     (simp add: flag_part_def)

lemma release_flag_part:
  "release_ip_forward env (flag_part h) = map_prod id flag_part (release_ip_forward env h)"
  by (simp add: release_ip_forward_def set_ip_forward_def Let_def flag_part_def)

lemma run_flag_part [simp]: "flag_part (snd (run_cmd env p args h)) = flag_part h"
  by (simp add: run_cmd_def)

lemma remove_rules_flag_part [simp]: "flag_part (remove_rules env p rules h) = flag_part h"
  by (induction rules arbitrary: h) simp_all

lemma drop_device_flag_part:
  "flag_part (drop_device env dev h)
    = (if d_managed_ip_forward dev then snd (release_ip_forward env (flag_part h)) else flag_part h)"
proof -
  have "flag_part (snd (release_ip_forward env h)) = snd (release_ip_forward env (flag_part h))" for h
    by (simp add: release_flag_part)
  then show ?thesis by (simp add: drop_device_def Let_def)
qed

text \<open>Before the flag is taken it is as it was; after that it is what \<open>ensure_ip_forward\<close> has made of it, and
  the device has noted its answer. There is one more descriptor.\<close>

definition flag_untouched :: "host_state \<Rightarrow> tun_device \<Rightarrow> host_state \<Rightarrow> bool" where
  "flag_untouched h0 dev h \<longleftrightarrow>
     \<not> d_managed_ip_forward dev \<and> flag_part h = flag_part h0 \<and> open_fds h = Suc (open_fds h0)"

definition flag_held :: "tun_env \<Rightarrow> host_state \<Rightarrow> tun_device \<Rightarrow> host_state \<Rightarrow> bool" where
  "flag_held env h0 dev h \<longleftrightarrow>
     ensure_ip_forward env (flag_part h0) = (Inr (d_managed_ip_forward dev), flag_part h)
     \<and> open_fds h = Suc (open_fds h0)"

text \<open>What a failed creation leaves: the flag was never taken, could not be taken, or was taken and given
  back as by a device that lived.\<close>

definition flag_left :: "tun_env \<Rightarrow> host_state \<Rightarrow> host_state \<Rightarrow> bool" where
  "flag_left env h0 h \<longleftrightarrow>
     open_fds h = open_fds h0
     \<and> (flag_part h = flag_part h0
        \<or> (\<exists>e. ensure_ip_forward env (flag_part h0) = (Inl e, flag_part h))
        \<or> (\<exists>managed h1. ensure_ip_forward env (flag_part h0) = (Inr managed, h1)
             \<and> flag_part h = (if managed then snd (release_ip_forward env h1) else h1)))"

interpretation flags: device_steps env "flag_untouched h0" "flag_held env h0" "flag_left env h0"
proof unfold_locales
  fix dev h e h'
  assume f: "flag_untouched h0 dev h" and r: "ensure_ip_forward env h = (Inl e, h')"
  then have "ensure_ip_forward env (flag_part h0) = (Inl e, flag_part h')"
    using ensure_flag_part [of env h] by (simp add: flag_untouched_def)
  moreover have "open_fds h' = open_fds h" using r flag_keeps(2) [of env h] by simp
  ultimately show "flag_left env h0 (drop_device env dev h')"
    using f by (simp add: flag_untouched_def flag_left_def drop_device_flag_part drop_device_ran)
next
  fix dev h managed h'
  assume f: "flag_untouched h0 dev h" and r: "ensure_ip_forward env h = (Inr managed, h')"
  then show "flag_held env h0 (dev\<lparr>d_managed_ip_forward := managed\<rparr>) h'"
    using ensure_flag_part [of env h] flag_keeps(2) [of env h] by (simp add: flag_untouched_def flag_held_def)
next
  fix dev h
  show "flag_held env h0 dev h \<Longrightarrow> flag_left env h0 (drop_device env dev h)"
    by (auto simp: flag_held_def flag_left_def drop_device_flag_part drop_device_ran)
qed (auto simp: flag_untouched_def flag_held_def flag_left_def drop_device_flag_part drop_device_ran run_cmd_def)

lemma create_flag:
  assumes "create env hint proxy client prefix mtu h = (r, h')"
  shows "case r of Inl _ \<Rightarrow> flag_left env h h' | Inr dev \<Rightarrow> flag_held env h dev h'"
proof -
  have "flags.ends_well env h (create env hint proxy client prefix mtu h)"
    by (rule flags.create_ends) (simp_all add: flag_left_def flag_untouched_def)
  with assms show ?thesis by (simp add: flags.ends_well_def split: sum.splits)
qed

section \<open>The flag invariant over devices\<close>

definition healthy :: "tun_env \<Rightarrow> bool" where
  "healthy env \<longleftrightarrow> undo_succeeds env \<and> t_fwd_readable env \<and> t_fwd_writable env"

text \<open>\<open>fwd_inv\<close> of the numbers of devices that do and do not manage the flag.\<close>

definition flag_inv :: "nat \<Rightarrow> host_state \<Rightarrow> tun_device list \<Rightarrow> bool" where
  "flag_inv v h devs \<longleftrightarrow>
     v \<le> 1 \<and> (\<forall>env. t_fwd_readable env \<longrightarrow>
       fwd_inv env v (flag_part h, length (filter d_managed_ip_forward devs),
         length (filter (\<lambda>d. \<not> d_managed_ip_forward d) devs)))"

lemma fwd_inv_env: "t_fwd_readable env \<Longrightarrow> t_fwd_readable env' \<Longrightarrow> fwd_inv env v s = fwd_inv env' v s"
  by (simp add: fwd_inv_def read_ip_forward_def split: prod.split)

lemma flag_invI:
  "v \<le> 1 \<Longrightarrow> t_fwd_readable env \<Longrightarrow> fwd_inv env v (flag_part h, length (filter d_managed_ip_forward devs),
     length (filter (\<lambda>d. \<not> d_managed_ip_forward d) devs)) \<Longrightarrow> flag_inv v h devs"
  unfolding flag_inv_def using fwd_inv_env by blast

lemma flag_inv_read:
  assumes "flag_inv v h devs" and "t_fwd_readable env"
  shows "read_ip_forward env h = Inr (if devs = [] then v else 1)"
proof -
  have i: "fwd_inv env v (flag_part h, length (filter d_managed_ip_forward devs),
      length (filter (\<lambda>d. \<not> d_managed_ip_forward d) devs))" and v: "v \<le> 1"
    using assms by (simp_all add: flag_inv_def)
  have "devs = [] \<longleftrightarrow> filter d_managed_ip_forward devs = [] \<and> filter (\<lambda>d. \<not> d_managed_ip_forward d) devs = []"
    by (cases devs) auto
  with i v show ?thesis by (cases "v = 0") (auto simp: fwd_inv_def)
qed

lemma flag_inv_create:
  assumes "healthy env" and "flag_inv v h devs" and "flag_held env h dev h'"
  shows "flag_inv v h' (dev # devs)"
proof -
  have e: "t_fwd_readable env" "t_fwd_writable env" and v: "v \<le> 1"
    using assms(1,2) by (simp_all add: healthy_def flag_inv_def)
  let ?m = "length (filter d_managed_ip_forward devs)" and ?u = "length (filter (\<lambda>d. \<not> d_managed_ip_forward d) devs)"
  have "fwd_step env (flag_part h, ?m, ?u) (flag_part h', if d_managed_ip_forward dev then Suc ?m else ?m,
      if d_managed_ip_forward dev then ?u else Suc ?u)"
    using assms(3) by (intro fwd_step.opens) (simp add: flag_held_def)
  from fwd_inv_step [OF e v _ this] assms(2) e show ?thesis
    by (intro flag_invI [OF v e(1)]) (simp add: flag_inv_def split: if_splits)
qed

lemma flag_inv_drop:
  assumes "healthy env" and "flag_inv v h (xs @ dev # ys)"
  shows "flag_inv v (drop_device env dev h) (xs @ ys)"
proof -
  have e: "t_fwd_readable env" "t_fwd_writable env" and v: "v \<le> 1"
    using assms(1,2) by (simp_all add: healthy_def flag_inv_def)
  let ?m = "length (filter d_managed_ip_forward (xs @ ys))"
    and ?u = "length (filter (\<lambda>d. \<not> d_managed_ip_forward d) (xs @ ys))"
  obtain r h1 where r: "release_ip_forward env (flag_part h) = (r, h1)" by fastforce
  have "fwd_step env (flag_part h, if d_managed_ip_forward dev then Suc ?m else ?m,
      if d_managed_ip_forward dev then ?u else Suc ?u) (flag_part (drop_device env dev h), ?m, ?u)"
    using fwd_step.closes_managed [OF r] fwd_step.closes_other by (simp add: drop_device_flag_part r)
  from fwd_inv_step [OF e v _ this] assms(2) e show ?thesis
    by (intro flag_invI [OF v e(1)]) (simp add: flag_inv_def split: if_splits)
qed

lemma flag_inv_failure:
  assumes "healthy env" and "flag_inv v h devs" and "flag_left env h h'"
  shows "flag_inv v h' devs"
proof -
  have e: "t_fwd_readable env" "t_fwd_writable env" and v: "v \<le> 1"
    using assms(1,2) by (simp_all add: healthy_def flag_inv_def)
  let ?m = "length (filter d_managed_ip_forward devs)" and ?u = "length (filter (\<lambda>d. \<not> d_managed_ip_forward d) devs)"
  have i: "fwd_inv env v (flag_part h, ?m, ?u)" using assms(2) e by (simp add: flag_inv_def)
  have "fwd_inv env v (flag_part h', ?m, ?u)"
    using assms(3) unfolding flag_left_def
  proof (elim conjE disjE exE)
    assume "flag_part h' = flag_part h"
    with i show ?thesis by simp
  next
    fix x assume "ensure_ip_forward env (flag_part h) = (Inl x, flag_part h')"
    from fwd_inv_step [OF e v i fwd_step.open_fails [OF this]] show ?thesis .
  next
    fix managed h1
    assume o: "ensure_ip_forward env (flag_part h) = (Inr managed, h1)"
      and h': "flag_part h' = (if managed then snd (release_ip_forward env h1) else h1)"
    note opened = fwd_inv_step [OF e v i fwd_step.opens [OF o, of ?m ?u]]
    obtain r h2 where r: "release_ip_forward env h1 = (r, h2)" by fastforce
    show ?thesis
    proof (cases managed)
      case True
      with fwd_inv_step [OF e v _ fwd_step.closes_managed [OF r, of ?m ?u]] opened h' r show ?thesis by simp
    next
      case False
      with fwd_inv_step [OF e v _ fwd_step.closes_other [of env h1 ?m ?u]] opened h' show ?thesis by simp
    qed
  qed
  with v e show ?thesis by (intro flag_invI)
qed

section \<open>Histories of sessions\<close>

text \<open>A live session: its device and what it was created for.\<close>

record lease =
  s_device :: tun_device
  s_proxy :: ipaddr
  s_client :: ipaddr
  s_prefix :: byte
  s_mtu :: "nat option"

definition lease_link :: "lease \<Rightarrow> link" where
  "lease_link s =
     \<lparr>l_up = True, l_mtu = s_mtu s,
      l_addr = Some (s_proxy s, if is_ipv4 (s_proxy s) then unat (s_prefix s) else 128, s_client s)\<rparr>"

text \<open>The kernel \<open>k\<close> with the links and rules of these sessions on top.\<close>

definition serving :: "lease list \<Rightarrow> kernel \<Rightarrow> kernel" where
  "serving live k =
     k\<lparr>k_links := k_links k ++ map_of (map (\<lambda>s. (d_name (s_device s), lease_link s)) live),
       k_rules := k_rules k + (\<Sum>s\<leftarrow>live. client_rule_set (s_client s))\<rparr>"

text \<open>
  \<open>TUNSETIFF\<close> answers a name that is not in use. A session that cannot be created has its commands run
  on the new link, when it got that far, which goes with its descriptor. The environment may differ
  from step to step.
\<close>

type_synonym site = "host_state \<times> kernel \<times> lease list"

inductive site_step :: "site \<Rightarrow> site \<Rightarrow> bool" where
  opens: "healthy env \<Longrightarrow> device_name env hint = Some name \<Longrightarrow> k_links k name = None \<Longrightarrow>
    \<forall>m. mtu = Some m \<longrightarrow> m < 2 ^ 32 \<Longrightarrow>
    create env hint proxy client prefix mtu h = (Inr dev, h') \<Longrightarrow>
    site_step (h, k, live)
      (h', kernel_run env (new_commands h h') (plugged name k),
       \<lparr>s_device = dev, s_proxy = proxy, s_client = client, s_prefix = prefix, s_mtu = mtu\<rparr> # live)"
| fails_early: "healthy env \<Longrightarrow> device_name env hint = None \<Longrightarrow>
    create env hint proxy client prefix mtu h = (Inl e, h') \<Longrightarrow>
    site_step (h, k, live) (h', kernel_run env (new_commands h h') k, live)"
| fails: "healthy env \<Longrightarrow> device_name env hint = Some name \<Longrightarrow> k_links k name = None \<Longrightarrow>
    create env hint proxy client prefix mtu h = (Inl e, h') \<Longrightarrow>
    site_step (h, k, live) (h', unplugged name (kernel_run env (new_commands h h') (plugged name k)), live)"
| closes: "healthy env \<Longrightarrow> h' = drop_device env (s_device s) h \<Longrightarrow>
    site_step (h, k, xs @ s # ys)
      (h', unplugged (d_name (s_device s)) (kernel_run env (new_commands h h') k), xs @ ys)"

inductive site_reachable :: "host_state \<Rightarrow> kernel \<Rightarrow> site \<Rightarrow> bool" for h0 k0 where
  start: "fwd_refs h0 = 0 \<Longrightarrow> site_reachable h0 k0 (h0, k0, [])"
| step: "site_reachable h0 k0 s \<Longrightarrow> site_step s t \<Longrightarrow> site_reachable h0 k0 t"

definition names :: "lease list \<Rightarrow> str list" where
  "names live = map (d_name \<circ> s_device) live"

definition set_up :: "lease \<Rightarrow> bool" where
  "set_up s \<longleftrightarrow> d_nat_rules (s_device s) = client_rules (s_client s) \<and> d_family (s_device s) = family_of (s_client s)"

definition site_inv :: "nat \<Rightarrow> host_state \<Rightarrow> kernel \<Rightarrow> site \<Rightarrow> bool" where
  "site_inv v h0 k0 site \<longleftrightarrow>
     (case site of (h, k, live) \<Rightarrow>
        k = serving live k0 \<and> open_fds h = open_fds h0 + length live \<and> flag_inv v h (map s_device live)
        \<and> distinct (names live) \<and> set (names live) \<inter> dom (k_links k0) = {} \<and> (\<forall>s\<in>set live. set_up s))"

lemma serving_links:
  "k_links (serving live k) n = None \<longleftrightarrow> n \<notin> set (names live) \<and> k_links k n = None"
  by (auto simp: serving_def names_def map_add_None map_of_eq_None_iff image_comp comp_def)

lemma serving_Cons:
  "serving (s # live) k = (serving live k)\<lparr>
     k_links := (k_links (serving live k))(d_name (s_device s) \<mapsto> lease_link s),
     k_rules := k_rules (serving live k) + client_rule_set (s_client s)\<rparr>"
  by (simp add: serving_def ac_simps)

lemma serving_remove:
  assumes "distinct (names (xs @ s # ys))" and "d_name (s_device s) \<notin> dom (k_links k)"
  shows "(serving (xs @ s # ys) k)\<lparr>
      k_links := (k_links (serving (xs @ s # ys) k))(d_name (s_device s) := None),
      k_rules := k_rules (serving (xs @ s # ys) k) - client_rule_set (s_client s)\<rparr> = serving (xs @ ys) k"
proof -
  let ?n = "d_name (s_device s)" and ?l = "map (\<lambda>s. (d_name (s_device s), lease_link s))"
  have n: "?n \<notin> fst ` set (?l xs)" "?n \<notin> fst ` set (?l ys)"
    using assms(1) by (auto simp: names_def comp_def)
  have "(k_links k ++ map_of (?l (xs @ s # ys)))(?n := None) = k_links k ++ map_of (?l (xs @ ys))"
  proof
    fix x
    show "((k_links k ++ map_of (?l (xs @ s # ys)))(?n := None)) x = (k_links k ++ map_of (?l (xs @ ys))) x"
    proof (cases "x = ?n")
      case True
      then have "map_of (?l xs) x = None" "map_of (?l ys) x = None" using n by (simp_all only: map_of_eq_None_iff not_False_eq_True)
      with True assms(2) show ?thesis by (simp add: map_add_def dom_def)
    qed (simp add: map_add_def split: option.split)
  qed
  then show ?thesis by (simp add: serving_def)
qed

lemma undo_client_rules:
  assumes "healthy env" and "set_up s"
  shows "unplugged (d_name (s_device s)) (kernel_run env (new_commands h (drop_device env (s_device s) h)) k)
    = k\<lparr>k_links := (k_links k)(d_name (s_device s) := None), k_rules := k_rules k - client_rule_set (s_client s)\<rparr>"
proof -
  let ?rs = "[Masquerade (s_client s), AcceptFrom (s_client s), AcceptTo (s_client s)]"
  have u: "undo_succeeds env" using assms(1) by (simp add: healthy_def)
  have r: "d_nat_rules (s_device s) = map rule_args ?rs" "d_family (s_device s) = family_of (s_client s)"
    using assms(2) by (simp_all add: set_up_def client_rules_def)
  have "new_commands h (drop_device env (s_device s) h)
      = map (\<lambda>r. (nat_prog (family_of (s_client s)), undo_rule r)) (map rule_args ?rs)
        @ [(IP_BIN, [ascii ''link'', ascii ''del'', d_name (s_device s)])]"
    unfolding new_commands_def drop_device_ran r by simp
  then show ?thesis
    unfolding kernel_run_append link_del_unplugs(1) kernel_undoes [OF u]
    by (simp only: kernel_run_append link_del_unplugs(1) kernel_undoes [OF u])
      (simp add: unplugged_def client_rule_set_def)
qed

lemma site_inv_opens:
  assumes i: "site_inv v h0 k0 (h, k, live)" and e: "healthy env" and n: "device_name env hint = Some name"
    and free: "k_links k name = None" and m: "\<forall>m. mtu = Some m \<longrightarrow> m < 2 ^ 32"
    and c: "create env hint proxy client prefix mtu h = (Inr dev, h')"
  shows "site_inv v h0 k0 (h', kernel_run env (new_commands h h') (plugged name k),
    \<lparr>s_device = dev, s_proxy = proxy, s_client = client, s_prefix = prefix, s_mtu = mtu\<rparr> # live)"
    (is "site_inv v h0 k0 (h', ?k, ?s # live)")
proof -
  have u: "undo_succeeds env" using e by (simp add: healthy_def)
  have name: "d_name dev = name" using create_leaves_kernel [OF u c, of k] n by (simp add: configures_def)
  have f: "flag_held env h dev h'" using create_flag [OF c] by simp
  have k: "k = serving live k0" using i by (simp add: site_inv_def)
  have "?k = serving (?s # live) k0"
    using created_configures [OF c m, of k] name k by (simp add: serving_Cons lease_link_def)
  moreover have "name \<notin> set (names live)" "name \<notin> dom (k_links k0)"
    using free unfolding k serving_links by auto
  moreover have "set_up ?s" using create_Inr [OF c] by (simp add: set_up_def family_of_def)
  moreover have "flag_inv v h' (dev # map s_device live)" "open_fds h' = open_fds h + 1"
    using flag_inv_create [OF e _ f] f i by (simp_all add: site_inv_def flag_held_def)
  ultimately show ?thesis using i name by (simp add: site_inv_def names_def)
qed

lemma site_inv_fails:
  assumes i: "site_inv v h0 k0 (h, k, live)" and e: "healthy env" and n: "device_name env hint = Some name"
    and free: "k_links k name = None" and c: "create env hint proxy client prefix mtu h = (Inl x, h')"
  shows "site_inv v h0 k0 (h', unplugged name (kernel_run env (new_commands h h') (plugged name k)), live)"
proof -
  have u: "undo_succeeds env" using e by (simp add: healthy_def)
  have f: "flag_left env h h'" using create_flag [OF c] by simp
  have "unplugged name (kernel_run env (new_commands h h') (plugged name k)) = unplugged name k"
    using create_leaves_kernel [OF u c, of k] n by (simp add: leaves_kernel_new)
  also have "\<dots> = k" using free by (rule unplug_unused)
  finally show ?thesis using i flag_inv_failure [OF e _ f] f by (auto simp: site_inv_def flag_left_def)
qed

lemma site_inv_closes:
  assumes i: "site_inv v h0 k0 (h, k, xs @ s # ys)" and e: "healthy env" and d: "h' = drop_device env (s_device s) h"
  shows "site_inv v h0 k0 (h', unplugged (d_name (s_device s)) (kernel_run env (new_commands h h') k), xs @ ys)"
proof -
  have "distinct (names (xs @ s # ys))" "d_name (s_device s) \<notin> dom (k_links k0)" "set_up s"
    "k = serving (xs @ s # ys) k0"
    using i by (auto simp: site_inv_def names_def)
  then have "unplugged (d_name (s_device s)) (kernel_run env (new_commands h h') k) = serving (xs @ ys) k0"
    using undo_client_rules [OF e, of s h k] d serving_remove [of xs s ys k0] by simp
  moreover have "flag_inv v h' (map s_device (xs @ ys))"
    using flag_inv_drop [OF e, of v h "map s_device xs" "s_device s" "map s_device ys"] i d
    by (simp add: site_inv_def)
  moreover have "open_fds h' = open_fds h - 1" using d by (simp add: drop_device_ran)
  ultimately show ?thesis using i by (auto simp: site_inv_def names_def)
qed

lemma site_inv_step:
  assumes "site_inv v h0 k0 s" and "site_step s t"
  shows "site_inv v h0 k0 t"
  using assms(2,1)
proof (induction rule: site_step.induct)
  case (fails_early env hint proxy client prefix mtu h e h' k live)
  then have "h' = h" by (auto simp: device_name_def create_def Let_def split: if_splits)
  with fails_early show ?case by (simp add: new_commands_def)
qed (rule site_inv_opens site_inv_fails site_inv_closes; assumption)+

lemma site_reachable_inv:
  assumes "site_reachable h0 k0 site" and "read_ip_forward env h0 = Inr v"
  shows "site_inv v h0 k0 site"
  using assms(1)
proof induction
  case start
  have e: "t_fwd_readable env" and v: "v \<le> 1"
    using assms(2) by (auto simp: read_ip_forward_def split: if_splits option.splits)
  have "flag_inv v h0 []"
    using start assms(2) v e by (intro flag_invI [OF v e]) (simp add: fwd_inv_def flag_part_def read_ip_forward_def)
  then show ?case by (simp add: site_inv_def serving_def names_def)
next
  case (step s t)
  from site_inv_step [OF step.IH step.hyps(2)] show ?case .
qed

text \<open>What the invariant says: one link and three rules for each live device on top of what the kernel had
  before, one descriptor for each, and forwarding on while there is one. When the last is gone, links,
  rules, descriptors and flag are as they were.\<close>

lemma site_inv_serves:
  assumes "site_inv v h0 k0 (h, k, live)" and "t_fwd_readable env"
  shows "k = serving live k0 \<and> open_fds h = open_fds h0 + length live
    \<and> read_ip_forward env h = Inr (if live = [] then v else 1)"
  using assms flag_inv_read [of v h "map s_device live"] by (simp add: site_inv_def)

end
