(* ===== verification/IpSites.thy ===== *)
theory IpSites
  imports HostRuns IpAddresses
begin

text \<open>
  CONNECT-IP sessions that live side by side. \<open>handle_ip_stream\<close> takes an address pair from the pool,
  creates the device, serves the tunnel and drops the device; sessions of different requests overlap
  in any way between these points. Here the handler is cut into the part that opens a session and the
  part that closes it, and runs of any number of sessions are the interleavings of these parts over
  one pool, one host and one kernel. Each part is one step here; that single calls of the flag may
  interleave is the subject of \<open>fwd_step\<close> in TunProps.
\<close>

section \<open>The two parts of the handler\<close>

text \<open>Until the device exists: the answer and result of a handler that ends early, or a session.\<close>

definition open_session ::
    "libs \<Rightarrow> ip_env \<Rightarrow> app_config \<Rightarrow> request \<Rightarrow> ip_world \<Rightarrow> ((mevent list \<times> (err + unit)) + lease) \<times> ip_world" where
  "open_session l env config req w =
     (case validate_connect_ip l req (auth_token config) of
        Inl status \<Rightarrow>
          (Inl (answer env status (status_headers status),
            if i_respond_ok env status then Inr () else Inl ''failed to send response''), w)
      | Inr _ \<Rightarrow>
          (case allocate (pool w) of
             (Inl e, pool') \<Rightarrow>
               (Inl (answer env SERVICE_UNAVAILABLE [], Inl ''ip pool exhausted''), w\<lparr>pool := pool'\<rparr>)
           | (Inr (proxy, client, prefix), pool') \<Rightarrow>
               (case create (i_tun env) (ascii ''auto%d'') proxy client prefix (tun_mtu (i_limit env)) (host w) of
                  (Inl e, h) \<Rightarrow>
                    (Inl (answer env INTERNAL_SERVER_ERROR [], Inl ''tun setup failed''), \<lparr>pool = pool', host = h\<rparr>)
                | (Inr dev, h) \<Rightarrow>
                    (Inr \<lparr>s_device = dev, s_proxy = proxy, s_client = client, s_prefix = prefix,
                       s_mtu = tun_mtu (i_limit env)\<rparr>, \<lparr>pool = pool', host = h\<rparr>))))"

definition close_session :: "tun_env \<Rightarrow> lease \<Rightarrow> ip_world \<Rightarrow> ip_world" where
  "close_session env s w = w\<lparr>host := drop_device env (s_device s) (host w)\<rparr>"

lemma handle_ip_stream_parts:
  "handle_ip_stream l env config req w =
     (case open_session l env config req w of
        (Inl (events, result), w') \<Rightarrow> ((\<lparr>main_events = events, capsule_events = []\<rparr>, result), w')
      | (Inr s, w') \<Rightarrow> (ip_tunnel env (s_client s) (s_prefix s), close_session (i_tun env) s w'))"
  by (simp add: handle_ip_stream_def open_session_def close_session_def split: sum.split prod.split)

section \<open>Interleavings\<close>

type_synonym ip_site = "ip_world \<times> kernel \<times> lease list"

text \<open>The environment may differ from step to step. \<open>TUNSETIFF\<close> answers a name that is not in use, and
  the link it makes goes with its descriptor.\<close>

definition kernel_of_attempt :: "tun_env \<Rightarrow> host_state \<Rightarrow> host_state \<Rightarrow> kernel \<Rightarrow> kernel" where
  "kernel_of_attempt env h h' k =
     (case device_name env (ascii ''auto%d'') of
        None \<Rightarrow> kernel_run env (new_commands h h') k
      | Some name \<Rightarrow> unplugged name (kernel_run env (new_commands h h') (plugged name k)))"

definition name_unused :: "tun_env \<Rightarrow> kernel \<Rightarrow> bool" where
  "name_unused env k \<longleftrightarrow> (\<forall>name. device_name env (ascii ''auto%d'') = Some name \<longrightarrow> k_links k name = None)"

inductive ip_step :: "ip_site \<Rightarrow> ip_site \<Rightarrow> bool" where
  opens: "healthy (i_tun env) \<Longrightarrow> name_unused (i_tun env) k \<Longrightarrow>
    \<forall>m. tun_mtu (i_limit env) = Some m \<longrightarrow> m < 2 ^ 32 \<Longrightarrow>
    open_session l env config req w = (Inr s, w') \<Longrightarrow>
    ip_step (w, k, live)
      (w', kernel_run (i_tun env) (new_commands (host w) (host w')) (plugged (d_name (s_device s)) k), s # live)"
| refused: "healthy (i_tun env) \<Longrightarrow> name_unused (i_tun env) k \<Longrightarrow>
    open_session l env config req w = (Inl r, w') \<Longrightarrow>
    ip_step (w, k, live) (w', kernel_of_attempt (i_tun env) (host w) (host w') k, live)"
| closes: "healthy env \<Longrightarrow> w' = close_session env s w \<Longrightarrow>
    ip_step (w, k, xs @ s # ys)
      (w', unplugged (d_name (s_device s)) (kernel_run env (new_commands (host w) (host w')) k), xs @ ys)"

inductive ip_reachable :: "ip_world \<Rightarrow> kernel \<Rightarrow> ip_site \<Rightarrow> bool" for w0 k0 where
  start: "fwd_refs (host w0) = 0 \<Longrightarrow> ip_reachable w0 k0 (w0, k0, [])"
| step: "ip_reachable w0 k0 s \<Longrightarrow> ip_step s t \<Longrightarrow> ip_reachable w0 k0 t"

text \<open>A step of a session is a step of the host, or leaves host and kernel alone.\<close>

definition on_host :: "ip_site \<Rightarrow> site" where
  "on_host s = (case s of (w, k, live) \<Rightarrow> (host w, k, live))"

lemma attempt_nothing: "name_unused env k \<Longrightarrow> kernel_of_attempt env h h k = k"
  by (auto simp: kernel_of_attempt_def name_unused_def new_commands_def unplug_unused split: option.split)

lemma refused_on_host:
  assumes "healthy (i_tun env)" and n: "name_unused (i_tun env) k" and o: "open_session l env config req w = (Inl r, w')"
  shows "site_step (host w, k, live) (host w', kernel_of_attempt (i_tun env) (host w) (host w') k, live)
    \<or> host w' = host w \<and> kernel_of_attempt (i_tun env) (host w) (host w') k = k"
proof (cases "host w' = host w")
  case True
  with attempt_nothing [OF n] show ?thesis by simp
next
  case False
  with o obtain proxy client prefix e where
    c: "create (i_tun env) (ascii ''auto%d'') proxy client prefix (tun_mtu (i_limit env)) (host w) = (Inl e, host w')"
    by (fastforce simp: open_session_def split: sum.splits prod.splits)
  show ?thesis
    using site_step.fails_early [OF assms(1) _ c] site_step.fails [OF assms(1) _ _ c] n
    by (cases "device_name (i_tun env) (ascii ''auto%d'')")
       (simp_all add: kernel_of_attempt_def name_unused_def)
qed

lemma opened:
  assumes "open_session l env config req w = (Inr s, w')"
  shows "allocate (pool w) = (Inr (s_proxy s, s_client s, s_prefix s), pool w')
    \<and> create (i_tun env) (ascii ''auto%d'') (s_proxy s) (s_client s) (s_prefix s) (s_mtu s) (host w)
        = (Inr (s_device s), host w')
    \<and> s_mtu s = tun_mtu (i_limit env)"
  using assms by (auto simp: open_session_def split: sum.splits prod.splits)

lemma ip_step_on_host:
  assumes "ip_step s t"
  shows "site_step (on_host s) (on_host t) \<or> on_host t = on_host s"
  using assms
proof induction
  case (opens env k l config req w s w' live)
  note o = opened [OF opens(4)]
  then obtain name where n: "device_name (i_tun env) (ascii ''auto%d'') = Some name"
    by (auto simp: device_name_def create_def Let_def split: if_splits option.splits)
  have u: "undo_succeeds (i_tun env)" using opens(1) by (simp add: healthy_def)
  have c: "create (i_tun env) (ascii ''auto%d'') (s_proxy s) (s_client s) (s_prefix s) (s_mtu s) (host w)
      = (Inr (s_device s), host w')" and m: "\<forall>m. s_mtu s = Some m \<longrightarrow> m < 2 ^ 32"
    using o opens(3) by (blast, metis)
  have d: "d_name (s_device s) = name"
    using create_leaves_kernel [OF u c, of k] n by (simp add: configures_def)
  have f: "k_links k name = None" using opens(2) n by (simp add: name_unused_def)
  have s: "\<lparr>s_device = s_device s, s_proxy = s_proxy s, s_client = s_client s, s_prefix = s_prefix s,
      s_mtu = s_mtu s\<rparr> = s" by (cases s) simp
  show ?case using site_step.opens [OF opens(1) n f m c, of live, unfolded s] by (simp add: on_host_def d)
next
  case (refused env k l config req w r w' live)
  from refused_on_host [OF this, of live] show ?case by (auto simp: on_host_def)
next
  case (closes env w' s w k xs ys)
  then show ?case
    using site_step.closes [OF closes(1) refl, where s = s and h = "host w"] by (simp add: on_host_def close_session_def)
qed

section \<open>What overlapping sessions share\<close>

definition ends_of :: "lease \<Rightarrow> ipaddr list" where
  "ends_of s = [s_proxy s, s_client s]"

definition ip_site_inv :: "nat \<Rightarrow> ip_world \<Rightarrow> kernel \<Rightarrow> ip_site \<Rightarrow> bool" where
  "ip_site_inv v w0 k0 site \<longleftrightarrow>
     site_inv v (host w0) k0 (on_host site)
     \<and> (case site of (w, k, live) \<Rightarrow>
          wf_pool (pool w) \<and> distinct (concat (map ends_of live))
          \<and> set (concat (map ends_of live)) \<subseteq> given_out (pool w))"

lemma ip_site_inv_step:
  assumes "ip_site_inv v w0 k0 s" and "ip_step s t"
  shows "ip_site_inv v w0 k0 t"
proof -
  have "site_inv v (host w0) k0 (on_host t)"
    using ip_step_on_host [OF assms(2)] site_inv_step [of v "host w0" k0 "on_host s" "on_host t"] assms(1)
    by (auto simp: ip_site_inv_def)
  with assms(2) show ?thesis
    using assms(1)
  proof (induction rule: ip_step.induct)
    case (opens env k l config req w s w' live)
    have a: "allocate (pool w) = (Inr (s_proxy s, s_client s, s_prefix s), pool w')"
      using opened [OF opens(4)] by blast
    have "wf_pool (pool w)" using opens(6) by (simp add: ip_site_inv_def)
    from given_out_step [OF this a] opens(5,6) show ?case
      by (auto simp: ip_site_inv_def ends_of_def pair_of_def)
  next
    case (refused env k l config req w r w' live)
    have "pool w' = pool w \<or> (\<exists>a. allocate (pool w) = (Inr a, pool w'))"
      using refused(3) allocate_Inl [of "pool w"]
      by (fastforce simp: open_session_def split: sum.splits prod.splits)
    then show ?case
    proof
      assume "\<exists>a. allocate (pool w) = (Inr a, pool w')"
      then obtain a where a: "allocate (pool w) = (Inr a, pool w')" ..
      have "wf_pool (pool w)" using refused(5) by (simp add: ip_site_inv_def)
      from given_out_step [OF this a] refused(4,5) show ?thesis by (auto simp: ip_site_inv_def)
    qed (use refused(4,5) in \<open>simp add: ip_site_inv_def\<close>)
  next
    case (closes env w' s w k xs ys)
    then show ?case by (auto simp: ip_site_inv_def close_session_def)
  qed
qed

lemma ip_reachable_inv:
  assumes "ip_reachable w0 k0 site" and "wf_pool (pool w0)" and "read_ip_forward env (host w0) = Inr v"
  shows "ip_site_inv v w0 k0 site"
  using assms(1)
proof induction
  case start
  from site_reachable_inv [OF site_reachable.start [OF start] assms(3), of k0] assms(2) show ?case
    by (simp add: ip_site_inv_def on_host_def)
next
  case (step s t)
  from ip_site_inv_step [OF step.IH step.hyps(2)] show ?case .
qed

text \<open>(C12) Any number of CONNECT-IP sessions live side by side without touching one another. Over any
  interleaving of sessions that open, fail to open and close, the host is configured for exactly the
  sessions that live: the kernel has one link for each, up, with its MTU and its two addresses, and the
  three firewall rules of its client, on top of what it had before the first session; there is one
  descriptor for each, and forwarding is on while there is one. When the last is gone, links, rules,
  descriptors and flag are as they were; a session that fails, at whatever step, leaves nothing. No
  address belongs to two of them. (Removals of rules and the access to the flag succeed, and the kernel
  names a new device by a name not in use.)\<close>

theorem overlapping_sessions_isolated:
  assumes "ip_reachable w0 k0 (w, k, live)"
    and "wf_pool (pool w0)" and "read_ip_forward env (host w0) = Inr v"
  shows "k = serving live k0
    \<and> open_fds (host w) = open_fds (host w0) + length live
    \<and> read_ip_forward env (host w) = Inr (if live = [] then v else 1)
    \<and> distinct (concat (map (\<lambda>s. [s_proxy s, s_client s]) live))"
proof -
  have "t_fwd_readable env" using assms(3) by (auto simp: read_ip_forward_def split: if_splits)
  with ip_reachable_inv [OF assms] site_inv_serves [of v "host w0" k0 "host w" k live env] show ?thesis
    by (simp add: ip_site_inv_def on_host_def ends_of_def [abs_def])
qed

text \<open>Two sessions overlap, and the first to open is the first to close.\<close>

definition second_tun_env :: tun_env where
  "second_tun_env = sample_tun_env\<lparr>t_ioctl := \<lambda>_. Some (ascii ''auto1'' @ replicate 11 0)\<rparr>"

lemma sample_envs:
  "healthy sample_tun_env" "healthy second_tun_env"
  "device_name sample_tun_env hint = Some (ascii ''auto0'')"
  "device_name second_tun_env hint = Some (ascii ''auto1'')"
  by (simp_all add: healthy_def undo_succeeds_def second_tun_env_def sample_tun_env_def device_name_def
      cstr_to_string_def from_utf8_lossy_ascii replicate_numeral_eq)

lemma sample_opens:
  assumes "t \<in> {sample_tun_env, second_tun_env}" and "read_ip_forward t (host w) = Inr v"
    and "allocate (pool w) = (Inr (V4 a, V4 b, 30), p)"
  shows "\<exists>s w'. open_session plain_libs (sample_ip_env\<lparr>i_tun := t\<rparr>) sample_ip_config sample_ip_request w = (Inr s, w')
    \<and> s_client s = V4 b \<and> pool w' = p \<and> device_name t (ascii ''auto%d'') = Some (d_name (s_device s))"
proof -
  have "\<exists>bytes. t_ioctl t (tun_request (ascii ''auto%d'')) = Some bytes"
    using assms(1) by (auto simp: second_tun_env_def sample_tun_env_def)
  then obtain bytes where b: "t_ioctl t (tun_request (ascii ''auto%d'')) = Some bytes" ..
  have "\<exists>dev h'. create t (ascii ''auto%d'') (V4 a) (V4 b) 30 (tun_mtu (Some 1300)) (host w) = (Inr dev, h')"
    by (rule create_succeeds [OF _ b _ _ _ assms(2)])
       (use assms(1) in \<open>auto simp: second_tun_env_def sample_tun_env_def IFNAMSIZ_def\<close>)
  then obtain dev h' where
    c: "create t (ascii ''auto%d'') (V4 a) (V4 b) 30 (tun_mtu (Some 1300)) (host w) = (Inr dev, h')" by blast
  have "undo_succeeds t" using assms(1) sample_envs(1,2) by (auto simp: healthy_def)
  from create_leaves_kernel [OF this c] have "device_name t (ascii ''auto%d'') = Some (d_name dev)"
    by (simp add: configures_def)
  moreover have "validate_connect_ip plain_libs sample_ip_request (auth_token sample_ip_config) = Inr ()"
    using sample_admitted by (simp add: admitted_def)
  ultimately show ?thesis using c assms(3) by (simp add: open_session_def sample_ip_env_def del: ascii_simps)
qed

theorem overlapping_sessions_isolated_witness:
  "\<exists>w k s1 s2 w' k'.
      ip_reachable \<lparr>pool = v4_pool 0xC6120000 0xC613FFFF 0, host = sample_host\<rparr> bare_kernel (w, k, [s2, s1])
    \<and> s_client s1 = V4 0xC6120002 \<and> s_client s2 = V4 0xC6120006 \<and> size (k_rules k) = 6
    \<and> read_ip_forward sample_tun_env (host w) = Inr 1
    \<and> ip_reachable \<lparr>pool = v4_pool 0xC6120000 0xC613FFFF 0, host = sample_host\<rparr> bare_kernel (w', k', [s2])
    \<and> k_rules k' = client_rule_set (V4 0xC6120006)"
proof -
  let ?w0 = "\<lparr>pool = v4_pool 0xC6120000 0xC613FFFF 0, host = sample_host\<rparr>"
  let ?env = "\<lambda>t. sample_ip_env\<lparr>i_tun := t\<rparr>"
  have wf: "wf_pool (pool ?w0)" by (simp add: wf_pool_def v4_pool_def v4_start_def)
  have off: "read_ip_forward sample_tun_env (host ?w0) = Inr 0" using sample_host_off by simp
  note isolated = overlapping_sessions_isolated [OF _ wf off]
  have m: "\<forall>m. tun_mtu (i_limit (?env t)) = Some m \<longrightarrow> m < 2 ^ 32" for t
    by (simp add: sample_ip_env_def tun_mtu_def DATAGRAM_OVERHEAD_def)
  have r0: "ip_reachable ?w0 bare_kernel (?w0, bare_kernel, [])"
    by (rule ip_reachable.start) (simp add: sample_host_def)
  have a: "allocate (pool ?w0) = (Inr (V4 0xC6120001, V4 0xC6120002, 30), v4_pool 0xC6120000 0xC613FFFF 1)"
    by (simp add: allocate_def v4_pool_def Let_def)
  obtain s1 w1 where o1: "open_session plain_libs (?env sample_tun_env) sample_ip_config sample_ip_request ?w0 = (Inr s1, w1)"
      "s_client s1 = V4 0xC6120002" "pool w1 = v4_pool 0xC6120000 0xC613FFFF 1" "d_name (s_device s1) = ascii ''auto0''"
    using sample_opens [OF _ off a] sample_envs(3) by (auto simp del: ascii_simps)
  obtain k1 where r1: "ip_reachable ?w0 bare_kernel (w1, k1, [s1])"
    using ip_reachable.step [OF r0 ip_step.opens [OF _ _ m o1(1)]] sample_envs(1)
    by (auto simp: name_unused_def bare_kernel_def)
  have on: "read_ip_forward second_tun_env (host w1) = Inr 1"
    using isolated [OF r1] by (simp add: read_ip_forward_def second_tun_env_def)
  have "allocate (pool w1) = (Inr (V4 0xC6120005, V4 0xC6120006, 30), v4_pool 0xC6120000 0xC613FFFF 2)"
    by (simp add: o1(3) allocate_def v4_pool_def Let_def)
  from sample_opens [OF _ on this] obtain s2 w2 where
    o2: "open_session plain_libs (?env second_tun_env) sample_ip_config sample_ip_request w1 = (Inr s2, w2)"
      "s_client s2 = V4 0xC6120006" by blast
  have "name_unused second_tun_env k1"
    using isolated [OF r1] o1(4) sample_envs(4) by (simp add: name_unused_def serving_def bare_kernel_def)
  then obtain k2 where r2: "ip_reachable ?w0 bare_kernel (w2, k2, [s2, s1])"
    using ip_reachable.step [OF r1 ip_step.opens [OF _ _ m o2(1)]] sample_envs(2) by auto
  obtain w3 k3 where r3: "ip_reachable ?w0 bare_kernel (w3, k3, [s2])"
    using ip_reachable.step [OF r2 ip_step.closes [OF sample_envs(1) refl, where s = s1 and xs = "[s2]" and ys = "[]", simplified]]
    by blast
  show ?thesis
    using r2 r3 isolated [OF r2] isolated [OF r3] o1(2) o2(2)
    by (intro exI [of _ w2] exI [of _ k2] exI [of _ s1] exI [of _ s2] exI [of _ w3] exI [of _ k3])
       (simp add: serving_def bare_kernel_def client_rule_set_def)
qed

section \<open>What a session leaves behind\<close>

text \<open>(C15) Whatever way a CONNECT-IP session ends (a refused request, an exhausted pool, a set-up that fails at
  any step, a failed response, an ended stream or packet loop), the host has as many open descriptors as
  before, and the session has either run no command at all, or its commands, run on the kernel with the
  device that \<open>TUNSETIFF\<close> made for it, give back the kernel of before: the link, its addresses and the
  firewall rules are gone, and nothing else has changed. (The commands that remove rules and links
  succeed, and the kernel names the new device by a name not in use.)\<close>

theorem ip_session_cleans_up:
  assumes "undo_succeeds (i_tun env)" and "\<forall>name. t_cmd_ok (i_tun env) (IP_BIN, del_args name)"
    and "name_unused (i_tun env) k" and "handle_ip_stream l env config req w = (r, w')"
  shows "open_fds (host w') = open_fds (host w)
    \<and> (\<exists>cmds. ran (host w') = ran (host w) @ cmds
        \<and> (cmds = [] \<or> (\<exists>name. device_name (i_tun env) (ascii ''auto%d'') = Some name
              \<and> kernel_run (i_tun env) cmds (plugged name k) = k)))"
proof -
  have gone: ?thesis
    if "leaves_kernel (i_tun env) (ascii ''auto%d'') k (host w) (host w')" and "open_fds (host w') = open_fds (host w)"
      and "device_name (i_tun env) (ascii ''auto%d'') = None \<longrightarrow> ran (host w') = ran (host w)"
    using that assms(2,3) unplug_unused unfolding leaves_kernel_def name_unused_def
    by (cases "device_name (i_tun env) (ascii ''auto%d'')") (auto simp del: ascii_simps)
  consider "host w' = host w" | proxy client prefix res h where
      "create (i_tun env) (ascii ''auto%d'') proxy client prefix (tun_mtu (i_limit env)) (host w) = (res, h)"
      "host w' = (case res of Inl _ \<Rightarrow> h | Inr dev \<Rightarrow> drop_device (i_tun env) dev h)"
    using assms(4) by (fastforce simp: handle_ip_stream_def split: sum.splits prod.splits)
  then show ?thesis
  proof cases
    case 1
    then show ?thesis by simp
  next
    case (2 proxy client prefix res h)
    note kernel = create_leaves_kernel [OF assms(1) 2(1), of k] and flag = create_flag [OF 2(1)]
    show ?thesis
    proof (cases res)
      case (Inl e)
      have "device_name (i_tun env) (ascii ''auto%d'') = None \<longrightarrow> h = host w"
        using 2(1) by (auto simp: device_name_def create_def Let_def split: if_splits)
      with Inl 2(2) kernel flag show ?thesis by (intro gone) (auto simp: flag_left_def)
    next
      case (Inr dev)
      with kernel have c: "configures (i_tun env) (ascii ''auto%d'') k (host w) dev h" by simp
      from configures_dropped [OF assms(1) this] c Inr 2(2) flag show ?thesis
        by (intro gone) (auto simp: flag_held_def drop_device_ran configures_def)
    qed
  qed
qed

theorem ip_session_cleans_up_witness:
  "\<exists>r w' cmds. handle_ip_stream plain_libs sample_ip_env sample_ip_config sample_ip_request
      \<lparr>pool = v4_pool 0xC6120000 0xC613FFFF 0, host = sample_host\<rparr> = (r, w')
    \<and> ran (host w') = cmds \<and> (cmds = [] \<or> kernel_run sample_tun_env cmds (plugged (ascii ''auto0'') bare_kernel) = bare_kernel)"
proof -
  let ?w = "\<lparr>pool = v4_pool 0xC6120000 0xC613FFFF 0, host = sample_host\<rparr>"
  have e: "i_tun sample_ip_env = sample_tun_env" by (simp add: sample_ip_env_def)
  have "undo_succeeds (i_tun sample_ip_env)" "\<forall>name. t_cmd_ok (i_tun sample_ip_env) (IP_BIN, del_args name)"
    "name_unused (i_tun sample_ip_env) bare_kernel"
    using sample_envs(1) by (simp_all add: e healthy_def sample_tun_env_def name_unused_def bare_kernel_def)
  note cleans = ip_session_cleans_up [OF this]
  obtain r w' where "handle_ip_stream plain_libs sample_ip_env sample_ip_config sample_ip_request ?w = (r, w')" by fastforce
  with cleans [OF this] show ?thesis
    by (auto simp: e sample_envs(3) sample_host_def simp del: ascii_simps)
qed

section \<open>The pool over overlapping sessions\<close>

text \<open>The pool after any history is the pool after as many allocations as there were admissions while it
  lasted.\<close>

lemma pool_moves_on:
  assumes "ip_reachable w0 k0 site" and r: "v4_range network broadcast blocks"
    and "pool w0 = v4_pool network broadcast 0"
  shows "\<exists>n\<le>blocks. pool (fst site) = v4_pool network broadcast (of_nat n) \<and> length (snd (snd site)) \<le> n"
  using assms(1)
proof induction
  case start
  then show ?case using assms(3) by (intro exI [of _ 0]) simp
next
  case (step s t)
  from step.hyps(2) step.IH show ?case
  proof (induction rule: ip_step.induct)
    case (opens env k l config req w s w' live)
    then obtain n where n: "n \<le> blocks" "pool w = v4_pool network broadcast (of_nat n)" "length live \<le> n" by auto
    moreover have "allocate (pool w) = (Inr (s_proxy s, s_client s, s_prefix s), pool w')"
      using opened [OF opens(4)] by blast
    ultimately show ?case using allocate_v4 [OF r n(1)] by (intro exI [of _ "Suc n"]) (simp split: if_splits)
  next
    case (refused env k l config req w e w' live)
    then obtain n where n: "n \<le> blocks" "pool w = v4_pool network broadcast (of_nat n)" "length live \<le> n" by auto
    have "pool w' = pool w \<or> pool w' = snd (allocate (pool w))"
      using refused(3) by (auto simp: open_session_def split: sum.splits prod.splits)
    with n allocate_v4 [OF r n(1)] show ?case
      by (cases "pool w' = pool w"; cases "n < blocks") (auto intro: exI [of _ n] exI [of _ "Suc n"])
  next
    case (closes env w' s w k xs ys)
    then show ?case by (auto simp: close_session_def)
  qed
qed

definition stream_data :: "mevent list \<Rightarrow> byte list list" where
  "stream_data es = List.map_filter (\<lambda>e. case e of StreamData bs \<Rightarrow> Some bs | _ \<Rightarrow> None) es"

lemma stream_data_simps [simp]:
  "stream_data [] = []" "stream_data (StreamData bs # es) = bs # stream_data es"
  "stream_data (Response s hs # es) = stream_data es" "stream_data (Finish # es) = stream_data es"
  by (simp_all add: stream_data_def List.map_filter_simps)

lemma ip_loop_no_data: "stream_data (ip_loop ins) = []"
  using ip_loop_no_stream_data [of _ ins]
  by (auto simp: stream_data_def List.map_filter_def filter_empty_conv split: mevent.splits)

lemma tunnel_announces:
  "begins (stream_data (main_events (fst (ip_tunnel env client prefix))))
    [encode_address_assign [\<lparr>request_id = 0, address = client, prefix_len = prefix\<rparr>],
     encode_route_advertisement [default_route_range client]]"
  by (simp add: ip_tunnel_def Let_def ip_loop_no_data) (simp add: begins_def)

text \<open>(C34) Over any interleaving of sessions that open, fail to open and close, on an IPv4 pool that is
  aligned to /30 blocks, consists of whole blocks and does not end at 255.255.255.255: the pool stands at
  some block n, never less than the number of live sessions. The next admitted request moves it to block
  n + 1, whether its set-up succeeds or not, and what the handler itself sends on the stream is a part,
  from the front, of the announcement of address 2 of block n and of the default route. At the end of the pool the
  request is refused with 503 and the pool stays as it is. The end of a session gives nothing back.\<close>

theorem ip_sessions_share_pool:
  assumes "ip_reachable w0 k0 (w, k, live)" and "v4_range network broadcast blocks"
    and "pool w0 = v4_pool network broadcast 0" and "admitted (l, env, config, req)"
    and "handle_ip_stream l env config req w = ((session, result), w')"
  shows "(\<exists>n\<le>blocks. pool w = v4_pool network broadcast (of_nat n) \<and> length live \<le> n
      \<and> (if n < blocks
         then pool w' = v4_pool network broadcast (of_nat (Suc n))
           \<and> begins (stream_data (main_events session))
               [encode_address_assign
                  [\<lparr>request_id = 0, address = V4 (network + of_nat n * 4 + 2), prefix_len = 30\<rparr>],
                encode_route_advertisement [default_route_range (V4 (network + of_nat n * 4 + 2))]]
         else pool w' = pool w \<and> main_events session = answer env SERVICE_UNAVAILABLE []
           \<and> result = Inl ''ip pool exhausted''))
    \<and> pool (close_session tun s w) = pool w"
proof -
  obtain n where n: "n \<le> blocks" "pool w = v4_pool network broadcast (of_nat n)" "length live \<le> n"
    using pool_moves_on [OF assms(1-3)] by auto
  note a = allocate_v4 [OF assms(2) n(1)]
  have v: "validate_connect_ip l req (auth_token config) = Inr ()" using assms(4) by (simp add: admitted_def)
  have "if n < blocks
      then pool w' = v4_pool network broadcast (of_nat (Suc n))
        \<and> begins (stream_data (main_events session))
            [encode_address_assign
               [\<lparr>request_id = 0, address = V4 (network + of_nat n * 4 + 2), prefix_len = 30\<rparr>],
             encode_route_advertisement [default_route_range (V4 (network + of_nat n * 4 + 2))]]
      else pool w' = pool w \<and> main_events session = answer env SERVICE_UNAVAILABLE []
        \<and> result = Inl ''ip pool exhausted''"
  proof (cases "n < blocks")
    case True
    define client where "client = V4 (network + of_nat n * 4 + 2)"
    define pool' where "pool' = v4_pool network broadcast (of_nat (Suc n))"
    have g: "allocate (pool w) = (Inr (V4 (network + of_nat n * 4 + 1), client, 30), pool')"
      using a True by (simp add: n(2) client_def pool'_def)
    obtain res h where c: "create (i_tun env) (ascii ''auto%d'') (V4 (network + of_nat n * 4 + 1)) client 30
        (tun_mtu (i_limit env)) (host w) = (res, h)" by fastforce
    have "pool w' = pool' \<and> begins (stream_data (main_events session))
        [encode_address_assign [\<lparr>request_id = 0, address = client, prefix_len = 30\<rparr>],
         encode_route_advertisement [default_route_range client]]"
    proof (cases res)
      case (Inl e)
      have "session = \<lparr>main_events = answer env INTERNAL_SERVER_ERROR [], capsule_events = []\<rparr>" "pool w' = pool'"
        using assms(5) unfolding handle_ip_stream_def v g c Inl sum.case prod.case by auto
      then show ?thesis by (simp add: answer_def) (simp add: begins_def)
    next
      case (Inr dev)
      have "(session, result) = ip_tunnel env client 30" "pool w' = pool'"
        using assms(5) unfolding handle_ip_stream_def v g c Inr sum.case prod.case by auto
      with tunnel_announces [of env client 30] show ?thesis by (metis fst_conv)
    qed
    with True show ?thesis by (simp add: client_def pool'_def)
  next
    case False
    then show ?thesis using assms(5) v a n(2) by (auto simp: handle_ip_stream_def)
  qed
  with n show ?thesis
    by (intro conjI exI [of _ n]) (assumption | simp add: close_session_def)+
qed

text \<open>A pool of one block, which a session that still lives has taken.\<close>

theorem ip_sessions_share_pool_witness:
  "\<exists>w k s. ip_reachable \<lparr>pool = v4_pool 0x0A000000 0x0A000003 0, host = sample_host\<rparr> bare_kernel (w, k, [s])
    \<and> snd (fst (handle_ip_stream plain_libs sample_ip_env sample_ip_config sample_ip_request w))
        = Inl ''ip pool exhausted''"
proof -
  let ?w0 = "\<lparr>pool = v4_pool 0x0A000000 0x0A000003 0, host = sample_host\<rparr>"
  have e: "sample_ip_env\<lparr>i_tun := sample_tun_env\<rparr> = sample_ip_env" by (simp add: sample_ip_env_def)
  have r: "v4_range 0x0A000000 0x0A000003 1" by (simp add: v4_range_def)
  have m: "\<forall>m. tun_mtu (i_limit sample_ip_env) = Some m \<longrightarrow> m < 2 ^ 32"
    by (simp add: sample_ip_env_def tun_mtu_def DATAGRAM_OVERHEAD_def)
  have r0: "ip_reachable ?w0 bare_kernel (?w0, bare_kernel, [])"
    by (rule ip_reachable.start) (simp add: sample_host_def)
  have a: "allocate (pool ?w0) = (Inr (V4 0x0A000001, V4 0x0A000002, 30), v4_pool 0x0A000000 0x0A000003 1)"
    by (simp add: allocate_def v4_pool_def Let_def)
  have off: "read_ip_forward sample_tun_env (host ?w0) = Inr 0" using sample_host_off by simp
  obtain s w where o: "open_session plain_libs sample_ip_env sample_ip_config sample_ip_request ?w0 = (Inr s, w)"
    using sample_opens [OF _ off a] by (auto simp: e)
  have t: "i_tun sample_ip_env = sample_tun_env" by (simp add: sample_ip_env_def)
  have "name_unused sample_tun_env bare_kernel" by (simp add: name_unused_def bare_kernel_def)
  with ip_reachable.step [OF r0 ip_step.opens [OF _ _ m o]] sample_envs(1) obtain k where
    r1: "ip_reachable ?w0 bare_kernel (w, k, [s])" by (auto simp: t)
  obtain session result w' where
    h: "handle_ip_stream plain_libs sample_ip_env sample_ip_config sample_ip_request w = ((session, result), w')"
    by (metis prod.collapse)
  from ip_sessions_share_pool [OF r1 r _ sample_admitted h, where tun = sample_tun_env and s = s] have "result = Inl ''ip pool exhausted''"
    by (auto split: if_splits)
  with r1 h show ?thesis by (intro exI [of _ w] exI [of _ k] exI [of _ s]) simp
qed

end
