(* ===== verification/ServiceProps.thy ===== *)
theory ServiceProps
  imports Service
begin

text \<open>
  What the service manager and the shell read in the files that \<open>src/service.rs\<close> writes, and what the
  subcommands do to the host. The readers are specifications: the quoting of a unit file and of a
  double-quoted shell assignment, restricted to the constructs that the writers produce. The manual pages systemd.syntax,
  systemd.service and systemd.exec describe the first.
\<close>

section \<open>Lines and replacements\<close>

lemma split_text_lines:
  "\<forall>l\<in>set ls. 10 \<notin> set l \<Longrightarrow> split_char 10 (concat (map text_line ls)) = ls @ [[]]"
  by (induction ls) (auto simp: text_line_def split_char_join)

lemma lines_text:
  "\<forall>l\<in>set ls. 10 \<notin> set l \<Longrightarrow> lines (concat (map text_line ls)) = map chomp ls"
  by (simp add: lines_def split_text_lines Let_def)

lemma replace_byte_simps [simp]:
  "replace_byte c w [] = []"
  "replace_byte c w (x # s) = (if x = c then w else [x]) @ replace_byte c w s"
  by (simp_all add: replace_byte_def)

lemma set_replace_byte: "set (replace_byte c w s) \<subseteq> set s \<union> set w"
  by (induction s) auto

lemma set_join_space: "x \<in> set (join_space ws) \<Longrightarrow> x = 32 \<or> (\<exists>w\<in>set ws. x \<in> set w)"
  by (induction ws rule: join_space.induct) auto

lemma chomp_other: "s = [] \<or> last s \<noteq> 13 \<Longrightarrow> chomp s = s"
  by (auto simp: chomp_def)

section \<open>How a unit file is read\<close>

text \<open>The rest of a double-quoted word, with \<open>\\\<close> before a quote or a backslash; then the words of a
  line, separated by spaces.\<close>

fun quoted_rest :: "str \<Rightarrow> (str \<times> str) option" where
  "quoted_rest [] = None"
| "quoted_rest [c] = (if c = 34 then Some ([], []) else None)"
| "quoted_rest (c # d # r) =
     (if c = 34 then Some ([], d # r)
      else if c = 92
      then (if d = 34 \<or> d = 92 then map_option (\<lambda>(w, t). (d # w, t)) (quoted_rest r) else None)
      else map_option (\<lambda>(w, t). (c # w, t)) (quoted_rest (d # r)))"

lemma quoted_rest_shorter: "quoted_rest s = Some (w, t) \<Longrightarrow> length t < length s"
  by (induction s arbitrary: w t rule: quoted_rest.induct) (fastforce split: if_splits)+

function unit_words :: "str \<Rightarrow> str list option" where
  "unit_words s =
     (case s of
        [] \<Rightarrow> Some []
      | c # r \<Rightarrow>
          if c = 32 then unit_words r
          else if c = 34 then
            (case quoted_rest r of
               None \<Rightarrow> None
             | Some (w, t) \<Rightarrow>
                 if t = [] \<or> hd t = 32 then map_option ((#) w) (unit_words t) else None)
          else None)"
  by pat_completeness auto
termination
  by (relation "measure length") (auto dest!: quoted_rest_shorter)

declare unit_words.simps [simp del]

text \<open>In the words of a command line \<open>%\<close> starts a specifier and \<open>$\<close> a variable; doubled, each stands for
  itself. Any other use is replaced by something else, here \<open>None\<close>.\<close>

fun undouble :: "byte \<Rightarrow> str \<Rightarrow> str option" where
  "undouble c [] = Some []"
| "undouble c [x] = (if x = c then None else Some [x])"
| "undouble c (x # y # r) =
     (if x = c then if y = c then map_option ((#) c) (undouble c r) else None
      else map_option ((#) x) (undouble c (y # r)))"

definition expand_word :: "str \<Rightarrow> str option" where
  "expand_word w = Option.bind (undouble 37 w) (undouble 36)"

text \<open>A line of a unit file ends at a newline, a carriage return or a NUL. (Comments and continuation
  lines are left out: the writer produces none.)\<close>

definition unit_file_lines :: "str \<Rightarrow> str list" where
  "unit_file_lines text = split_char 10 (map (\<lambda>c. if c \<in> {0, 13} then 10 else c) text)"

text \<open>What may stand as the program: an absolute path, not of a directory, without control characters,
  quotes and backslashes, which systemd refuses there; a variable in it is left open.\<close>

definition unit_program :: "str \<Rightarrow> bool" where
  "unit_program p \<longleftrightarrow>
     starts_with [47] p \<and> last p \<noteq> 47 \<and> list_all (\<lambda>c. 32 \<le> c \<and> c \<notin> {34, 36, 39, 92, 127}) p"

text \<open>The words of the one \<open>ExecStart\<close> line; the first is the program.\<close>

definition exec_start :: "str \<Rightarrow> str list option" where
  "exec_start text =
     (case filter (starts_with (ascii ''ExecStart='')) (unit_file_lines text) of
        [l] \<Rightarrow>
          (case Option.bind (unit_words (drop 10 l)) (\<lambda>ws. those (map expand_word ws)) of
             Some (program # args) \<Rightarrow> if unit_program program then Some (program # args) else None
           | _ \<Rightarrow> None)
      | _ \<Rightarrow> None)"

lemma undouble_plain: "c \<notin> set w \<Longrightarrow> undouble c w = Some w"
  by (induction c w rule: undouble.induct) auto

lemma expand_plain: "\<forall>w\<in>set ws. 36 \<notin> set w \<and> 37 \<notin> set w \<Longrightarrow> those (map expand_word ws) = Some ws"
  by (induction ws) (simp_all add: expand_word_def undouble_plain)

lemma quoted_rest_quote:
  "quoted_rest (replace_byte 34 [92, 34] (replace_byte 92 [92, 92] s) @ 34 # t) = Some (s, t)"
proof (induction s)
  case Nil
  show ?case by (cases t) simp_all
next
  case (Cons c s)
  let ?q = "replace_byte 34 [92, 34] (replace_byte 92 [92, 92] s) @ 34 # t"
  have plain: "quoted_rest (c # ?q) = Some (c # s, t)" if "c \<noteq> 34" "c \<noteq> 92"
  proof -
    obtain d r where "?q = d # r" by (cases ?q) auto
    with Cons that show ?thesis by simp
  qed
  show ?case using Cons plain by auto
qed

lemma unit_words_quote:
  "t = [] \<or> hd t = 32 \<Longrightarrow> unit_words (systemd_quote s @ t) = map_option ((#) s) (unit_words t)"
  by (subst unit_words.simps) (simp add: systemd_quote_def quoted_rest_quote)

lemma unit_words_space: "unit_words (32 # s) = unit_words s"
  by (subst unit_words.simps) simp

lemma unit_words_join: "unit_words (join_space (map systemd_quote ws)) = Some ws"
proof (induction ws rule: induct_list012)
  case 1
  show ?case by (subst unit_words.simps) simp
next
  case (2 w)
  show ?case using unit_words_quote [of "[]" w] by (simp add: unit_words.simps [of "[]"])
next
  case (3 w v ws)
  then show ?case
    using unit_words_quote [of "32 # join_space (systemd_quote v # map systemd_quote ws)" w]
    by (simp add: unit_words_space)
qed

lemma systemd_exec_words: "unit_words (systemd_exec bin as) = Some (bin # as)"
  using unit_words_join [of "bin # as"] by (simp add: systemd_exec_def)

lemma set_systemd_quote: "x \<in> set (systemd_quote s) \<Longrightarrow> x \<in> set s \<or> x = 34 \<or> x = 92"
  using set_replace_byte [of 34 "[92, 34]" "replace_byte 92 [92, 92] s"] set_replace_byte [of 92 "[92, 92]" s]
  by (auto simp: systemd_quote_def)

lemma set_systemd_exec:
  "c \<in> set (systemd_exec bin as) \<Longrightarrow> c \<in> {32, 34, 92} \<or> (\<exists>w\<in>set (bin # as). c \<in> set w)"
  unfolding systemd_exec_def by (fastforce dest!: set_join_space set_systemd_quote)

lemma unit_file_lines_text:
  assumes "\<forall>l\<in>set ls. set l \<inter> {0, 10, 13} = {}"
  shows "unit_file_lines (concat (map text_line ls)) = ls @ [[]]"
proof -
  have "c \<notin> {0, 13}" if "c \<in> set (concat (map text_line ls))" for c
    using that assms by (auto simp: text_line_def split: if_splits)
  then have "map (\<lambda>c. if c \<in> {0, 13} then 10 else c) (concat (map text_line ls)) = concat (map text_line ls)"
    by (intro map_idI) (simp only: if_False)
  moreover have "\<forall>l\<in>set ls. 10 \<notin> set l" using assms by auto
  ultimately show ?thesis by (simp only: unit_file_lines_def split_text_lines)
qed

lemma unit_exec_line:
  assumes "\<forall>w\<in>set (bin # as). set w \<inter> {0, 10, 13} = {}"
  shows "filter (starts_with (ascii ''ExecStart='')) (unit_file_lines (systemd_unit bin as))
    = [ascii ''ExecStart='' @ systemd_exec bin as]"
proof -
  have "set (systemd_exec bin as) \<inter> {0, 10, 13} = {}"
    using assms set_systemd_exec [of _ bin as] by fastforce
  then have "\<forall>l\<in>set (unit_lines bin as). set l \<inter> {0, 10, 13} = {}"
    by (simp add: unit_lines_def)
  then have ls: "unit_file_lines (systemd_unit bin as) = unit_lines bin as @ [[]]"
    unfolding systemd_unit_def by (rule unit_file_lines_text)
  show ?thesis unfolding ls by (simp add: unit_lines_def starts_with_def)
qed

lemma exec_start_unit:
  assumes "\<forall>w\<in>set (bin # as). set w \<inter> {0, 10, 13} = {}"
  shows "exec_start (systemd_unit bin as) =
    (case those (map expand_word (bin # as)) of
       Some (program # args) \<Rightarrow> if unit_program program then Some (program # args) else None
     | _ \<Rightarrow> None)"
proof -
  have "drop 10 (ascii ''ExecStart='' @ systemd_exec bin as) = systemd_exec bin as" by simp
  then show ?thesis
    by (simp only: exec_start_def unit_exec_line [OF assms] systemd_exec_words list.case bind.bind_lunit)
qed

text \<open>(C39) The unit file starts the program with exactly the arguments given, when these contain no
  percent or dollar sign and no line end (newline, carriage return, NUL) and the path of the program
  is one that systemd accepts (absolute, not of a directory, without quotes, backslashes, dollar
  signs and control characters): the file then has one \<open>ExecStart\<close> line, and that line, read
  with the line, quoting and expansion rules of a unit file, is the program followed by the
  arguments, whatever quotes, backslashes and spaces they contain. For the excluded characters the
  statement fails: see \<open>unit_loses_specifier\<close> and \<open>unit_cut_at_line_end\<close> below.\<close>

theorem unit_starts_args:
  assumes "unit_program bin" and "\<forall>w\<in>set (bin # as). set w \<inter> {0, 10, 13, 36, 37} = {}"
  shows "exec_start (systemd_unit bin as) = Some (bin # as)"
proof -
  have "\<forall>w\<in>set (bin # as). set w \<inter> {0, 10, 13} = {}" "\<forall>w\<in>set (bin # as). 36 \<notin> set w \<and> 37 \<notin> set w"
    using assms(2) by auto
  with assms(1) show ?thesis by (simp add: exec_start_unit expand_plain del: list.map list.set)
qed

theorem unit_starts_args_witness:
  "exec_start (systemd_unit (ascii ''/opt/a b'') [[34, 92], ascii ''--listen'', []]) =
     Some [ascii ''/opt/a b'', [34, 92], ascii ''--listen'', []]"
  using unit_starts_args [of "ascii ''/opt/a b''" "[[34, 92], ascii ''--listen'', []]"]
  by (simp add: unit_program_def starts_with_def)

text \<open>The quoting leaves specifiers and variables active: a token that contains one does not reach the
  program.\<close>

lemma unit_loses_specifier:
  "exec_start (systemd_unit (ascii ''/opt/a'') [ascii ''--auth-token'', ascii ''50%h'']) = None"
  "exec_start (systemd_unit (ascii ''/opt/a'') [ascii ''--auth-token'', ascii ''a$b'']) = None"
  by (simp_all add: exec_start_unit expand_word_def)

text \<open>A line end inside an argument ends the command line in the middle of a quoted word.\<close>

lemma unit_cut_at_line_end:
  assumes "c \<in> {10, 13}"
  shows "exec_start (systemd_unit (ascii ''/opt/a'') [[97, c, 98]]) = None"
proof -
  have "filter (starts_with (ascii ''ExecStart='')) (unit_file_lines (systemd_unit (ascii ''/opt/a'') [[97, c, 98]]))
      = [ascii ''ExecStart=\"/opt/a\" \"a'']"
    using assms by (elim insertE emptyE; hypsubst; code_simp)
  moreover have "unit_words (drop 10 (ascii ''ExecStart=\"/opt/a\" \"a'')) = None" by code_simp
  ultimately show ?thesis by (simp only: exec_start_def list.case bind.bind_lzero option.case)
qed

section \<open>How the init script is read\<close>

text \<open>
  The value of an assignment in double quotes, from behind the opening quote to the end of the line
  (expansions are not modelled), and the fields into which a shell splits the unquoted expansion of
  a variable. Quotes that come out of an expansion are ordinary characters.
\<close>

fun dquoted_value :: "str \<Rightarrow> str option" where
  "dquoted_value [] = None"
| "dquoted_value [c] = (if c = 34 then Some [] else None)"
| "dquoted_value (c # d # r) =
     (if c \<in> {34, 36, 96} then None
      else if c = 92 \<and> d \<in> {34, 36, 92, 96} then map_option ((#) d) (dquoted_value r)
      else map_option ((#) c) (dquoted_value (d # r)))"

definition shell_fields :: "str \<Rightarrow> str list" where
  "shell_fields s = filter (\<lambda>w. w \<noteq> []) (split_char 32 (map (\<lambda>c. if c = 9 \<or> c = 10 then 32 else c) s))"

definition script_args :: "str \<Rightarrow> str list option" where
  "script_args text =
     (case find (starts_with (ascii ''DAEMON_ARGS='' @ [34])) (lines text) of
        None \<Rightarrow> None
      | Some l \<Rightarrow> map_option shell_fields (dquoted_value (drop 13 l)))"

definition plain_byte :: "byte \<Rightarrow> bool" where
  "plain_byte c = (c \<notin> {9, 10, 32, 34, 36, 92, 96})"

definition safe_text :: "str \<Rightarrow> bool" where
  "safe_text s \<longleftrightarrow> (\<forall>t. t \<noteq> [] \<longrightarrow> dquoted_value (s @ t) = map_option (\<lambda>u. s @ u) (dquoted_value t))"

lemma safe_text_append: "safe_text a \<Longrightarrow> safe_text b \<Longrightarrow> safe_text (a @ b)"
  by (auto simp: safe_text_def option.map_comp comp_def)

lemma safe_text_Nil: "safe_text []"
  by (simp add: safe_text_def option.map_ident)

lemma safe_text_byte: "c \<notin> {34, 36, 92, 96} \<Longrightarrow> safe_text [c]"
  unfolding safe_text_def
proof (intro allI impI)
  fix t :: str assume "c \<notin> {34, 36, 92, 96}" "t \<noteq> []"
  then show "dquoted_value ([c] @ t) = map_option (\<lambda>u. [c] @ u) (dquoted_value t)"
    by (cases t) simp_all
qed

lemma safe_text_escaped_quote: "safe_text [39, 92, 39, 39]"
  unfolding safe_text_def
proof (intro allI impI)
  fix t :: str assume "t \<noteq> []"
  then show "dquoted_value ([39, 92, 39, 39] @ t) = map_option (\<lambda>u. [39, 92, 39, 39] @ u) (dquoted_value t)"
    by (cases t) (simp_all add: option.map_comp comp_def)
qed

lemma safe_text_quote: "list_all plain_byte s \<Longrightarrow> safe_text (sh_quote s)"
proof -
  assume "list_all plain_byte s"
  then have "safe_text (replace_byte 39 [39, 92, 39, 39] s)"
    by (induction s)
       (auto simp: plain_byte_def safe_text_Nil intro: safe_text_append [OF safe_text_escaped_quote, simplified]
          safe_text_append [OF safe_text_byte, simplified])
  from safe_text_append [OF safe_text_append [OF safe_text_byte this] safe_text_byte, of 39 39]
  show ?thesis by (simp add: sh_quote_def)
qed

lemma safe_text_join: "\<forall>w\<in>set ws. safe_text w \<Longrightarrow> safe_text (join_space ws)"
proof (induction ws rule: join_space.induct)
  case (3 w v ws)
  have "safe_text [32]" by (rule safe_text_byte) simp
  from safe_text_append [OF this, of "join_space (v # ws)"] 3
  show ?case by (auto intro: safe_text_append)
qed (simp_all add: safe_text_Nil)

lemma set_sh_quote:
  assumes "list_all plain_byte s" and "x \<in> set (sh_quote s)"
  shows "x \<noteq> 9 \<and> x \<noteq> 10 \<and> x \<noteq> 32"
proof -
  have "x \<in> set s \<or> x = 39 \<or> x = 92"
    using assms(2) subsetD [OF set_replace_byte, of x 39 "[39, 92, 39, 39]" s]
    unfolding sh_quote_def by auto
  moreover have "x \<in> set s \<Longrightarrow> plain_byte x" using assms(1) by (simp add: list_all_iff)
  ultimately show ?thesis by (elim disjE) (simp_all add: plain_byte_def)
qed

lemma split_join_space:
  "ws \<noteq> [] \<Longrightarrow> \<forall>w\<in>set ws. 32 \<notin> set w \<Longrightarrow> split_char 32 (join_space ws) = ws"
  by (induction ws rule: join_space.induct) (simp_all add: split_char_single split_char_join)

lemma shell_fields_join:
  assumes "\<forall>w\<in>set ws. w \<noteq> [] \<and> (\<forall>x\<in>set w. x \<noteq> 9 \<and> x \<noteq> 10 \<and> x \<noteq> 32)"
  shows "shell_fields (join_space ws) = ws"
proof -
  have "x \<noteq> 9 \<and> x \<noteq> 10" if "x \<in> set (join_space ws)" for x
    using set_join_space [OF that] assms by auto
  then have map: "map (\<lambda>c. if c = 9 \<or> c = 10 then 32 else c) (join_space ws) = join_space ws"
    by (intro map_idI) auto
  show ?thesis
  proof (cases "ws = []")
    case False
    have "split_char 32 (join_space ws) = ws" by (rule split_join_space [OF False]) (use assms in auto)
    then show ?thesis unfolding shell_fields_def map by (simp add: assms)
  qed (simp add: shell_fields_def)
qed

lemma sh_quote_differs: "sh_quote s \<noteq> s"
proof -
  have "length s \<le> length (replace_byte 39 [39, 92, 39, 39] s)" by (induction s) auto
  then have "length s < length (sh_quote s)" by (simp add: sh_quote_def)
  then show ?thesis by auto
qed

lemma script_lines_no_newline:
  assumes "10 \<notin> set bin" and "\<forall>a\<in>set as. list_all plain_byte a"
  shows "\<forall>l\<in>set (script_lines bin as). 10 \<notin> set l"
proof -
  have "10 \<notin> set (sh_quote_join as)"
    using assms(2) by (auto simp: sh_quote_join_def dest!: set_join_space set_sh_quote)
  moreover have "\<forall>l\<in>set script_head. 10 \<notin> set l" by (simp add: script_head_def)
  moreover have "\<forall>l\<in>set script_tail. 10 \<notin> set l" by (simp add: script_tail_def)
  ultimately show ?thesis using assms(1) by (simp add: script_lines_def ball_Un)
qed

lemma find_append: "find p (xs @ ys) = (case find p xs of Some x \<Rightarrow> Some x | None \<Rightarrow> find p ys)"
  by (induction xs) auto

lemma find_script_args:
  "find (starts_with (ascii ''DAEMON_ARGS='' @ [34])) (map chomp (script_lines bin as))
     = Some (ascii ''DAEMON_ARGS='' @ 34 # sh_quote_join as @ [34])"
proof -
  have head: "find (starts_with (ascii ''DAEMON_ARGS='' @ [34])) (map chomp script_head) = None"
    by (simp add: script_head_def chomp_def starts_with_def)
  have chomp: "chomp (s @ [34]) = s @ [34]" for s by (rule chomp_other) simp
  show ?thesis
    using chomp [of "ascii ''DAEMON=\"'' @ bin"] chomp [of "ascii ''DAEMON_ARGS=\"'' @ sh_quote_join as"]
    by (simp add: script_lines_def find_append head [simplified] starts_with_def)
qed

text \<open>The init script does not start the program with the arguments given: for arguments of plain
  characters the fields of the unquoted \<open>$DAEMON_ARGS\<close> are the arguments with the single quotes that
  \<open>sh_quote\<close> put around them, so no forwarded argument arrives as it was given.\<close>

theorem script_args_keep_quotes:
  assumes "10 \<notin> set bin" and "\<forall>a\<in>set as. list_all plain_byte a"
  shows "script_args (init_script bin as) = Some (map sh_quote as)
    \<and> (\<forall>i<length as. map sh_quote as ! i \<noteq> as ! i)"
proof -
  have ls: "lines (init_script bin as) = map chomp (script_lines bin as)"
    unfolding init_script_def by (rule lines_text [OF script_lines_no_newline [OF assms]])
  have "safe_text (sh_quote_join as)"
    unfolding sh_quote_join_def using assms(2) by (intro safe_text_join) (auto intro: safe_text_quote)
  then have "dquoted_value (sh_quote_join as @ [34]) = Some (sh_quote_join as)"
    unfolding safe_text_def by simp
  moreover have "shell_fields (sh_quote_join as) = map sh_quote as"
    unfolding sh_quote_join_def
    by (rule shell_fields_join) (use assms(2) set_sh_quote in \<open>auto simp: sh_quote_def\<close>)
  ultimately have "script_args (init_script bin as) = Some (map sh_quote as)"
    unfolding script_args_def ls find_script_args by simp
  then show ?thesis by (simp add: sh_quote_differs)
qed

theorem script_args_keep_quotes_witness:
  "script_args (init_script (ascii ''/opt/bin/auto-server'') [ascii ''--no-loopback''])
     = Some [39 # ascii ''--no-loopback'' @ [39]]"
proof -
  have "10 \<notin> set (ascii ''/opt/bin/auto-server'')"
    "\<forall>a\<in>set [ascii ''--no-loopback'']. list_all plain_byte a"
    by (simp_all add: plain_byte_def)
  from script_args_keep_quotes [OF this] show ?thesis by (simp add: sh_quote_def)
qed

section \<open>Rights\<close>

lemma word_before_tab:
  "\<forall>x\<in>set w. x < 0x80 \<and> \<not> (between 9 13 x \<or> x = 32) \<Longrightarrow> span_word (w @ 9 # r) = (w, 9 # r)"
proof (induction w)
  case (Cons c w)
  then have "ws_len (c # w @ 9 # r) = 0" by (intro ws_len_ascii) auto
  with Cons show ?case by (simp del: ws_len.simps)
qed (simp add: between_def)

lemma split_whitespace_tab:
  assumes "w \<noteq> []" and "\<forall>x\<in>set w. x < 0x80 \<and> \<not> (between 9 13 x \<or> x = 32)"
  shows "split_whitespace (w @ 9 # r) = w # split_whitespace r"
    and "split_whitespace (9 # r) = split_whitespace r"
proof -
  obtain c v where w: "w = c # v" using assms(1) by (cases w) auto
  have "ws_len (w @ 9 # r) = 0" unfolding w using assms(2) w by (simp add: ws_len_ascii del: ws_len.simps)
  then have t: "trim_start (w @ 9 # r) = w @ 9 # r" by (subst trim_start.simps) simp
  have tab: "trim_start (9 # r) = trim_start r"
    by (subst trim_start.simps) (simp add: between_def)
  show tabs: "split_whitespace (9 # r) = split_whitespace r"
    by (subst (1 2) split_whitespace.simps) (simp add: tab)
  show "split_whitespace (w @ 9 # r) = w # split_whitespace r"
    by (subst split_whitespace.simps) (simp add: t word_before_tab [OF assms(2)] tabs assms(1))
qed

lemma uid_line_words:
  "split_whitespace (ascii ''Uid:'' @ 9 # dec uid @ 9 # rest) = ascii ''Uid:'' # dec uid # split_whitespace rest"
proof -
  have uid: "split_whitespace (ascii ''Uid:'' @ 9 # s) = ascii ''Uid:'' # split_whitespace s" for s
    by (rule split_whitespace_tab(1)) (simp_all add: between_def)
  have num: "split_whitespace (dec uid @ 9 # s) = dec uid # split_whitespace s" for s
    by (rule split_whitespace_tab(1)) (use dec_no_space in auto)
  show ?thesis unfolding uid num ..
qed

lemma find_skip: "\<forall>x\<in>set xs. \<not> p x \<Longrightarrow> p y \<Longrightarrow> find p (xs @ y # ys) = Some y"
  by (induction xs) auto

lemma is_root_uid:
  assumes "proc_status env = Some (concat (map text_line
      (before @ (ascii ''Uid:'' @ 9 # dec uid @ 9 # rest) # behind)))"
    and "\<forall>l\<in>set before. 10 \<notin> set l \<and> \<not> starts_with (ascii ''Uid:'') (chomp l)"
    and "10 \<notin> set rest" and "\<forall>l\<in>set behind. 10 \<notin> set l" and "uid < 2 ^ 32"
  shows "is_root env = (uid = 0)"
proof -
  let ?l = "ascii ''Uid:'' @ 9 # dec uid @ 9 # rest"
  have no10: "10 \<notin> set ?l"
    using assms(3) dec_no_space [of 10 uid] by (auto simp: between_def)
  have "\<exists>rest'. chomp ?l = ascii ''Uid:'' @ 9 # dec uid @ 9 # rest'"
    by (cases rest rule: rev_cases) (auto simp: chomp_def butlast_append)
  then obtain rest' where l: "chomp ?l = ascii ''Uid:'' @ 9 # dec uid @ 9 # rest'" by blast
  have "lines (concat (map text_line (before @ ?l # behind))) = map chomp (before @ ?l # behind)"
    using assms(2,4) no10 by (intro lines_text) auto
  moreover have "find (starts_with (ascii ''Uid:'')) (map chomp (before @ ?l # behind)) = Some (chomp ?l)"
    unfolding map_append list.map l
    by (rule find_skip) (use assms(2) in \<open>auto simp: starts_with_def\<close>)
  moreover have "parse_uint (2 ^ 32) (dec uid) = Some uid" using assms(5) by (rule parse_uint_dec)
  moreover have "split_whitespace (chomp ?l) = ascii ''Uid:'' # dec uid # split_whitespace rest'"
    unfolding l by (rule uid_line_words)
  ultimately show ?thesis
    unfolding is_root_def assms(1) by (simp del: ascii_simps)
qed

text \<open>Only root changes anything: when the status file of the process shows a real user id other
  than 0, every subcommand fails and leaves files, directories and commands alone.\<close>

theorem service_needs_root:
  assumes "proc_status env = Some (concat (map text_line
      (before @ (ascii ''Uid:'' @ 9 # dec uid @ 9 # rest) # behind)))"
    and "\<forall>l\<in>set before. 10 \<notin> set l \<and> \<not> starts_with (ascii ''Uid:'') (chomp l)"
    and "10 \<notin> set rest" and "\<forall>l\<in>set behind. 10 \<notin> set l" and "0 < uid" "uid < 2 ^ 32"
  shows "service_run env cmd h = (Inl ''This command must be run as root'', h)"
  using is_root_uid [OF assms(1-4,6)] assms(5)
  by (simp add: service_run_def ensure_root_def andthen_def bail_def)

definition svc_env_of :: "nat \<Rightarrow> svc_env" where
  "svc_env_of uid =
     \<lparr>proc_status = Some (concat (map text_line
        ([ascii ''Name:'' @ 9 # ascii ''auto-server''] @ (ascii ''Uid:'' @ 9 # dec uid @ 9 # dec uid) # []))),
      path_var = None, is_dir = (\<lambda>p. p = ascii ''/run/systemd/system''),
      current_exe = Some (ascii ''/tmp/auto-server''), canonical = Some, current_dir = Some (ascii ''/tmp''),
      executes = (\<lambda>_ _. Some True), create_ok = (\<lambda>_. True), write_stops = (\<lambda>_. None), new_mode = 420,
      chmod_ok = (\<lambda>_. True), remove_ok = (\<lambda>_. True), create_dir_ok = (\<lambda>_. True),
      copy_fails = (\<lambda>_ _. None)\<rparr>"

definition empty_host :: svc_host where
  "empty_host = \<lparr>files = [ascii ''/tmp/auto-server'' \<mapsto> ([127], 493)], new_dirs = [], ran = []\<rparr>"

lemma svc_env_status:
  "proc_status (svc_env_of uid) = Some (concat (map text_line
     ([ascii ''Name:'' @ 9 # ascii ''auto-server''] @ (ascii ''Uid:'' @ 9 # dec uid @ 9 # dec uid) # [])))"
  by (simp add: svc_env_of_def)

lemma svc_env_lines:
  "\<forall>l\<in>set [ascii ''Name:'' @ 9 # ascii ''auto-server'']. 10 \<notin> set l \<and> \<not> starts_with (ascii ''Uid:'') (chomp l)"
  "10 \<notin> set (dec uid)"
  using dec_no_space [of 10 uid] by (auto simp: chomp_def starts_with_def between_def)

theorem service_needs_root_witness:
  "service_run (svc_env_of 1000) Uninstall empty_host = (Inl ''This command must be run as root'', empty_host)"
  by (rule service_needs_root [OF svc_env_status svc_env_lines(1) svc_env_lines(2)]) simp_all

section \<open>Installing and removing\<close>

definition service_file :: "init_system \<Rightarrow> str" where
  "service_file i = (if i = Systemd then SYSTEMD_UNIT_PATH else SYSV_SCRIPT_PATH)"

definition service_text :: "init_system \<Rightarrow> str \<Rightarrow> str list \<Rightarrow> str \<times> nat" where
  "service_text i bin as = (if i = Systemd then (systemd_unit bin as, 420) else (init_script bin as, 493))"

lemma andthen_Inr_iff:
  "andthen m f s = (Inr y, t) \<longleftrightarrow> (\<exists>x s'. m s = (Inr x, s') \<and> f x s' = (Inr y, t))"
  by (auto simp: andthen_def split: prod.splits sum.splits)

lemma with_context_Inr [simp]: "with_context e m s = (Inr y, t) \<longleftrightarrow> m s = (Inr y, t)"
  by (auto simp: with_context_def split: prod.splits sum.splits)

lemma ret_bail_iff [simp]:
  "ret x s = (Inr y, t) \<longleftrightarrow> y = x \<and> t = s" "\<not> bail e s = (Inr y, t)"
  by (auto simp: ret_def bail_def)

lemma detect_init_state: "detect_init env h = (r, h') \<Longrightarrow> h' = h"
  by (auto simp: detect_init_def split: if_splits)

lemma write_file_Inr:
  "write_file env path content mode h = (Inr u, h') \<Longrightarrow>
   h' = h\<lparr>files := (files h)(path \<mapsto> (content, mode))\<rparr>"
  by (auto simp: write_file_def andthen_Inr_iff file_create_def file_write_all_def set_permissions_def
      split: if_splits option.splits)

lemma run_cmd_Inr: "run_cmd env p as h = (Inr u, h') \<Longrightarrow> h' = h\<lparr>ran := ran h @ [(p, as)]\<rparr>"
  by (auto simp: run_cmd_def andthen_Inr_iff attempt_def split: option.splits if_splits)

lemma run_cmd_ignore_eq [simp]: "run_cmd_ignore env p as h = (Inr (), h\<lparr>ran := ran h @ [(p, as)]\<rparr>)"
  by (simp add: run_cmd_ignore_def attempt_def)

lemma remove_if_exists_Inr:
  "remove_if_exists env path h = (Inr u, h') \<Longrightarrow>
   files h' = (files h)(path := None) \<and> ran h' = ran h"
  by (cases "files h path") (auto simp: remove_if_exists_def path_exists_def fun_upd_idem split: if_splits)

text \<open>Where \<open>copy_binary\<close> puts the program for a given \<open>--bin-path\<close>.\<close>

definition copied_to :: "svc_env \<Rightarrow> str \<Rightarrow> str \<Rightarrow> bool" where
  "copied_to env given dest =
     (if is_absolute given then dest = given
      else (\<exists>cwd. current_dir env = Some cwd \<and> dest = path_join cwd given))"

lemma copy_dest_Inr: "copy_dest env given h = (Inr dest, h') \<Longrightarrow> copied_to env given dest \<and> h' = h"
  by (auto simp: copy_dest_def copied_to_def split: if_splits option.splits)

lemma create_parent_Inr: "create_parent env dest h = (Inr u, h') \<Longrightarrow> files h' = files h \<and> ran h' = ran h"
  by (auto simp: create_parent_def split: if_splits option.splits)

lemma copy_file_Inr:
  "copy_file env src dest h = (Inr u, h') \<Longrightarrow>
   \<exists>f. files h src = Some f \<and> h' = h\<lparr>files := (files h)(dest \<mapsto> f)\<rparr>"
  by (auto simp: copy_file_def split: option.splits)

lemma set_permissions_Inr:
  "set_permissions env path mode h = (Inr u, h') \<Longrightarrow>
   h' = h\<lparr>files := (files h)(path := map_option (\<lambda>(text, _). (text, mode)) (files h path))\<rparr>"
  by (auto simp: set_permissions_def split: if_splits)

lemma copy_binary_Inr:
  assumes "copy_binary env src given h = (Inr u, h')"
  shows "\<exists>dest program mode. copied_to env given dest \<and> files h src = Some (program, mode)
    \<and> files h' = (files h)(dest \<mapsto> (program, 493)) \<and> ran h' = ran h"
proof -
  from assms obtain dest h1 h2 h3 where 1: "copy_dest env given h = (Inr dest, h1)"
    and 2: "create_parent env dest h1 = (Inr (), h2)" and 3: "copy_file env src dest h2 = (Inr (), h3)"
    and 4: "set_permissions env dest 493 h3 = (Inr u, h')"
    by (auto simp: copy_binary_def andthen_Inr_iff)
  from copy_dest_Inr [OF 1] create_parent_Inr [OF 2] copy_file_Inr [OF 3] set_permissions_Inr [OF 4]
  show ?thesis by fastforce
qed

text \<open>Everything an installation changes, from the host after the copy, if there is one.\<close>

lemma install_file:
  assumes "service_run env (Install bin_path as) h = (Inr (), h')"
  shows "\<exists>h1 bin i. detect_init env h1 = (Inr i, h1)
    \<and> files h' = (files h1)(service_file i \<mapsto> service_text i bin as) \<and> new_dirs h' = new_dirs h1
    \<and> ran h' = ran h1 @ (if i = Systemd then [(ascii ''systemctl'', [ascii ''daemon-reload''])] else [])
    \<and> (case bin_path of
          None \<Rightarrow> h1 = h \<and> (\<exists>exe. current_exe env = Some exe \<and> canonical env exe = Some bin)
        | Some given \<Rightarrow> bin = given
            \<and> (\<exists>exe src. current_exe env = Some exe \<and> canonical env exe = Some src
                 \<and> copy_binary env src given h = (Inr (), h1)))"
proof -
  from assms have "install env as bin_path h = (Inr (), h')"
    by (auto simp: service_run_def ensure_root_def andthen_Inr_iff split: if_splits)
  from andthen_Inr_iff [THEN iffD1, OF this [unfolded install_def]]
  obtain bin h1 where b: "(case bin_path of
          Some dest \<Rightarrow> andthen (binary_path env) (\<lambda>src. andthen (copy_binary env src dest) (\<lambda>_. ret dest))
        | None \<Rightarrow> binary_path env) h = (Inr bin, h1)"
    and d: "andthen (detect_init env) (\<lambda>i. write_service env bin as i) h1 = (Inr (), h')"
    unfolding write_service_def by blast
  from andthen_Inr_iff [THEN iffD1, OF d] obtain i
    where i: "detect_init env h1 = (Inr i, h1)" and w: "write_service env bin as i h1 = (Inr (), h')"
    using detect_init_state by blast
  have "files h' = (files h1)(service_file i \<mapsto> service_text i bin as) \<and> new_dirs h' = new_dirs h1
    \<and> ran h' = ran h1 @ (if i = Systemd then [(ascii ''systemctl'', [ascii ''daemon-reload''])] else [])"
    using w by (cases i)
      (auto simp: write_service_def andthen_Inr_iff service_file_def service_text_def simp del: ascii_simps
        dest!: write_file_Inr run_cmd_Inr)
  moreover have "case bin_path of
          None \<Rightarrow> h1 = h \<and> (\<exists>exe. current_exe env = Some exe \<and> canonical env exe = Some bin)
        | Some given \<Rightarrow> bin = given
            \<and> (\<exists>exe src. current_exe env = Some exe \<and> canonical env exe = Some src
                 \<and> copy_binary env src given h = (Inr (), h1))"
    using b by (cases bin_path) (auto simp: andthen_Inr_iff binary_path_def split: option.splits)
  ultimately show ?thesis using i by blast
qed

text \<open>Everything a removal changes: the service file goes, whether or not the service was known, and
  nothing else does; in particular a binary that was copied by \<open>--bin-path\<close> stays.\<close>

lemma uninstall_removes:
  assumes "service_run env Uninstall h = (Inr (), h')"
  shows "\<exists>i. detect_init env h = (Inr i, h) \<and> files h' = (files h)(service_file i := None)"
proof -
  from assms have u: "uninstall env h = (Inr (), h')"
    by (auto simp: service_run_def ensure_root_def andthen_Inr_iff split: if_splits)
  from andthen_Inr_iff [THEN iffD1, OF u [unfolded uninstall_def]] obtain i h1
    where i: "detect_init env h = (Inr i, h1)" by blast
  then have h1: "h1 = h" by (rule detect_init_state)
  have "files h' = (files h)(service_file i := None)"
    using u unfolding uninstall_def andthen_def [of "detect_init env"] i h1
    by (cases i)
      (auto simp: andthen_Inr_iff service_file_def simp del: ascii_simps split: if_splits
        dest!: remove_if_exists_Inr run_cmd_Inr)
  then show ?thesis using i h1 by auto
qed

lemma path_join_end: "\<not> is_absolute n \<Longrightarrow> \<exists>u. path_join dir n = u @ n"
  by (auto simp: path_join_def)

lemma not_rc_update: "path_join dir (ascii ''rc-update'') \<noteq> service_file i"
proof
  assume eq: "path_join dir (ascii ''rc-update'') = service_file i"
  have "\<not> is_absolute (ascii ''rc-update'')" by (simp add: is_absolute_def starts_with_def)
  from path_join_end [OF this, of dir] eq obtain u where "u @ ascii ''rc-update'' = service_file i" by auto
  then have "rev (u @ ascii ''rc-update'') = rev (service_file i)" by simp
  then show False
    by (cases i) (simp_all add: service_file_def SYSTEMD_UNIT_PATH_def SYSV_SCRIPT_PATH_def)
qed

text \<open>The service file plays no part in finding the init system.\<close>

lemma detect_init_service_file:
  assumes "files h' = (files h)(service_file i \<mapsto> f)" and "new_dirs h' = new_dirs h"
  shows "fst (detect_init env h') = fst (detect_init env h)"
proof -
  have ne: "service_file i \<noteq> ascii ''/run/systemd/system''" "service_file i \<noteq> ascii ''/sbin/openrc''"
    by (cases i; simp add: service_file_def SYSTEMD_UNIT_PATH_def SYSV_SCRIPT_PATH_def)+
  have "command_exists env h' (ascii ''rc-update'') = command_exists env h (ascii ''rc-update'')"
    by (simp only: command_exists_def assms(1) fun_upd_apply not_rc_update if_False)
  moreover have "path_exists env h' p = path_exists env h p" if "p \<noteq> service_file i" for p
    using that by (simp add: path_exists_def assms)
  ultimately show ?thesis using ne by (simp add: detect_init_def del: ascii_simps)
qed

text \<open>(C40) \<open>uninstall\<close> undoes \<open>install\<close>: on a host without either service file, installing the running
  binary and then removing the service, both with success, leaves every file as it was.\<close>

theorem uninstall_undoes_install:
  assumes "service_run env (Install None as) h = (Inr (), h1)"
    and "service_run env Uninstall h1 = (Inr (), h2)"
    and "files h SYSTEMD_UNIT_PATH = None" and "files h SYSV_SCRIPT_PATH = None"
  shows "files h2 = files h"
proof -
  from install_file [OF assms(1)] obtain bin i where i: "detect_init env h = (Inr i, h)"
    and h1: "files h1 = (files h)(service_file i \<mapsto> service_text i bin as)"
    and "new_dirs h1 = new_dirs h" by auto
  with detect_init_service_file [OF h1] i have "fst (detect_init env h1) = Inr i" by simp
  moreover from uninstall_removes [OF assms(2)] obtain j where j: "detect_init env h1 = (Inr j, h1)"
    and h2: "files h2 = (files h1)(service_file j := None)" by blast
  ultimately have "j = i" by simp
  then have "files h2 = (files h)(service_file i := None)" by (simp add: h2 h1)
  moreover have "files h (service_file i) = None" using assms(3,4) by (simp add: service_file_def)
  ultimately show ?thesis by (simp add: fun_upd_idem)
qed

lemma svc_env_fields:
  "create_ok (svc_env_of u) p" "write_stops (svc_env_of u) p = None" "chmod_ok (svc_env_of u) p"
  "remove_ok (svc_env_of u) p" "executes (svc_env_of u) c as = Some True"
  "current_exe (svc_env_of u) = Some (ascii ''/tmp/auto-server'')" "canonical (svc_env_of u) p = Some p"
  by (simp_all add: svc_env_of_def)

lemma svc_env_systemd: "detect_init (svc_env_of u) h = (Inr Systemd, h)"
  by (simp add: detect_init_def path_exists_def svc_env_of_def)

lemma svc_env_root: "is_root (svc_env_of 0)"
  using is_root_uid [OF svc_env_status svc_env_lines(1) svc_env_lines(2), of 0] by simp

lemma sample_install:
  "\<exists>h1. service_run (svc_env_of 0) (Install None []) empty_host = (Inr (), h1)"
  by (simp add: service_run_def ensure_root_def svc_env_root install_def write_service_def binary_path_def
      svc_env_systemd svc_env_fields write_file_def file_create_def file_write_all_def set_permissions_def
      run_cmd_def attempt_def andthen_def ret_def with_context_def Let_def del: ascii_simps)

lemma sample_uninstall: "\<exists>h2. service_run (svc_env_of 0) Uninstall h = (Inr (), h2)"
  by (simp add: service_run_def ensure_root_def svc_env_root uninstall_def svc_env_systemd svc_env_fields
      remove_if_exists_def run_cmd_def attempt_def andthen_def ret_def with_context_def Let_def
      del: ascii_simps)

theorem uninstall_undoes_install_witness:
  "\<exists>h1 h2. service_run (svc_env_of 0) (Install None []) empty_host = (Inr (), h1)
     \<and> service_run (svc_env_of 0) Uninstall h1 = (Inr (), h2) \<and> files h2 = files empty_host"
proof -
  obtain h1 where h1: "service_run (svc_env_of 0) (Install None []) empty_host = (Inr (), h1)"
    using sample_install by blast
  obtain h2 where h2: "service_run (svc_env_of 0) Uninstall h1 = (Inr (), h2)"
    using sample_uninstall by blast
  have "files empty_host SYSTEMD_UNIT_PATH = None" "files empty_host SYSV_SCRIPT_PATH = None"
    by (simp_all add: empty_host_def SYSTEMD_UNIT_PATH_def SYSV_SCRIPT_PATH_def)
  from uninstall_undoes_install [OF h1 h2 this] h1 h2 show ?thesis by blast
qed

text \<open>With \<open>--bin-path\<close> the service file names the path as it was given; the file it is copied to is
  another one when the path is relative.\<close>

lemma relative_bin_path:
  assumes "service_run env (Install (Some given) as) h = (Inr (), h')" and "\<not> is_absolute given"
  shows "\<exists>i cwd f. files h' (service_file i) = Some (service_text i given as)
    \<and> current_dir env = Some cwd
    \<and> (path_join cwd given = service_file i \<or> files h' (path_join cwd given) = Some f)"
proof -
  from install_file [OF assms(1)] obtain h1 i src where
    h': "files h' = (files h1)(service_file i \<mapsto> service_text i given as)"
    and "copy_binary env src given h = (Inr (), h1)" by auto
  from copy_binary_Inr [OF this(2)] assms(2) obtain cwd program where "current_dir env = Some cwd"
    and "files h1 = (files h)(path_join cwd given \<mapsto> (program, 493))" by (auto simp: copied_to_def)
  then show ?thesis using h' by auto
qed

end
