(* ===== verification/HostTests.thy ===== *)
theory HostTests
  imports ServiceProps TunKernel
begin

text \<open>
  The unit tests of \<open>src/service.rs\<close> and \<open>src/tun.rs\<close>, read on the model: each test function is the
  conjunction of its assertions, and the lemma of its name shows that the model satisfies it. What a
  test asks of another package (CIDR parsing) or of the machine it runs on is an argument of its
  definition.
\<close>

section \<open>Unit file and init script\<close>

definition quoted :: "string \<Rightarrow> str" where
  "quoted s = 34 # ascii s @ [34]"

definition systemd_unit_contains_exec_start :: bool where
  "systemd_unit_contains_exec_start \<longleftrightarrow>
     (let unit = systemd_unit (ascii ''/opt/bin/auto-server'') [] in
      contains (ascii ''ExecStart='' @ quoted ''/opt/bin/auto-server'') unit
      \<and> contains (ascii ''WantedBy=multi-user.target'') unit)"

definition systemd_unit_forwards_args :: bool where
  "systemd_unit_forwards_args \<longleftrightarrow>
     contains (ascii ''ExecStart='' @ quoted ''/opt/bin/auto-server'' @ 32 # quoted ''--listen'' @ 32 #
        quoted ''0.0.0.0:9999'' @ 32 # quoted ''--acl-no-rfc6890'')
       (systemd_unit (ascii ''/opt/bin/auto-server'')
          [ascii ''--listen'', ascii ''0.0.0.0:9999'', ascii ''--acl-no-rfc6890''])"

definition init_script_is_valid_sh_with_braces :: bool where
  "init_script_is_valid_sh_with_braces \<longleftrightarrow>
     (let script = init_script (ascii ''/opt/bin/auto-server'') [] in
      contains (ascii ''Usage: $0 {start|stop|restart|status}'') script
      \<and> contains (ascii ''DAEMON='' @ quoted ''/opt/bin/auto-server'') script
      \<and> contains (ascii ''setsid'') script)"

text \<open>The bytes 34 and 39 are the double and the single quote.\<close>

definition init_script_forwards_args :: bool where
  "init_script_forwards_args \<longleftrightarrow>
     (let script = init_script (ascii ''/opt/bin/auto-server'') [ascii ''--listen'', ascii ''0.0.0.0:9999''] in
      contains (ascii ''DAEMON_ARGS='' @ [34, 39] @ ascii ''--listen'' @ [39, 32, 39] @ ascii ''0.0.0.0:9999'' @ [39]) script
      \<and> contains (ascii ''setsid '' @ quoted ''$DAEMON'' @ ascii '' $DAEMON_ARGS >'' @ quoted ''$LOGFILE'') script)"

definition copy_binary_writes_destination :: "svc_env \<Rightarrow> str \<Rightarrow> svc_host \<Rightarrow> bool" where
  "copy_binary_writes_destination env temp_dir h =
     (case binary_path env h of
        (Inl _, _) \<Rightarrow> False
      | (Inr src, h) \<Rightarrow>
          let dest = path_join temp_dir (ascii ''auto-server-copy-test-bin'') in
          (case copy_binary env src dest h of
             (Inl _, _) \<Rightarrow> False
           | (Inr _, h) \<Rightarrow> path_exists env h dest))"

lemma contains_text:
  "l \<in> set ls \<Longrightarrow> contains needle l \<Longrightarrow> contains needle (concat (map text_line ls))"
proof (induction ls)
  case (Cons k ls)
  show ?case
  proof (cases "l = k")
    case True
    from Cons.prems(2) obtain a b where "l = a @ needle @ b" by (auto simp: contains_iff)
    with True have "concat (map text_line (k # ls)) = a @ needle @ (b @ [10] @ concat (map text_line ls))"
      by (simp add: text_line_def)
    then show ?thesis unfolding contains_iff by blast
  next
    case False
    with Cons obtain a b where "concat (map text_line ls) = a @ needle @ b" by (auto simp: contains_iff)
    then have "concat (map text_line (k # ls)) = (text_line k @ a) @ needle @ b" by simp
    then show ?thesis unfolding contains_iff by blast
  qed
qed simp

lemma contains_self: "contains s (p @ s @ q)"
  by (auto simp: contains_iff)

lemma systemd_unit_contains_exec_start: systemd_unit_contains_exec_start
proof -
  let ?ls = "unit_lines (ascii ''/opt/bin/auto-server'') []"
  have "ascii ''ExecStart='' @ quoted ''/opt/bin/auto-server'' \<in> set ?ls"
    "ascii ''WantedBy=multi-user.target'' \<in> set ?ls"
    by (simp_all add: unit_lines_def systemd_exec_def systemd_quote_def quoted_def)
  then show ?thesis
    unfolding systemd_unit_contains_exec_start_def systemd_unit_def Let_def
    by (blast intro: contains_text contains_self [of _ "[]" "[]", simplified])
qed

lemma systemd_unit_forwards_args: systemd_unit_forwards_args
proof -
  let ?line = "ascii ''ExecStart='' @ quoted ''/opt/bin/auto-server'' @ 32 # quoted ''--listen'' @ 32 #
        quoted ''0.0.0.0:9999'' @ 32 # quoted ''--acl-no-rfc6890''"
  have "?line \<in> set (unit_lines (ascii ''/opt/bin/auto-server'')
      [ascii ''--listen'', ascii ''0.0.0.0:9999'', ascii ''--acl-no-rfc6890''])"
    by (simp add: unit_lines_def systemd_exec_def systemd_quote_def quoted_def)
  then show ?thesis
    unfolding systemd_unit_forwards_args_def systemd_unit_def
    by (rule contains_text) (rule contains_self [of _ "[]" "[]", simplified])
qed

lemma script_contains:
  "l \<in> set (script_lines bin as) \<Longrightarrow> l = p @ needle @ q \<Longrightarrow> contains needle (init_script bin as)"
  unfolding init_script_def by (rule contains_text) (auto simp: contains_self)

lemma init_script_is_valid_sh_with_braces: init_script_is_valid_sh_with_braces
  unfolding init_script_is_valid_sh_with_braces_def Let_def
proof (intro conjI)
  let ?bin = "ascii ''/opt/bin/auto-server''"
  show "contains (ascii ''Usage: $0 {start|stop|restart|status}'') (init_script ?bin [])"
    by (rule script_contains [where p = "ascii ''    *) echo \"''" and q = "ascii ''\"; exit 1 ;;''"
        and l = "ascii ''    *) echo \"Usage: $0 {start|stop|restart|status}\"; exit 1 ;;''"])
       (simp_all add: script_lines_def script_tail_def)
  show "contains (ascii ''DAEMON='' @ quoted ''/opt/bin/auto-server'') (init_script ?bin [])"
    by (rule script_contains [where p = "[]" and q = "[]" and l = "ascii ''DAEMON=\"'' @ ?bin @ ascii ''\"''"])
       (simp_all add: script_lines_def quoted_def)
  show "contains (ascii ''setsid'') (init_script ?bin [])"
    by (rule script_contains [where p = "ascii ''    ''" and q = "ascii '' \"$DAEMON\" $DAEMON_ARGS >\"$LOGFILE\" 2>&1 < /dev/null &''"
        and l = "ascii ''    setsid \"$DAEMON\" $DAEMON_ARGS >\"$LOGFILE\" 2>&1 < /dev/null &''"])
       (simp_all add: script_lines_def script_tail_def)
qed

lemma init_script_forwards_args: init_script_forwards_args
  unfolding init_script_forwards_args_def Let_def
proof (intro conjI)
  let ?bin = "ascii ''/opt/bin/auto-server''" and ?args = "[ascii ''--listen'', ascii ''0.0.0.0:9999'']"
  show "contains (ascii ''DAEMON_ARGS='' @ [34, 39] @ ascii ''--listen'' @ [39, 32, 39] @ ascii ''0.0.0.0:9999'' @ [39])
      (init_script ?bin ?args)"
    by (rule script_contains [where p = "[]" and q = "[34]"
        and l = "ascii ''DAEMON_ARGS=\"'' @ sh_quote_join ?args @ ascii ''\"''"])
       (simp_all add: script_lines_def sh_quote_join_def sh_quote_def)
  show "contains (ascii ''setsid '' @ quoted ''$DAEMON'' @ ascii '' $DAEMON_ARGS >'' @ quoted ''$LOGFILE'')
      (init_script ?bin ?args)"
    by (rule script_contains [where p = "ascii ''    ''" and q = "ascii '' 2>&1 < /dev/null &''"
        and l = "ascii ''    setsid \"$DAEMON\" $DAEMON_ARGS >\"$LOGFILE\" 2>&1 < /dev/null &''"])
       (simp_all add: script_lines_def script_tail_def quoted_def)
qed

lemma copy_binary_writes_destination:
  assumes "current_exe env = Some exe" and "canonical env exe = Some src" and "files h src = Some f"
    and "is_absolute temp_dir" and "\<And>p. create_dir_ok env p" and "\<And>a b. copy_fails env a b = None"
    and "\<And>p. chmod_ok env p"
  shows "copy_binary_writes_destination env temp_dir h"
proof -
  let ?dest = "path_join temp_dir (ascii ''auto-server-copy-test-bin'')"
  have "is_absolute ?dest"
    using assms(4) by (auto simp: path_join_def is_absolute_def starts_with_iff)
  then show ?thesis
    using assms
    by (simp add: copy_binary_writes_destination_def binary_path_def copy_binary_def copy_dest_def
        create_parent_def copy_file_def set_permissions_def path_exists_def andthen_def ret_def
        Let_def split: option.split)
qed

section \<open>Address pool and device names\<close>

text \<open>What the package \<open>ipnet\<close> says of the strings in the tests.\<close>

definition reads_cidr :: "(str \<Rightarrow> ip_net option) \<Rightarrow> bool" where
  "reads_cidr parse_net \<longleftrightarrow>
     parse_net (ascii ''198.18.0.0/15'') = Some (NetV4 0xC6120000 0xC613FFFF)
     \<and> parse_net (ascii ''192.168.0.0/30'') = Some (NetV4 0xC0A80000 0xC0A80003)
     \<and> parse_net (ascii ''198.18.255.0/30'') = Some (NetV4 0xC612FF00 0xC612FF03)
     \<and> parse_net (ascii ''not-a-cidr'') = None"

definition pool_allocates_distinct_v4_blocks :: "(str \<Rightarrow> ip_net option) \<Rightarrow> bool" where
  "pool_allocates_distinct_v4_blocks parse_net \<longleftrightarrow>
     (case new_pool parse_net (ascii ''198.18.0.0/15'') of
        Inl _ \<Rightarrow> False
      | Inr pool \<Rightarrow>
          (case allocate pool of
             (Inr (p0, c0, pre0), pool) \<Rightarrow>
               (case allocate pool of
                  (Inr (p1, c1, pre1), _) \<Rightarrow>
                    pre0 = 30 \<and> pre1 = 30
                    \<and> p0 = V4 (v4 198 18 0 1) \<and> c0 = V4 (v4 198 18 0 2)
                    \<and> p1 = V4 (v4 198 18 0 5) \<and> c1 = V4 (v4 198 18 0 6)
                | (Inl _, _) \<Rightarrow> False)
           | (Inl _, _) \<Rightarrow> False))"

definition pool_v4_exhaustion :: "(str \<Rightarrow> ip_net option) \<Rightarrow> bool" where
  "pool_v4_exhaustion parse_net \<longleftrightarrow>
     (case new_pool parse_net (ascii ''192.168.0.0/30'') of
        Inl _ \<Rightarrow> False
      | Inr pool \<Rightarrow>
          (case allocate pool of
             (Inr _, pool) \<Rightarrow> (case fst (allocate pool) of Inl _ \<Rightarrow> True | Inr _ \<Rightarrow> False)
           | (Inl _, _) \<Rightarrow> False))"

definition pool_rejects_bad_cidr :: "(str \<Rightarrow> ip_net option) \<Rightarrow> bool" where
  "pool_rejects_bad_cidr parse_net \<longleftrightarrow>
     (case new_pool parse_net (ascii ''not-a-cidr'') of Inl _ \<Rightarrow> True | Inr _ \<Rightarrow> False)"

definition cstr_to_string_handles_null_termination :: bool where
  "cstr_to_string_handles_null_termination \<longleftrightarrow>
     cstr_to_string (ascii ''tun3'' @ 0 # ascii ''rest'') = ascii ''tun3''"

lemma pool_allocates_distinct_v4_blocks:
  "reads_cidr parse_net \<Longrightarrow> pool_allocates_distinct_v4_blocks parse_net"
  by (simp add: pool_allocates_distinct_v4_blocks_def reads_cidr_def new_pool_def allocate_def
      v4_def be_val_def Let_def del: ascii_simps)

lemma pool_v4_exhaustion: "reads_cidr parse_net \<Longrightarrow> pool_v4_exhaustion parse_net"
  by (simp add: pool_v4_exhaustion_def reads_cidr_def new_pool_def allocate_def Let_def del: ascii_simps)

lemma pool_rejects_bad_cidr: "reads_cidr parse_net \<Longrightarrow> pool_rejects_bad_cidr parse_net"
  by (simp add: pool_rejects_bad_cidr_def reads_cidr_def new_pool_def del: ascii_simps)

lemma cstr_to_string_handles_null_termination: cstr_to_string_handles_null_termination
  by (simp add: cstr_to_string_handles_null_termination_def cstr_to_string_def from_utf8_lossy_ascii)

section \<open>A device on the kernel\<close>

text \<open>The device test of \<open>tun.rs\<close> on the kernel of \<open>TunKernel\<close>: \<open>ip link show\<close> succeeds for the links that
  exist. The device and its name come from \<open>TUNSETIFF\<close>.\<close>

definition interface_exists :: "kernel \<Rightarrow> str \<Rightarrow> bool" where
  "interface_exists k name \<longleftrightarrow> k_links k name \<noteq> None"

definition tun_integration :: "(str \<Rightarrow> ip_net option) \<Rightarrow> tun_env \<Rightarrow> host_state \<Rightarrow> kernel \<Rightarrow> bool" where
  "tun_integration parse_net env h k \<longleftrightarrow>
     (case new_pool parse_net (ascii ''198.18.255.0/30'') of
        Inl _ \<Rightarrow> False
      | Inr pool \<Rightarrow>
          (case fst (allocate pool) of
             Inl _ \<Rightarrow> False
           | Inr (proxy, client, prefix) \<Rightarrow>
               (case create env (ascii ''auto%d'') proxy client prefix (Some 1400) h of
                  (Inl _, _) \<Rightarrow> False
                | (Inr dev, h') \<Rightarrow>
                    (let made = plugged (d_name dev) k; dropped = drop_device env dev h' in
                     interface_exists (kernel_run env (new_commands h h') made) (d_name dev)
                     \<and> \<not> interface_exists (kernel_run env (new_commands h dropped) made) (d_name dev)))))"

lemma tun_integration:
  assumes "reads_cidr parse_net" and "t_open_ok env" and "t_ioctl env (tun_request (ascii ''auto%d'')) = Some bytes" and "t_async_ok env"
    and "\<And>c. t_cmd_ok env c" and "t_fwd_writable env" and "read_ip_forward env h = Inr v"
  shows "tun_integration parse_net env h k"
proof -
  have a: "fst (allocate \<lparr>net = NetV4 0xC612FF00 0xC612FF03, v4_blocks = 0, v6_blocks = 0\<rparr>)
      = Inr (V4 0xC612FF01, V4 0xC612FF02, 30)"
    by (simp add: allocate_def Let_def)
  have n: "length (ascii ''auto%d'') < IFNAMSIZ" "is_ipv4 (V4 0xC612FF01) = is_ipv4 (V4 0xC612FF02)"
    by (simp_all add: IFNAMSIZ_def)
  obtain dev h' where c: "create env (ascii ''auto%d'') (V4 0xC612FF01) (V4 0xC612FF02) 30 (Some 1400) h = (Inr dev, h')"
    using create_succeeds [OF assms(2-7) n] by blast
  have ok: "\<forall>m. Some (1400 :: nat) = Some m \<longrightarrow> m < 2 ^ 32"
    "\<forall>c\<in>set (new_commands h' (drop_device env dev h')). t_cmd_ok env c" using assms(5) by simp_all
  from created_and_dropped [OF c ok, of k] a c assms(1) show ?thesis
    by (simp add: tun_integration_def reads_cidr_def new_pool_def interface_exists_def Let_def del: ascii_simps)
qed

end
