(* ===== verification/Servers.thy ===== *)
theory Servers
  imports Config Tun
begin

text \<open>
  The two servers: \<open>ProxyServer\<close> and \<open>Resolver::new\<close> of \<open>src/server.rs\<close>, \<open>MasqueServer\<close> with
  \<open>load_certs\<close> and \<open>load_key\<close> of \<open>src/masque.rs\<close>. What they do before they accept and how their accept
  loops go on. The PEM parser, rustls, quinn, the file system and the sockets answer as the environment
  says; the set-up of the tracing and transport options has no effect that is modelled.
\<close>

section \<open>The resolver\<close>

text \<open>The configuration a resolver is built from: Cloudflare's servers, or the given one, asked over UDP
  and TCP and trusted on negative answers.\<close>

datatype resolver_config = Cloudflare | ClearText "ipaddr list" u16 bool

definition resolver_new :: "sockaddr option \<Rightarrow> string + resolver_config" where
  "resolver_new dns =
     Inr (case dns of
            Some server \<Rightarrow> ClearText [sa_ip server] (sa_port server) True
          | None \<Rightarrow> Cloudflare)"

section \<open>The TCP proxy server\<close>

record proxy_server =
  ps_config :: app_config
  ps_resolver :: resolver_config

definition proxy_new :: "app_config \<Rightarrow> string + proxy_server" where
  "proxy_new config =
     (case resolver_new (dns_server config) of
        Inl e \<Rightarrow> Inl e
      | Inr r \<Rightarrow> Inr \<lparr>ps_config = config, ps_resolver = r\<rparr>)"

text \<open>
  The accept loop over what \<open>accept\<close> yields: the peers whose session task was spawned, and the error
  that ended the loop, \<open>None\<close> while it goes on waiting.
\<close>

fun accept_loop :: "sockaddr option list \<Rightarrow> sockaddr list \<times> string option" where
  "accept_loop [] = ([], None)"
| "accept_loop (None # r) = ([], Some ''accept failed'')"
| "accept_loop (Some peer # r) = (let (spawned, e) = accept_loop r in (peer # spawned, e))"

definition proxy_run ::
    "(sockaddr \<Rightarrow> bool) \<Rightarrow> proxy_server \<Rightarrow> sockaddr option list \<Rightarrow> sockaddr list \<times> string option" where
  "proxy_run bind_ok server inputs =
     (if bind_ok (listen (ps_config server)) then accept_loop inputs else ([], Some ''failed to bind''))"

section \<open>The MASQUE server\<close>

record masque_server =
  ms_config :: app_config

text \<open>Only the presence of the three options is checked here.\<close>

definition masque_new :: "app_config \<Rightarrow> string + masque_server" where
  "masque_new config =
     (if key config = None \<or> cert_chain config = None \<or> auth_token config = None
      then Inl ''--enable h3 requires --key, --cert-chain and --auth-token to be set''
      else Inr \<lparr>ms_config = config\<rparr>)"

text \<open>A certificate and a key are the bytes of their DER encoding. \<open>certs\<close> and \<open>private_key\<close> are the
  functions of the PEM library; the latter finds no key, or fails.\<close>

record server_env =
  file_opens :: "str \<Rightarrow> bool"
  file_bytes :: "str \<Rightarrow> byte list option"
  certs :: "byte list \<Rightarrow> byte list list option"
  private_key :: "byte list \<Rightarrow> byte list option option"
  single_cert_ok :: "byte list list \<Rightarrow> byte list \<Rightarrow> bool"
  quic_crypto_ok :: bool
  endpoint_ok :: "sockaddr \<Rightarrow> bool"
  parse_net :: "str \<Rightarrow> ip_net option"

definition load_certs :: "server_env \<Rightarrow> str \<Rightarrow> string + byte list list" where
  "load_certs env path =
     (if \<not> file_opens env path then Inl ''failed to open certificate chain''
      else
        (case file_bytes env path of
           None \<Rightarrow> Inl ''failed to read certificate chain''
         | Some buf \<Rightarrow>
             (case certs env buf of
                None \<Rightarrow> Inl ''failed to parse PEM certificates''
              | Some cs \<Rightarrow> Inr cs)))"

definition load_key :: "server_env \<Rightarrow> str \<Rightarrow> string + byte list" where
  "load_key env path =
     (if \<not> file_opens env path then Inl ''failed to open private key''
      else
        (case file_bytes env path of
           None \<Rightarrow> Inl ''failed to read private key''
         | Some buf \<Rightarrow>
             (case private_key env buf of
                None \<Rightarrow> Inl ''failed to parse private key''
              | Some None \<Rightarrow> Inl ''no private key found''
              | Some (Some k) \<Rightarrow> Inr k)))"

text \<open>\<open>MasqueServer::run\<close> up to its accept loop: the resolver and the pool the sessions share. \<open>unwrap\<close> on
  a missing option would panic; \<open>masque_new\<close> has excluded it.\<close>

definition masque_setup :: "server_env \<Rightarrow> masque_server \<Rightarrow> string + resolver_config \<times> ip_pool" where
  "masque_setup env server =
     (let config = ms_config server in
      case load_certs env (the (cert_chain config)) of
        Inl e \<Rightarrow> Inl e
      | Inr cs \<Rightarrow>
          (case load_key env (the (key config)) of
             Inl e \<Rightarrow> Inl e
           | Inr k \<Rightarrow>
               if \<not> single_cert_ok env cs k
               then Inl ''failed to build rustls ServerConfig from --key/--cert-chain''
               else if \<not> quic_crypto_ok env then Inl ''failed to build QUIC crypto config''
               else if \<not> endpoint_ok env (h3_bind config) then Inl ''failed to bind MASQUE/QUIC endpoint''
               else
                 (case resolver_new (dns_server config) of
                    Inl e \<Rightarrow> Inl e
                  | Inr resolver \<Rightarrow>
                      (case new_pool (parse_net env) (ip_pool config) of
                         Inl e \<Rightarrow> Inl e
                       | Inr pool \<Rightarrow> Inr (resolver, pool)))))"

text \<open>One incoming connection: its peer, whether its QUIC handshake succeeds, and whether HTTP/3 can be
  set up on it.\<close>

record incoming =
  in_peer :: sockaddr
  handshake_ok :: bool
  h3_setup_ok :: bool

text \<open>The accept loop until the endpoint is closed: the connections that get a handler task.\<close>

fun masque_accept :: "incoming list \<Rightarrow> sockaddr list" where
  "masque_accept [] = []"
| "masque_accept (i # r) =
     (if \<not> handshake_ok i then masque_accept r
      else if \<not> h3_setup_ok i then masque_accept r
      else in_peer i # masque_accept r)"

definition masque_run :: "server_env \<Rightarrow> masque_server \<Rightarrow> incoming list \<Rightarrow> string + sockaddr list" where
  "masque_run env server inputs =
     (case masque_setup env server of Inl e \<Rightarrow> Inl e | Inr _ \<Rightarrow> Inr (masque_accept inputs))"

section \<open>What the accept loops promise\<close>

text \<open>A connection that fails does not keep the MASQUE server from the ones after it; a TCP \<open>accept\<close>
  that fails, for whatever reason, ends the TCP server.\<close>

lemma masque_accept_eq: "masque_accept inputs = map in_peer (filter (\<lambda>i. handshake_ok i \<and> h3_setup_ok i) inputs)"
  by (induction inputs) auto

lemma accept_loop_eq:
  "accept_loop inputs =
     (map the (takeWhile (\<lambda>i. i \<noteq> None) inputs), if None \<in> set inputs then Some ''accept failed'' else None)"
  by (induction inputs rule: accept_loop.induct) (auto split: prod.splits)

lemma masque_setup_pool:
  "masque_setup env server = Inr (r, pool) \<Longrightarrow>
   new_pool (parse_net env) (ip_pool (ms_config server)) = Inr pool
   \<and> (\<exists>bytes k. file_bytes env (the (key (ms_config server))) = Some bytes
        \<and> private_key env bytes = Some (Some k))"
  by (auto simp: masque_setup_def load_key_def Let_def split: sum.splits if_splits option.splits)

end
