(* ===== verification/Logging.thy ===== *)
theory Logging
  imports Config
begin

text \<open>
  \<open>src/logging.rs\<close>: the log subscriber that \<open>main\<close> installs before anything else. Reading the filter from
  the environment and installing a subscriber are the library's: parameters, of which the code only
  relies on their types.
\<close>

text \<open>The builder's settings; \<open>'f\<close> is the library's filter.\<close>

record 'f subscriber =
  env_filter :: 'f
  with_target :: bool
  with_thread_ids :: bool

definition init ::
    "(tracing_level \<Rightarrow> 'f) \<Rightarrow> ('f subscriber \<Rightarrow> string + unit) \<Rightarrow> log_level \<Rightarrow> string + unit" where
  "init from_env_lossy try_init level =
     (let filter = from_env_lossy (level_of level) in
      case try_init \<lparr>env_filter = filter, with_target = False, with_thread_ids = True\<rparr> of
        Inl err \<Rightarrow> Inl (''failed to initialize logging: '' @ err)
      | Inr _ \<Rightarrow> Inr ())"

end
