(* ===== verification/Launch.thy ===== *)
theory Launch
  imports Servers Service Upgrade Logging
begin

text \<open>
  \<open>run\<close> in \<open>src/lib.rs\<close> and \<open>main\<close> in \<open>src/main.rs\<close>: which tasks a configuration starts, and what comes
  before them.
\<close>

section \<open>Starting up\<close>

datatype task =
    UpgradeLoop u64 bool
  | TcpListener sockaddr
  | MasqueListener sockaddr

text \<open>The background task that was spawned, if any, and either the error that ends the start or the
  listeners that are then run together.\<close>

definition run :: "app_config \<Rightarrow> task list \<times> (string + task list)" where
  "run config =
     (case validate config of
        Inl e \<Rightarrow> ([], Inl e)
      | Inr _ \<Rightarrow>
          (case (case auto_upgrade config of
                   None \<Rightarrow> Inr []
                 | Some interval_str \<Rightarrow>
                     (case parse_interval interval_str of
                        Inl _ \<Rightarrow> Inl ''Invalid auto-upgrade interval''
                      | Inr interval \<Rightarrow> Inr [UpgradeLoop interval (pre_release config)])) of
             Inl e \<Rightarrow> ([], Inl e)
           | Inr spawned \<Rightarrow>
               (spawned,
                (case enable config of
                   Some H3 \<Rightarrow>
                     if key config = None \<or> cert_chain config = None \<or> auth_token config = None
                     then Inl ''--enable h3 requires --key, --cert-chain and --auth-token to be set''
                     else
                       (case masque_new config of
                          Inl e \<Rightarrow> Inl e
                        | Inr _ \<Rightarrow>
                            if run_tcp_proxy config
                            then (case proxy_new config of
                                    Inl e \<Rightarrow> Inl e
                                  | Inr _ \<Rightarrow>
                                      Inr [TcpListener (listen config), MasqueListener (h3_bind config)])
                            else Inr [MasqueListener (h3_bind config)])
                 | None \<Rightarrow>
                     (case proxy_new config of
                        Inl e \<Rightarrow> Inl e
                      | Inr _ \<Rightarrow> Inr [TcpListener (listen config)])))))"

text \<open>\<open>main\<close>: the log subscriber first, and a failure of it ends the program; then a service command is run
  instead of the server.\<close>

definition main ::
    "(tracing_level \<Rightarrow> 'f) \<Rightarrow> ('f subscriber \<Rightarrow> string + unit) \<Rightarrow> svc_env \<Rightarrow> cli \<Rightarrow> (svc_host, task list) effect" where
  "main from_env_lossy try_init env c =
     andthen (lift_result (init from_env_lossy try_init (log_level (cli_config c)))) (\<lambda>_.
     case sub_command c of
       Some (Service svc) \<Rightarrow> andthen (service_run env (action svc)) (\<lambda>_. ret [])
     | None \<Rightarrow> lift_result (snd (run (cli_config c))))"

section \<open>What is served\<close>

lemma proxy_new_eq [simp]:
  "\<exists>p. proxy_new c = Inr p"
  "(case proxy_new c of Inl e \<Rightarrow> f e | Inr p \<Rightarrow> x) = x"
  by (simp_all add: proxy_new_def resolver_new_def)

lemma masque_new_eq [simp]:
  "(case masque_new c of Inl e \<Rightarrow> f e | Inr p \<Rightarrow> x) =
     (if key c = None \<or> cert_chain c = None \<or> auth_token c = None
      then f ''--enable h3 requires --key, --cert-chain and --auth-token to be set'' else x)"
  by (simp add: masque_new_def)

lemma validate_iff: "validate c = Inr u \<longleftrightarrow> run_tcp_proxy c \<or> enable c = Some H3"
  by (simp add: validate_def)

lemma enable_cases: "enable c = None \<or> enable c = Some H3"
  by (metis enable_protocol.exhaust not_None_eq)

text \<open>(C29) A start that succeeds serves something: the TCP listener exactly when it is not disabled,
  the MASQUE listener exactly when it is enabled, and never without key, certificate and token.\<close>

theorem run_serves:
  assumes "run c = (spawned, Inr ls)"
  shows "ls \<noteq> []
    \<and> (TcpListener a \<in> set ls) = (run_tcp_proxy c \<and> a = listen c)
    \<and> (MasqueListener b \<in> set ls) = (enable c = Some H3 \<and> b = h3_bind c)
    \<and> (enable c = Some H3 \<longrightarrow> key c \<noteq> None \<and> cert_chain c \<noteq> None \<and> auth_token c \<noteq> None)
    \<and> UpgradeLoop i p \<notin> set ls \<and> length spawned \<le> 1"
proof -
  have v: "run_tcp_proxy c \<or> enable c = Some H3"
    using assms validate_iff [of c] by (simp add: run_def split: sum.splits)
  from assms enable_cases [of c] show ?thesis
    by (elim disjE)
       (use v in \<open>auto simp: run_def split: sum.splits option.splits if_splits\<close>)
qed

lemma default_run: "run default_config = ([], Inr [TcpListener (SocketAddr (V4 0) 1080)])"
  by (simp add: run_def default_config_def validate_def run_tcp_proxy_def)

theorem run_serves_witness:
  "TcpListener (SocketAddr (V4 0) 1080) \<in> set [TcpListener (SocketAddr (V4 0) 1080)]
   \<and> run_tcp_proxy default_config"
  using run_serves [OF default_run, of "SocketAddr (V4 0) 1080"] by simp

text \<open>The start is refused exactly for: a disabled TCP listener without MASQUE, an upgrade
  interval that does not parse, or MASQUE without its three options. Nothing is opened yet: files and
  addresses fail later, in the servers.\<close>

theorem run_refuses_iff:
  "(\<exists>e. snd (run c) = Inl e) \<longleftrightarrow>
     \<not> run_tcp_proxy c \<and> enable c \<noteq> Some H3
     \<or> (\<exists>s e. auto_upgrade c = Some s \<and> parse_interval s = Inl e)
     \<or> enable c = Some H3 \<and>
         (key c = None \<or> cert_chain c = None \<or> auth_token c = None)"
proof (cases "auto_upgrade c")
  case None
  from enable_cases [of c] show ?thesis by (elim disjE) (simp_all add: run_def validate_def None)
next
  case (Some s)
  show ?thesis
  proof (cases "parse_interval s")
    case (Inl e)
    from enable_cases [of c] show ?thesis by (elim disjE) (simp_all add: run_def validate_def Some Inl)
  next
    case (Inr i)
    from enable_cases [of c] show ?thesis by (elim disjE) (simp_all add: run_def validate_def Some Inr)
  qed
qed

theorem run_refuses_iff_witness:
  "\<exists>e. snd (run (default_config\<lparr>disable := Some Http\<rparr>)) = Inl e"
  unfolding run_refuses_iff by (simp add: default_config_def run_tcp_proxy_def)

section \<open>The process\<close>

text \<open>A process either manages the service or serves, never both: a service command opens no listener,
  serving leaves the host's files and services alone, and neither happens without a log subscriber.\<close>

theorem main_serves_or_manages:
  assumes "main from_env_lossy try_init env c h = (Inr tasks, h')"
  shows "init from_env_lossy try_init (log_level (cli_config c)) = Inr ()
    \<and> (case sub_command c of
         Some (Service svc) \<Rightarrow> tasks = [] \<and> service_run env (action svc) h = (Inr (), h')
       | None \<Rightarrow> tasks \<noteq> [] \<and> h' = h \<and> snd (run (cli_config c)) = Inr tasks)"
proof -
  obtain i where i: "init from_env_lossy try_init (log_level (cli_config c)) = i" by simp
  with assms have init: "i = Inr ()"
    by (cases i) (simp_all add: main_def andthen_def lift_result_def)
  show ?thesis
  proof (cases "sub_command c")
    case None
    with assms i init have "snd (run (cli_config c)) = Inr tasks \<and> h' = h"
      by (simp add: main_def andthen_def lift_result_def split: sum.splits)
    moreover have "tasks \<noteq> []" if "snd (run (cli_config c)) = Inr tasks"
      using that enable_cases [of "cli_config c"] by (auto simp: run_def split: sum.splits option.splits if_splits)
    ultimately show ?thesis using i init None by simp
  next
    case (Some s)
    then obtain svc where "sub_command c = Some (Service svc)" by (cases s) simp
    with assms i init show ?thesis
      by (auto simp: main_def andthen_def lift_result_def ret_def split: prod.splits sum.splits)
  qed
qed

end
